(* ===== verification/Kernel_Prelude.thy ===== *)
theory Kernel_Prelude
  imports "HOL-Library.Word"
begin

text \<open>
  Shared vocabulary of the development: the machine integer types of the Rust
  sources, the result of a fallible Rust operation (value, error or panic), the
  non-zero integers (\<open>NonZeroU8\<close>, \<open>NonZeroUsize\<close>), the slice searches the kernel
  uses, and the generic lemmas about them.  The collections
  \<open>outcome_simps\<close> (case analysis of fallible results) and \<open>codec_simps\<close> (the
  integer encodings of the ABI) are filled by the component theories.
\<close>

unbundle bit_operations_syntax

named_theorems outcome_simps \<open>case analysis of fallible results\<close>
named_theorems codec_simps \<open>integer encodings of the syscall ABI\<close>

section \<open>Machine integers\<close>

type_synonym u8 = "8 word"
type_synonym u16 = "16 word"
type_synonym u32 = "32 word"
type_synonym u64 = "64 word"
type_synonym usize = "64 word"

lemma not_bit_beyond [simp]: "LENGTH('w::len) \<le> n \<Longrightarrow> \<not> bit (w :: 'w word) n"
  by (auto dest: bit_imp_le_length)

lemma unat_bound: "unat (w :: 'w::len word) < 2 ^ LENGTH('w)"
  by (rule unsigned_less)

lemma unat_of_nat_usize: "n < 2 ^ 64 \<Longrightarrow> unat (of_nat n :: usize) = n"
  by (simp add: unat_of_nat)

text \<open>The idiom \<open>word & (1 << n) != 0\<close>; the simplifier writes \<open>1 << n\<close> as a power of two.\<close>

lemma and_exp_eq_0_iff [simp]: "(w :: 'w::len word) AND 2 ^ n = 0 \<longleftrightarrow> \<not> bit w n"
  using bit_iff_and_push_bit_not_eq_0 [of w n] by simp

section \<open>Results of fallible code\<close>

text \<open>
  A Rust call either returns \<open>Ok v\<close>, returns \<open>Err e\<close>, or panics (an \<open>unwrap\<close> of
  \<open>None\<close>, a failed assertion, an index out of bounds, an arithmetic overflow).
  In the kernel a panic halts the machine, so it is a separate outcome.
\<close>

datatype ('e, 'a) outcome = Ok 'a | Err 'e | Panic

fun is_ok :: "('e, 'a) outcome \<Rightarrow> bool" where
  "is_ok (Ok _) = True"
| "is_ok _ = False"

definition obind :: "('e, 'a) outcome \<Rightarrow> ('a \<Rightarrow> ('e, 'b) outcome) \<Rightarrow> ('e, 'b) outcome" where
  "obind m f = (case m of Ok a \<Rightarrow> f a | Err e \<Rightarrow> Err e | Panic \<Rightarrow> Panic)"

definition ok_or :: "'a option \<Rightarrow> 'e \<Rightarrow> ('e, 'a) outcome" where
  "ok_or x e = (case x of None \<Rightarrow> Err e | Some a \<Rightarrow> Ok a)"

definition unwrap :: "'a option \<Rightarrow> ('e, 'a) outcome" where
  "unwrap x = (case x of None \<Rightarrow> Panic | Some a \<Rightarrow> Ok a)"

lemma obind_simps [simp, outcome_simps]:
  "obind (Ok a) f = f a"
  "obind (Err e) f = Err e"
  "obind Panic f = Panic"
  by (simp_all add: obind_def)

lemma obind_eq_Ok [outcome_simps]:
  "obind m f = Ok b \<longleftrightarrow> (\<exists>a. m = Ok a \<and> f a = Ok b)"
  by (cases m) auto

lemma ok_or_simps [simp]:
  "ok_or None e = Err e"
  "ok_or (Some a) e = Ok a"
  by (simp_all add: ok_or_def)

lemma unwrap_simps [simp]:
  "unwrap None = Panic"
  "unwrap (Some a) = Ok a"
  by (simp_all add: unwrap_def)

lemma unwrap_eq_Ok [outcome_simps]: "unwrap x = Ok a \<longleftrightarrow> x = Some a"
  by (cases x) auto

text \<open>
  Code that also changes a state keeps the state it has reached when it fails;
  \<open>sbind\<close> is the \<open>?\<close> operator after such a call.
\<close>

definition sbind ::
  "('e, 'a) outcome \<times> 's \<Rightarrow> ('a \<Rightarrow> 's \<Rightarrow> ('e, 'b) outcome \<times> 's) \<Rightarrow> ('e, 'b) outcome \<times> 's" where
  "sbind m f = (case m of (Ok a, s) \<Rightarrow> f a s | (Err e, s) \<Rightarrow> (Err e, s) | (Panic, s) \<Rightarrow> (Panic, s))"

lemma sbind_simps [simp, outcome_simps]:
  "sbind (Ok a, s) f = f a s"
  "sbind (Err e, s) f = (Err e, s)"
  "sbind (Panic, s) f = (Panic, s)"
  by (simp_all add: sbind_def)

lemma sbind_Ok:
  "sbind m f = (Ok b, s') \<longleftrightarrow> (\<exists>a s. m = (Ok a, s) \<and> f a s = (Ok b, s'))"
  by (cases m; cases "fst m") auto

section \<open>Non-zero integers\<close>

text \<open>
  \<open>core::num::NonZeroU8\<close> (process ids) and \<open>NonZeroUsize\<close> (addresses and sizes of
  memory ranges): \<open>new\<close> refuses 0, \<open>get\<close> reads the integer back.
\<close>

typedef (overloaded) ('w::len) nonzero = "{w :: 'w word. w \<noteq> 0}"
  by (rule exI [of _ 1]) simp

definition nz_get :: "'w::len nonzero \<Rightarrow> 'w word" where
  "nz_get = Rep_nonzero"

text \<open>The value at \<open>0\<close> is never used: \<open>nz_new\<close> guards it.\<close>

definition nz_lit :: "'w::len word \<Rightarrow> 'w nonzero" where
  "nz_lit w = Abs_nonzero (if w = 0 then 1 else w)"

definition nz_new :: "'w::len word \<Rightarrow> 'w nonzero option" where
  "nz_new w = (if w = 0 then None else Some (nz_lit w))"

lemma nonzero_abstype [code abstype]: "Abs_nonzero (nz_get x) = x"
  by (simp add: nz_get_def Rep_nonzero_inverse)

lemma nz_lit_get [simp]: "nz_lit (nz_get x) = x"
  using Rep_nonzero [of x] by (simp add: nz_lit_def nz_get_def Rep_nonzero_inverse)

lemma nz_get_lit_code [code abstract]: "nz_get (nz_lit w) = (if w = 0 then 1 else w)"
  by (simp add: nz_lit_def nz_get_def Abs_nonzero_inverse)

lemma nz_get_lit [simp]: "w \<noteq> 0 \<Longrightarrow> nz_get (nz_lit w) = w"
  by (simp add: nz_get_lit_code)

lemma nz_get_inject [simp]: "nz_get x = nz_get y \<longleftrightarrow> x = y"
  by (simp add: nz_get_def Rep_nonzero_inject)

lemma nz_get_nonzero [simp]: "nz_get x \<noteq> 0"
  using Rep_nonzero [of x] by (simp add: nz_get_def)

instantiation nonzero :: (len) equal
begin

definition equal_nonzero :: "'a nonzero \<Rightarrow> 'a nonzero \<Rightarrow> bool" where
  "equal_nonzero x y \<longleftrightarrow> nz_get x = nz_get y"

instance
  by standard (simp add: equal_nonzero_def)

end

lemma nz_new_0 [simp]: "nz_new 0 = None"
  by (simp add: nz_new_def)

lemma nz_new_get [simp, codec_simps]: "nz_new (nz_get x) = Some x"
  by (simp add: nz_new_def)

lemma nz_new_eq_None [simp]: "nz_new w = None \<longleftrightarrow> w = 0"
  by (simp add: nz_new_def)

lemma nz_new_eq_Some: "nz_new w = Some x \<longleftrightarrow> nz_get x = w"
  by (auto simp: nz_new_def)

lemma nz_new_lit: "w \<noteq> 0 \<Longrightarrow> nz_new w = Some (nz_lit w)"
  by (simp add: nz_new_def)

lemma nz_lit_inject: "v \<noteq> 0 \<Longrightarrow> w \<noteq> 0 \<Longrightarrow> nz_lit v = nz_lit w \<longleftrightarrow> v = w"
  by (metis nz_get_lit)

section \<open>Searches and counts in slices\<close>

lemma find_cong_update:
  "\<not> P (xs ! i) \<Longrightarrow> \<not> P y \<Longrightarrow> find P (xs[i := y]) = find P xs"
proof (induction xs arbitrary: i)
  case (Cons x xs)
  then show ?case by (cases i) auto
qed simp

lemma find_update_unique:
  assumes "i < length xs" "P y" "\<And>j. j < length xs \<Longrightarrow> j \<noteq> i \<Longrightarrow> \<not> P (xs ! j)"
  shows "find P (xs[i := y]) = Some y"
  using assms
proof (induction xs arbitrary: i)
  case (Cons x xs)
  show ?case
  proof (cases i)
    case (Suc k)
    have "\<not> P x" using Cons.prems(3) [of 0] Suc by simp
    moreover have "find P (xs[k := y]) = Some y"
    proof (rule Cons.IH)
      show "\<not> P (xs ! j)" if "j < length xs" "j \<noteq> k" for j
        using Cons.prems(3) [of "Suc j"] that Suc by simp
    qed (use Cons.prems Suc in simp_all)
    ultimately show ?thesis using Suc by simp
  qed (use Cons.prems in simp)
qed simp

lemma find_unique:
  assumes "i < length xs" "P (xs ! i)" "\<And>j. j < length xs \<Longrightarrow> j \<noteq> i \<Longrightarrow> \<not> P (xs ! j)"
  shows "find P xs = Some (xs ! i)"
  using find_update_unique [of i xs P "xs ! i"] assms by simp

lemma find_SomeD: "find P xs = Some x \<Longrightarrow> x \<in> set xs \<and> P x"
  by (auto simp: find_Some_iff)

lemma find_eq_NoneI: "(\<And>j. j < length xs \<Longrightarrow> \<not> P (xs ! j)) \<Longrightarrow> find P xs = None"
  by (auto simp: find_None_iff in_set_conv_nth)

lemma count_list_update:
  "i < length xs \<Longrightarrow> count_list (xs[i := y]) a + (if xs ! i = a then 1 else 0) =
     count_list xs a + (if y = a then 1 else 0)"
proof (induction xs arbitrary: i)
  case (Cons x xs)
  show ?case
  proof (cases i)
    case (Suc k)
    then show ?thesis using Cons.IH [of k] Cons.prems by auto
  qed auto
qed simp

section \<open>UTF-8\<close>

text \<open>
  \<open>core::str::from_utf8\<close>: the byte sequences that are well-formed UTF-8.  For a leading
  byte above 127, \<open>utf8_tail\<close> gives the range of the second byte and the number of
  continuation bytes after it.
\<close>

definition utf8_cont :: "u8 \<Rightarrow> bool" where
  "utf8_cont b \<longleftrightarrow> 0x80 \<le> b \<and> b \<le> 0xBF"

definition utf8_tail :: "u8 \<Rightarrow> (u8 \<times> u8 \<times> nat) option" where
  "utf8_tail b =
    (if 0xC2 \<le> b \<and> b \<le> 0xDF then Some (0x80, 0xBF, 0)
     else if b = 0xE0 then Some (0xA0, 0xBF, 1)
     else if b = 0xED then Some (0x80, 0x9F, 1)
     else if 0xE1 \<le> b \<and> b \<le> 0xEF then Some (0x80, 0xBF, 1)
     else if b = 0xF0 then Some (0x90, 0xBF, 2)
     else if 0xF1 \<le> b \<and> b \<le> 0xF3 then Some (0x80, 0xBF, 2)
     else if b = 0xF4 then Some (0x80, 0x8F, 2)
     else None)"

function utf8_valid :: "u8 list \<Rightarrow> bool" where
  "utf8_valid [] = True"
| "utf8_valid (b # bs) =
    (if b < 0x80 then utf8_valid bs
     else (case utf8_tail b of
        None \<Rightarrow> False
      | Some (lo, hi, n) \<Rightarrow>
          (case bs of
             [] \<Rightarrow> False
           | c # cs \<Rightarrow>
               lo \<le> c \<and> c \<le> hi \<and> n \<le> length cs \<and> list_all utf8_cont (take n cs) \<and> utf8_valid (drop n cs))))"
  by pat_completeness auto
termination
  by (relation "measure length") auto

definition from_utf8 :: "u8 list \<Rightarrow> u8 list option" where
  "from_utf8 bs = (if utf8_valid bs then Some bs else None)"

lemma utf8_valid_ascii: "\<forall>b\<in>set bs. b < 0x80 \<Longrightarrow> utf8_valid bs"
  by (induction bs) auto

section \<open>Encodings with a decoder\<close>

text \<open>
  The contract of a register encoding: on the well-formed values, the decoder
  returns the encoded value.  The lemmas are what a caller on the other side of
  the syscall boundary relies on.
\<close>

locale codec =
  fixes wf :: "'a \<Rightarrow> bool"
    and enc :: "'a \<Rightarrow> 'w"
    and dec :: "'w \<Rightarrow> ('e, 'a) outcome"
  assumes dec_enc: "wf a \<Longrightarrow> dec (enc a) = Ok a"
begin

lemma enc_inject: "wf a \<Longrightarrow> wf b \<Longrightarrow> enc a = enc b \<longleftrightarrow> a = b"
  using dec_enc by (metis outcome.inject(1))

lemma dec_unique: "wf a \<Longrightarrow> wf b \<Longrightarrow> dec (enc a) = Ok b \<Longrightarrow> a = b"
  using dec_enc by simp

lemma dec_no_panic: "wf a \<Longrightarrow> dec (enc a) \<noteq> Panic"
  using dec_enc by simp

end

end
