(* ===== verification/Xous_Defs.thy ===== *)
theory Xous_Defs
  imports Kernel_Prelude
begin

text \<open>
  The ABI vocabulary of \<open>xous-rs/src/definitions.rs\<close> and
  \<open>definitions/memoryflags.rs\<close>: process ids, error codes, server ids, application
  ids, memory ranges and flags, and the small enumerations with their
  conversions from register values.  The lemmas show that each encoding is
  inverted by the matching decoder and that \<open>subrange\<close> stays inside its range.
\<close>

section \<open>Identifiers and memory ranges\<close>

type_synonym pid = "8 nonzero"
type_synonym memory_address = "64 nonzero"
type_synonym memory_size = "64 nonzero"
type_synonym cid = u32

datatype sid = SID u32 u32 u32 u32

record memory_range =
  mr_addr :: memory_address
  mr_size :: memory_size

datatype error =
    NoError | BadAlignment | BadAddress | OutOfMemory | MemoryInUse
  | InterruptNotFound | InterruptInUse | InvalidString | ServerExists | ServerNotFound
  | ProcessNotFound | ProcessNotChild | ProcessTerminated | Timeout | InternalError
  | ServerQueueFull | ThreadNotAvailable | UnhandledSyscall | InvalidSyscall | ShareViolation
  | InvalidThread | InvalidPID | UnknownError | AccessDenied | Again
  | DoubleFree | DebugInProgress | InvalidLimit | ParseError | InvalidPhysicalAddress
  | InvalidArguments

type_synonym 'a kresult = "(error, 'a) outcome"

definition error_from_usize :: "usize \<Rightarrow> error" where
  "error_from_usize arg =
    (if arg = 0 then NoError else if arg = 1 then BadAlignment
     else if arg = 2 then BadAddress else if arg = 3 then OutOfMemory
     else if arg = 4 then MemoryInUse else if arg = 5 then InterruptNotFound
     else if arg = 6 then InterruptInUse else if arg = 7 then InvalidString
     else if arg = 8 then ServerExists else if arg = 9 then ServerNotFound
     else if arg = 10 then ProcessNotFound else if arg = 11 then ProcessNotChild
     else if arg = 12 then ProcessTerminated else if arg = 13 then Timeout
     else if arg = 14 then InternalError else if arg = 15 then ServerQueueFull
     else if arg = 16 then ThreadNotAvailable else if arg = 17 then UnhandledSyscall
     else if arg = 18 then InvalidSyscall else if arg = 19 then ShareViolation
     else if arg = 20 then InvalidThread else if arg = 21 then InvalidPID
     else if arg = 23 then AccessDenied else if arg = 24 then Again
     else if arg = 25 then DoubleFree else if arg = 26 then DebugInProgress
     else if arg = 27 then InvalidLimit else if arg = 28 then ParseError
     else if arg = 29 then InvalidPhysicalAddress else if arg = 30 then InvalidArguments
     else UnknownError)"

text \<open>\<open>error_as_usize\<close> is the discriminant read by the cast \<open>*self as usize\<close>.\<close>

fun error_as_usize :: "error \<Rightarrow> usize" where
  "error_as_usize NoError = 0"
| "error_as_usize BadAlignment = 1"
| "error_as_usize BadAddress = 2"
| "error_as_usize OutOfMemory = 3"
| "error_as_usize MemoryInUse = 4"
| "error_as_usize InterruptNotFound = 5"
| "error_as_usize InterruptInUse = 6"
| "error_as_usize InvalidString = 7"
| "error_as_usize ServerExists = 8"
| "error_as_usize ServerNotFound = 9"
| "error_as_usize ProcessNotFound = 10"
| "error_as_usize ProcessNotChild = 11"
| "error_as_usize ProcessTerminated = 12"
| "error_as_usize Timeout = 13"
| "error_as_usize InternalError = 14"
| "error_as_usize ServerQueueFull = 15"
| "error_as_usize ThreadNotAvailable = 16"
| "error_as_usize UnhandledSyscall = 17"
| "error_as_usize InvalidSyscall = 18"
| "error_as_usize ShareViolation = 19"
| "error_as_usize InvalidThread = 20"
| "error_as_usize InvalidPID = 21"
| "error_as_usize UnknownError = 22"
| "error_as_usize AccessDenied = 23"
| "error_as_usize Again = 24"
| "error_as_usize DoubleFree = 25"
| "error_as_usize DebugInProgress = 26"
| "error_as_usize InvalidLimit = 27"
| "error_as_usize ParseError = 28"
| "error_as_usize InvalidPhysicalAddress = 29"
| "error_as_usize InvalidArguments = 30"

definition error_to_usize :: "error \<Rightarrow> usize" where
  "error_to_usize e = (if e = UnknownError then - 1 else error_as_usize e)"

text \<open>\<open>usize::MAX\<close> is \<open>- 1\<close>, the word with all bits set.\<close>

definition pid_from_usize :: "usize \<Rightarrow> pid kresult" where
  "pid_from_usize src =
    (if src > 255 then Err InvalidPID else ok_or (nz_new (ucast src)) InvalidPID)"

definition memory_range_new :: "usize \<Rightarrow> usize \<Rightarrow> memory_range kresult" where
  "memory_range_new addr sz =
    obind (ok_or (nz_new addr) BadAddress) (\<lambda>a.
    obind (ok_or (nz_new sz) BadAddress) (\<lambda>s.
    Ok \<lparr>mr_addr = a, mr_size = s\<rparr>))"

definition memory_range_len :: "memory_range \<Rightarrow> usize" where
  "memory_range_len r = nz_get (mr_size r)"

definition memory_range_is_empty :: "memory_range \<Rightarrow> bool" where
  "memory_range_is_empty r \<longleftrightarrow> nz_get (mr_size r) > 0"

definition as_ptr :: "memory_range \<Rightarrow> usize" where
  "as_ptr r = nz_get (mr_addr r)"

text \<open>\<open>usize::checked_add\<close>: \<open>None\<close> when the sum does not fit.\<close>

definition checked_add :: "usize \<Rightarrow> usize \<Rightarrow> usize option" where
  "checked_add a b = (if unat a + unat b < 2 ^ 64 then Some (a + b) else None)"

definition subrange :: "memory_range \<Rightarrow> usize \<Rightarrow> usize \<Rightarrow> memory_range option" where
  "subrange r offset len =
    (case checked_add offset len of None \<Rightarrow> None | Some e \<Rightarrow>
      if e > nz_get (mr_size r) then None
      else (case checked_add (nz_get (mr_addr r)) offset of None \<Rightarrow> None | Some a \<Rightarrow>
        (case nz_new a of None \<Rightarrow> None | Some a' \<Rightarrow>
          (case nz_new len of None \<Rightarrow> None | Some s \<Rightarrow> Some \<lparr>mr_addr = a', mr_size = s\<rparr>))))"

section \<open>Byte views of server and application ids\<close>

fun u32_from_le_bytes :: "u8 list \<Rightarrow> u32" where
  "u32_from_le_bytes [] = 0"
| "u32_from_le_bytes (b # bs) = ucast b OR push_bit 8 (u32_from_le_bytes bs)"

definition u32_to_le_bytes :: "u32 \<Rightarrow> u8 list" where
  "u32_to_le_bytes w = [ucast w, ucast (drop_bit 8 w), ucast (drop_bit 16 w), ucast (drop_bit 24 w)]"

text \<open>
  \<open>chunks_exact(4)\<close> yields the successive groups of four bytes and drops a shorter
  remainder; the groups fill the words of the id from the left, the others stay 0.
\<close>

fun chunks_exact4 :: "u8 list \<Rightarrow> u8 list list" where
  "chunks_exact4 (a # b # c # d # bs) = [a, b, c, d] # chunks_exact4 bs"
| "chunks_exact4 _ = []"

definition sid_from_bytes :: "u8 list \<Rightarrow> sid option" where
  "sid_from_bytes b =
    (if length b > 16 then None
     else (case map u32_from_le_bytes (chunks_exact4 b) of
        [] \<Rightarrow> Some (SID 0 0 0 0)
      | [x] \<Rightarrow> Some (SID x 0 0 0)
      | [x, y] \<Rightarrow> Some (SID x y 0 0)
      | [x, y, z] \<Rightarrow> Some (SID x y z 0)
      | x # y # z # w # _ \<Rightarrow> Some (SID x y z w)))"

fun sid_to_bytes :: "sid \<Rightarrow> u8 list" where
  "sid_to_bytes (SID a b c d) =
    u32_to_le_bytes a @ u32_to_le_bytes b @ u32_to_le_bytes c @ u32_to_le_bytes d"

fun quick_hash :: "sid \<Rightarrow> u32" where
  "quick_hash (SID a b c d) = a XOR b XOR c XOR d"

datatype app_id = AppId "u8 list"

definition APP_ID_SIZE :: nat where
  "APP_ID_SIZE = 16"

fun app_id_wf :: "app_id \<Rightarrow> bool" where
  "app_id_wf (AppId bs) \<longleftrightarrow> length bs = APP_ID_SIZE"

definition app_id_truncate :: "u8 list \<Rightarrow> app_id" where
  "app_id_truncate bytes =
    AppId (take APP_ID_SIZE bytes @ replicate (APP_ID_SIZE - length bytes) 0)"

fun app_id_to_words :: "app_id \<Rightarrow> u32 \<times> u32 \<times> u32 \<times> u32" where
  "app_id_to_words (AppId bs) =
    (u32_from_le_bytes (take 4 bs),
     u32_from_le_bytes (take 4 (drop 4 bs)),
     u32_from_le_bytes (take 4 (drop 8 bs)),
     u32_from_le_bytes (take 4 (drop 12 bs)))"

definition app_id_from_words :: "u32 \<Rightarrow> u32 \<Rightarrow> u32 \<Rightarrow> u32 \<Rightarrow> app_id" where
  "app_id_from_words a b c d =
    AppId (u32_to_le_bytes a @ u32_to_le_bytes b @ u32_to_le_bytes c @ u32_to_le_bytes d)"

section \<open>Memory flags\<close>

record memory_flags =
  flag_bits :: usize

definition FLAGS_ALL :: usize where "FLAGS_ALL = 0x7D"

definition FLAG_POPULATE :: memory_flags where "FLAG_POPULATE = \<lparr>flag_bits = 0x01\<rparr>"
definition FLAG_W :: memory_flags where "FLAG_W = \<lparr>flag_bits = 0x04\<rparr>"
definition FLAG_X :: memory_flags where "FLAG_X = \<lparr>flag_bits = 0x08\<rparr>"
definition FLAG_DEV :: memory_flags where "FLAG_DEV = \<lparr>flag_bits = 0x10\<rparr>"
definition FLAG_NO_CACHE :: memory_flags where "FLAG_NO_CACHE = \<lparr>flag_bits = 0x20\<rparr>"
definition FLAG_PLAINTEXT :: memory_flags where "FLAG_PLAINTEXT = \<lparr>flag_bits = 0x40\<rparr>"

definition flags_from_bits :: "usize \<Rightarrow> memory_flags" where
  "flags_from_bits raw = \<lparr>flag_bits = raw AND FLAGS_ALL\<rparr>"

definition flags_is_empty :: "memory_flags \<Rightarrow> bool" where
  "flags_is_empty f \<longleftrightarrow> flag_bits f = 0"

definition flags_empty :: memory_flags where
  "flags_empty = \<lparr>flag_bits = 0\<rparr>"

definition flags_or :: "memory_flags \<Rightarrow> memory_flags \<Rightarrow> memory_flags" where
  "flags_or f g = \<lparr>flag_bits = flag_bits f OR flag_bits g\<rparr>"

definition flags_xor :: "memory_flags \<Rightarrow> memory_flags \<Rightarrow> memory_flags" where
  "flags_xor f g = \<lparr>flag_bits = flag_bits f XOR flag_bits g\<rparr>"

definition flags_and :: "memory_flags \<Rightarrow> memory_flags \<Rightarrow> memory_flags" where
  "flags_and f g = \<lparr>flag_bits = flag_bits f AND flag_bits g\<rparr>"

definition flags_sub :: "memory_flags \<Rightarrow> memory_flags \<Rightarrow> memory_flags" where
  "flags_sub f g = \<lparr>flag_bits = flag_bits f AND NOT (flag_bits g)\<rparr>"

definition flags_not :: "memory_flags \<Rightarrow> memory_flags" where
  "flags_not f = flags_and \<lparr>flag_bits = NOT (flag_bits f)\<rparr> \<lparr>flag_bits = 15\<rparr>"

definition flags_is_set :: "memory_flags \<Rightarrow> memory_flags \<Rightarrow> bool" where
  "flags_is_set f m \<longleftrightarrow> flags_and f m = m"

section \<open>Small enumerations and their decoders\<close>

datatype cache_operation = Clean | Invalidate | CleanAndInvalidate

fun cache_operation_as_usize :: "cache_operation \<Rightarrow> usize" where
  "cache_operation_as_usize Clean = 0"
| "cache_operation_as_usize Invalidate = 1"
| "cache_operation_as_usize CleanAndInvalidate = 2"

definition cache_operation_from :: "usize \<Rightarrow> cache_operation" where
  "cache_operation_from v =
    (if v = 0 then Clean else if v = 1 then Invalidate else CleanAndInvalidate)"

datatype dram_idle_mode = KeepClocked | LowPower

fun dram_idle_mode_as_usize :: "dram_idle_mode \<Rightarrow> usize" where
  "dram_idle_mode_as_usize KeepClocked = 0"
| "dram_idle_mode_as_usize LowPower = 1"

definition dram_idle_mode_from :: "usize \<Rightarrow> dram_idle_mode" where
  "dram_idle_mode_from v = (if v = 1 then LowPower else KeepClocked)"

datatype system_event = ChildTerminated | Disconnected | LowFreeMemory

fun system_event_as_usize :: "system_event \<Rightarrow> usize" where
  "system_event_as_usize ChildTerminated = 0"
| "system_event_as_usize Disconnected = 1"
| "system_event_as_usize LowFreeMemory = 2"

definition system_event_from :: "usize \<Rightarrow> system_event" where
  "system_event_from v =
    (if v = 1 then Disconnected else if v = 2 then LowFreeMemory else ChildTerminated)"

definition NUM_SYSTEM_EVENTS :: nat where "NUM_SYSTEM_EVENTS = 3"

datatype system_stat = FreeMemory | IsSystemLowOnMemory

fun system_stat_as_usize :: "system_stat \<Rightarrow> usize" where
  "system_stat_as_usize FreeMemory = 0"
| "system_stat_as_usize IsSystemLowOnMemory = 1"

definition system_stat_from :: "usize \<Rightarrow> system_stat" where
  "system_stat_from v = (if v = 1 then IsSystemLowOnMemory else FreeMemory)"

datatype thread_priority =
    Idle | AppBackground0 | AppBackground1 | AppDefault | AppHigh0 | AppHigh1
  | System0 | System1 | System2 | System3 | System4 | System5 | System6 | System7 | System8
  | Highest

fun priority_index :: "thread_priority \<Rightarrow> nat" where
  "priority_index Idle = 0"
| "priority_index AppBackground0 = 1"
| "priority_index AppBackground1 = 2"
| "priority_index AppDefault = 3"
| "priority_index AppHigh0 = 4"
| "priority_index AppHigh1 = 5"
| "priority_index System0 = 6"
| "priority_index System1 = 7"
| "priority_index System2 = 8"
| "priority_index System3 = 9"
| "priority_index System4 = 10"
| "priority_index System5 = 11"
| "priority_index System6 = 12"
| "priority_index System7 = 13"
| "priority_index System8 = 14"
| "priority_index Highest = 15"

definition thread_priority_from :: "usize \<Rightarrow> thread_priority" where
  "thread_priority_from v =
    (if v = 0 then Idle else if v = 1 then AppBackground0 else if v = 2 then AppBackground1
     else if v = 3 then AppDefault else if v = 4 then AppHigh0 else if v = 5 then AppHigh1
     else if v = 6 then System0 else if v = 7 then System1 else if v = 8 then System2
     else if v = 9 then System3 else if v = 10 then System4 else if v = 11 then System5
     else if v = 12 then System6 else if v = 13 then System7 else if v = 14 then System8
     else if v = 15 then Highest else AppDefault)"

text \<open>The derived order of \<open>ThreadPriority\<close> is the order of the discriminants.\<close>

lemma priority_index_inject [simp]: "priority_index p = priority_index q \<longleftrightarrow> p = q"
  by (cases p; cases q) simp_all

instantiation thread_priority :: linorder
begin

definition less_eq_thread_priority :: "thread_priority \<Rightarrow> thread_priority \<Rightarrow> bool" where
  "less_eq_thread_priority p q \<longleftrightarrow> priority_index p \<le> priority_index q"

definition less_thread_priority :: "thread_priority \<Rightarrow> thread_priority \<Rightarrow> bool" where
  "less_thread_priority p q \<longleftrightarrow> priority_index p < priority_index q"

instance
  by standard (auto simp: less_eq_thread_priority_def less_thread_priority_def)

end

lemma priority_index_less [simp]: "priority_index p < 16"
  by (cases p) simp_all

section \<open>Round trips\<close>

lemma error_from_to_usize [simp, codec_simps]: "error_from_usize (error_to_usize e) = e"
  by (cases e) (simp_all add: error_to_usize_def error_from_usize_def)

lemma cache_operation_from_as [simp, codec_simps]:
  "cache_operation_from (cache_operation_as_usize c) = c"
  by (cases c) (simp_all add: cache_operation_from_def)

lemma dram_idle_mode_from_as [simp, codec_simps]:
  "dram_idle_mode_from (dram_idle_mode_as_usize d) = d"
  by (cases d) (simp_all add: dram_idle_mode_from_def)

lemma system_event_from_as [simp, codec_simps]:
  "system_event_from (system_event_as_usize e) = e"
  by (cases e) (simp_all add: system_event_from_def)

lemma system_stat_from_as [simp, codec_simps]:
  "system_stat_from (system_stat_as_usize s) = s"
  by (cases s) (simp_all add: system_stat_from_def)

lemma thread_priority_from_as [simp, codec_simps]:
  "thread_priority_from (of_nat (priority_index p)) = p"
  by (cases p) (simp_all add: thread_priority_from_def)

lemma ucast_ucast_up [simp, codec_simps]:
  "ucast (ucast (x :: u32) :: usize) = x"
  "ucast (ucast (y :: u8) :: usize) = y"
  by (rule bit_word_eqI; simp add: bit_simps)+

lemma unat_ucast_up [simp]:
  "unat (ucast (y :: u8) :: usize) = unat y"
  "unat (ucast (x :: u32) :: usize) = unat x"
  using unat_bound [of y] unat_bound [of x]
  by (simp_all add: unsigned_ucast_eq take_bit_nat_eq_self)

lemma pid_from_usize_get [simp, codec_simps]: "pid_from_usize (ucast (nz_get p)) = Ok p"
proof -
  have "unat (nz_get p) < 2 ^ 8"
    using unat_bound [of "nz_get p"] by simp
  then have "\<not> (ucast (nz_get p) :: usize) > 255"
    by (simp add: word_less_nat_alt)
  then show ?thesis by (simp add: pid_from_usize_def)
qed

lemma memory_range_new_get [simp, codec_simps]:
  "memory_range_new (nz_get (mr_addr r)) (nz_get (mr_size r)) = Ok r"
  by (simp add: memory_range_new_def)

lemma checked_add_eq_Some:
  "checked_add a b = Some c \<longleftrightarrow> c = a + b \<and> unat c = unat a + unat b"
  using unat_bound [of c] by (auto simp: checked_add_def unat_word_ariths)

text \<open>
  \<open>MemoryRange::subrange\<close> returns a range exactly when the requested
  part is not empty, lies inside the range and its start does not overflow the
  address space; the result then has the requested start and length.
\<close>

theorem subrange_within:
  "subrange r offset len = Some r' \<longleftrightarrow>
     len \<noteq> 0 \<and> unat offset + unat len \<le> unat (memory_range_len r) \<and>
     unat (as_ptr r) + unat offset < 2 ^ 64 \<and>
     as_ptr r' = as_ptr r + offset \<and> memory_range_len r' = len"
  (is "?lhs \<longleftrightarrow> ?rhs")
proof
  assume ?lhs
  then show ?rhs
    using unat_bound [of "as_ptr r + offset"]
    by (auto simp: subrange_def checked_add_eq_Some memory_range_len_def as_ptr_def
        nz_new_eq_Some word_le_nat_alt not_less split: option.splits if_splits)
next
  assume r: ?rhs
  have "unat offset + unat len < 2 ^ 64"
    using r unat_bound [of "memory_range_len r"] by simp
  moreover have "unat (as_ptr r + offset) = unat (as_ptr r) + unat offset"
    using r by (simp add: unat_word_ariths)
  moreover have "unat (as_ptr r) \<noteq> 0"
    by (simp add: as_ptr_def unat_eq_0)
  moreover have "mr_addr r' = nz_lit (nz_get (mr_addr r) + offset)"
    using r by (metis as_ptr_def nz_lit_get)
  ultimately show ?lhs
    using r by (auto simp: subrange_def checked_add_def memory_range_len_def as_ptr_def
        nz_new_def word_le_nat_alt not_less unat_word_ariths nz_lit_get)
qed

lemma u32_from_to_le_bytes [simp, codec_simps]: "u32_from_le_bytes (u32_to_le_bytes w) = w"
proof (rule bit_word_eqI)
  fix n assume "n < LENGTH(32)"
  then consider "n < 8" | "8 \<le> n" "n < 16" | "16 \<le> n" "n < 24" | "24 \<le> n" "n < 32"
    by fastforce
  then show "bit (u32_from_le_bytes (u32_to_le_bytes w)) n = bit w n"
    by cases (auto simp: u32_to_le_bytes_def bit_simps)
qed

lemma u32_to_from_le_bytes [simp]:
  "u32_to_le_bytes (u32_from_le_bytes [a, b, c, d]) = [a, b, c, d]"
  by (auto simp: u32_to_le_bytes_def bit_simps intro!: bit_word_eqI)

lemma u32_to_from_le_bytes_length [simp]:
  "length bs = 4 \<Longrightarrow> u32_to_le_bytes (u32_from_le_bytes bs) = bs"
  by (auto simp: numeral_eq_Suc length_Suc_conv simp del: u32_from_le_bytes.simps)

lemma length_u32_to_le_bytes [simp]: "length (u32_to_le_bytes w) = 4"
  by (simp add: u32_to_le_bytes_def)

lemma chunks_exact4_le_bytes [simp]:
  "chunks_exact4 (u32_to_le_bytes w @ bs) = u32_to_le_bytes w # chunks_exact4 bs"
  by (simp add: u32_to_le_bytes_def)

lemma sid_from_to_bytes: "sid_from_bytes (sid_to_bytes s) = Some s"
  using chunks_exact4_le_bytes [of _ "[]"]
  by (cases s) (simp add: sid_from_bytes_def)

lemma app_id_from_to_words [codec_simps]:
  assumes "app_id_wf a" "app_id_to_words a = (x, y, z, w)"
  shows "app_id_from_words x y z w = a"
proof -
  obtain bs where a: "a = AppId bs" by (cases a)
  have split: "bs = take 4 bs @ take 4 (drop 4 bs) @ take 4 (drop 8 bs) @ take 4 (drop 12 bs)"
    using assms(1) a append_take_drop_id [of 4 bs] append_take_drop_id [of 4 "drop 4 bs"]
      append_take_drop_id [of 4 "drop 8 bs"]
    by (simp add: APP_ID_SIZE_def)
  show ?thesis
    using assms a split by (auto simp: app_id_from_words_def APP_ID_SIZE_def)
qed

lemma app_id_to_from_words [simp, codec_simps]:
  "app_id_to_words (app_id_from_words x y z w) = (x, y, z, w)"
  by (simp add: app_id_from_words_def)

end
