(* ===== verification/Messages.thy ===== *)
theory Messages
  imports Xous_Defs
begin

text \<open>
  Messages and their register encodings: \<open>definitions/messages/mod.rs\<close>,
  \<open>messages/sender.rs\<close>, \<open>messages/envelope.rs\<close>, and the initialisation records of
  \<open>arch/aarch64/threading.rs\<close> and \<open>arch/aarch64/process.rs\<close> (all under
  \<open>xous/xous-rs/src\<close>).  The wire has two different tag sets for a message: \<open>to_usize\<close>
  numbers the kinds from 0 (kernel to server), \<open>message_type\<close> from 1 (client to
  kernel); the lemmas give the round trip of each with its own decoder.
\<close>

section \<open>Memory and scalar messages\<close>

record memory_message =
  mm_id :: usize
  mm_buf :: memory_range
  mm_offset :: "memory_address option"
  mm_valid :: "memory_size option"

definition opt_get :: "64 nonzero option \<Rightarrow> usize" where
  "opt_get x = (case x of None \<Rightarrow> 0 | Some v \<Rightarrow> nz_get v)"

definition memory_message_from_usize ::
  "usize \<Rightarrow> usize \<Rightarrow> usize \<Rightarrow> usize \<Rightarrow> usize \<Rightarrow> memory_message option" where
  "memory_message_from_usize i addr sz offset valid =
    (case nz_new addr of None \<Rightarrow> None | Some a \<Rightarrow>
      (case nz_new sz of None \<Rightarrow> None | Some s \<Rightarrow>
        Some \<lparr>mm_id = i, mm_buf = \<lparr>mr_addr = a, mr_size = s\<rparr>,
              mm_offset = nz_new offset, mm_valid = nz_new valid\<rparr>))"

definition memory_message_to_usize :: "memory_message \<Rightarrow> usize list" where
  "memory_message_to_usize m =
    [mm_id m, nz_get (mr_addr (mm_buf m)), nz_get (mr_size (mm_buf m)),
     opt_get (mm_offset m), opt_get (mm_valid m)]"

record scalar_message =
  sm_id :: usize
  sm_arg1 :: usize
  sm_arg2 :: usize
  sm_arg3 :: usize
  sm_arg4 :: usize

definition scalar_message_from_usize ::
  "usize \<Rightarrow> usize \<Rightarrow> usize \<Rightarrow> usize \<Rightarrow> usize \<Rightarrow> scalar_message" where
  "scalar_message_from_usize i a1 a2 a3 a4 =
    \<lparr>sm_id = i, sm_arg1 = a1, sm_arg2 = a2, sm_arg3 = a3, sm_arg4 = a4\<rparr>"

definition scalar_message_to_usize :: "scalar_message \<Rightarrow> usize list" where
  "scalar_message_to_usize m = [sm_id m, sm_arg1 m, sm_arg2 m, sm_arg3 m, sm_arg4 m]"

datatype message =
    MutableBorrow memory_message
  | Borrow memory_message
  | Move memory_message
  | Scalar scalar_message
  | BlockingScalar scalar_message

fun is_blocking :: "message \<Rightarrow> bool" where
  "is_blocking (MutableBorrow _) = True"
| "is_blocking (Borrow _) = True"
| "is_blocking (BlockingScalar _) = True"
| "is_blocking (Move _) = False"
| "is_blocking (Scalar _) = False"

fun msg_memory_message :: "message \<Rightarrow> memory_message option" where
  "msg_memory_message (MutableBorrow m) = Some m"
| "msg_memory_message (Borrow m) = Some m"
| "msg_memory_message (Move m) = Some m"
| "msg_memory_message (BlockingScalar _) = None"
| "msg_memory_message (Scalar _) = None"

fun has_memory :: "message \<Rightarrow> bool" where
  "has_memory (MutableBorrow _) = True"
| "has_memory (Borrow _) = True"
| "has_memory (Move _) = True"
| "has_memory (BlockingScalar _) = False"
| "has_memory (Scalar _) = False"

definition is_scalar :: "message \<Rightarrow> bool" where
  "is_scalar m \<longleftrightarrow> \<not> has_memory m"

definition message_memory :: "message \<Rightarrow> memory_range option" where
  "message_memory m = map_option mm_buf (msg_memory_message m)"

fun msg_memory_message_mut :: "message \<Rightarrow> memory_message option" where
  "msg_memory_message_mut (MutableBorrow m) = Some m"
| "msg_memory_message_mut (Move m) = Some m"
| "msg_memory_message_mut _ = None"

fun msg_scalar_message :: "message \<Rightarrow> scalar_message option" where
  "msg_scalar_message (BlockingScalar s) = Some s"
| "msg_scalar_message (Scalar s) = Some s"
| "msg_scalar_message _ = None"

fun msg_scalar_message_mut :: "message \<Rightarrow> scalar_message option" where
  "msg_scalar_message_mut (BlockingScalar s) = Some s"
| "msg_scalar_message_mut _ = None"

fun message_type :: "message \<Rightarrow> usize" where
  "message_type (MutableBorrow _) = 1"
| "message_type (Borrow _) = 2"
| "message_type (Move _) = 3"
| "message_type (Scalar _) = 4"
| "message_type (BlockingScalar _) = 5"

fun message_id :: "message \<Rightarrow> usize" where
  "message_id (MutableBorrow m) = mm_id m"
| "message_id (Borrow m) = mm_id m"
| "message_id (Move m) = mm_id m"
| "message_id (Scalar s) = sm_id s"
| "message_id (BlockingScalar s) = sm_id s"

fun message_set_id :: "usize \<Rightarrow> message \<Rightarrow> message" where
  "message_set_id i (MutableBorrow m) = MutableBorrow (m\<lparr>mm_id := i\<rparr>)"
| "message_set_id i (Borrow m) = Borrow (m\<lparr>mm_id := i\<rparr>)"
| "message_set_id i (Move m) = Move (m\<lparr>mm_id := i\<rparr>)"
| "message_set_id i (Scalar s) = Scalar (s\<lparr>sm_id := i\<rparr>)"
| "message_set_id i (BlockingScalar s) = BlockingScalar (s\<lparr>sm_id := i\<rparr>)"

fun message_to_usize :: "message \<Rightarrow> usize list" where
  "message_to_usize (MutableBorrow m) = 0 # memory_message_to_usize m"
| "message_to_usize (Borrow m) = 1 # memory_message_to_usize m"
| "message_to_usize (Move m) = 2 # memory_message_to_usize m"
| "message_to_usize (Scalar m) = 3 # scalar_message_to_usize m"
| "message_to_usize (BlockingScalar m) = 4 # scalar_message_to_usize m"

text \<open>\<open>Message::try_from\<close> on the six registers of a send call; \<open>None\<close> is \<open>Err(())\<close>.\<close>

definition message_try_from ::
  "usize \<Rightarrow> usize \<Rightarrow> usize \<Rightarrow> usize \<Rightarrow> usize \<Rightarrow> usize \<Rightarrow> message option" where
  "message_try_from v0 v1 v2 v3 v4 v5 =
    (let mem = (case memory_range_new v2 v3 of
           Ok r \<Rightarrow> Some \<lparr>mm_id = v1, mm_buf = r, mm_offset = nz_new v4, mm_valid = nz_new v5\<rparr>
         | _ \<Rightarrow> None);
         scalar = \<lparr>sm_id = v1, sm_arg1 = v2, sm_arg2 = v3, sm_arg3 = v4, sm_arg4 = v5\<rparr>
     in if v0 = 1 then map_option MutableBorrow mem
        else if v0 = 2 then map_option Borrow mem
        else if v0 = 3 then map_option Move mem
        else if v0 = 4 then Some (Scalar scalar)
        else if v0 = 5 then Some (BlockingScalar scalar)
        else None)"

section \<open>Senders and envelopes\<close>

record sender =
  sender_data :: usize

definition sender_to_usize :: "sender \<Rightarrow> usize" where
  "sender_to_usize s = sender_data s"

definition sender_from_usize :: "usize \<Rightarrow> sender" where
  "sender_from_usize d = \<lparr>sender_data = d\<rparr>"

definition sender_pid :: "sender \<Rightarrow> pid option" where
  "sender_pid s = nz_new (ucast (drop_bit 24 (sender_data s) AND 0xFF))"

record envelope =
  env_sender :: sender
  env_body :: message

definition envelope_to_usize :: "envelope \<Rightarrow> usize list" where
  "envelope_to_usize e = sender_to_usize (env_sender e) # message_to_usize (env_body e)"

section \<open>Thread and process initialisation records\<close>

record thread_init =
  ti_call :: usize
  ti_stack :: "memory_range option"
  ti_arg1 :: usize
  ti_arg2 :: usize
  ti_arg3 :: usize
  ti_arg4 :: usize

definition thread_to_args :: "usize \<Rightarrow> thread_init \<Rightarrow> usize list" where
  "thread_to_args call init =
    [call, ti_call init,
     (case ti_stack init of None \<Rightarrow> 0 | Some s \<Rightarrow> as_ptr s),
     (case ti_stack init of None \<Rightarrow> 0 | Some s \<Rightarrow> memory_range_len s),
     ti_arg1 init, ti_arg2 init, ti_arg3 init, ti_arg4 init]"

definition args_to_thread ::
  "usize \<Rightarrow> usize \<Rightarrow> usize \<Rightarrow> usize \<Rightarrow> usize \<Rightarrow> usize \<Rightarrow> usize \<Rightarrow> thread_init kresult" where
  "args_to_thread a1 a2 a3 a4 a5 a6 a7 =
    obind (if a2 \<noteq> 0 then obind (memory_range_new a2 a3) (\<lambda>r. Ok (Some r)) else Ok None) (\<lambda>st.
    Ok \<lparr>ti_call = a1, ti_stack = st, ti_arg1 = a4, ti_arg2 = a5, ti_arg3 = a6, ti_arg4 = a7\<rparr>)"

record process_init =
  pi_elf :: memory_range
  pi_name_addr :: memory_address
  pi_app_id :: app_id

definition process_init_to_args :: "process_init \<Rightarrow> usize list" where
  "process_init_to_args src =
    (case app_id_to_words (pi_app_id src) of (w0, w1, w2, w3) \<Rightarrow>
      [as_ptr (pi_elf src), memory_range_len (pi_elf src),
       ucast w0, ucast w1, ucast w2, ucast w3, nz_get (pi_name_addr src)])"

definition process_init_try_from ::
  "usize \<Rightarrow> usize \<Rightarrow> usize \<Rightarrow> usize \<Rightarrow> usize \<Rightarrow> usize \<Rightarrow> usize \<Rightarrow> process_init kresult" where
  "process_init_try_from s0 s1 s2 s3 s4 s5 s6 =
    obind (memory_range_new s0 s1) (\<lambda>elf.
    obind (ok_or (nz_new s6) BadAddress) (\<lambda>name.
    Ok \<lparr>pi_elf = elf, pi_name_addr = name,
        pi_app_id = app_id_from_words (ucast s2) (ucast s3) (ucast s4) (ucast s5)\<rparr>))"

record process_startup =
  ps_pid :: pid

definition process_startup_from_args :: "usize list \<Rightarrow> process_startup" where
  "process_startup_from_args src =
    \<lparr>ps_pid = (case nz_new (ucast (src ! 1)) of None \<Rightarrow> nz_lit 1 | Some p \<Rightarrow> p)\<rparr>"

definition process_startup_to_args :: "process_startup \<Rightarrow> usize list" where
  "process_startup_to_args p = [ucast (nz_get (ps_pid p)), 0, 0, 0, 0, 0, 0]"

section \<open>Round trips\<close>

lemma nz_new_opt_get [simp, codec_simps]: "nz_new (opt_get x) = x"
  by (cases x) (simp_all add: opt_get_def)

lemma memory_message_from_to [simp, codec_simps]:
  "memory_message_from_usize (mm_id m) (nz_get (mr_addr (mm_buf m))) (nz_get (mr_size (mm_buf m)))
     (opt_get (mm_offset m)) (opt_get (mm_valid m)) = Some m"
  by (simp add: memory_message_from_usize_def)

lemma scalar_message_from_to [simp, codec_simps]:
  "scalar_message_from_usize (sm_id m) (sm_arg1 m) (sm_arg2 m) (sm_arg3 m) (sm_arg4 m) = m"
  by (simp add: scalar_message_from_usize_def)

text \<open>The five payload registers of a message, in the order both encodings use.\<close>

definition message_args :: "message \<Rightarrow> usize list" where
  "message_args m = tl (message_to_usize m)"

lemma message_to_usize_length [simp]: "length (message_to_usize m) = 6"
  by (cases m) (simp_all add: memory_message_to_usize_def scalar_message_to_usize_def)

lemma message_try_from_args:
  assumes "message_args m = [a, b, c, d, e]"
  shows "message_try_from (message_type m) a b c d e = Some m"
  using assms
  by (cases m) (auto simp: message_args_def message_try_from_def memory_message_to_usize_def
      scalar_message_to_usize_def)

lemma args_to_thread_to_args [codec_simps]:
  assumes "thread_to_args c init = [a0, a1, a2, a3, a4, a5, a6, a7]"
  shows "args_to_thread a1 a2 a3 a4 a5 a6 a7 = Ok init"
  using assms
  by (auto simp: thread_to_args_def args_to_thread_def as_ptr_def memory_range_len_def
      split: option.splits)

lemma process_init_try_from_to_args [codec_simps]:
  assumes "app_id_wf (pi_app_id p)"
    and "process_init_to_args p = [a1, a2, a3, a4, a5, a6, a7]"
  shows "process_init_try_from a1 a2 a3 a4 a5 a6 a7 = Ok p"
  using assms app_id_from_to_words
  by (auto simp: process_init_to_args_def process_init_try_from_def as_ptr_def
      memory_range_len_def split: prod.splits)

end
