(* ===== verification/Result_Codec.thy ===== *)
theory Result_Codec
  imports Messages
begin

text \<open>
  The kernel's reply to a system call, \<open>Result\<close> of
  \<open>xous/xous-rs/src/definitions.rs\<close>, and its encoding in eight registers
  (\<open>to_args\<close>, \<open>from_args\<close>).  The lemmas give the round trip for every reply but
  two, and say what happens to those two.
\<close>

section \<open>Replies and their encoding\<close>

datatype xous_result =
    RespOk
  | RespError error
  | RespMemoryAddress memory_address
  | RespMemoryRange memory_range
  | ReadyThreads usize usize usize usize usize usize usize
  | ResumeProcess
  | ServerID sid
  | ConnectionID cid
  | NewServerID sid
  | RespMessageEnvelope envelope
  | ThreadID usize
  | ProcessID pid
  | Unimplemented
  | BlockedProcess
  | Scalar1 usize
  | Scalar2 usize usize
  | RetryCall
  | RespNone
  | MemoryReturned "memory_size option" "memory_size option"
  | NewProcess process_startup
  | Scalar5 usize usize usize usize usize
  | RespMessage message
  | UnknownResult usize usize usize usize usize usize usize

fun add_opcode :: "usize \<Rightarrow> usize list \<Rightarrow> usize list" where
  "add_opcode opcode args = opcode # take 7 args"

fun to_args :: "xous_result \<Rightarrow> usize list" where
  "to_args RespOk = [0, 0, 0, 0, 0, 0, 0, 0]"
| "to_args (RespError e) = [1, error_to_usize e, 0, 0, 0, 0, 0, 0]"
| "to_args (RespMemoryAddress s) = [2, nz_get s, 0, 0, 0, 0, 0, 0]"
| "to_args (RespMemoryRange r) = [3, nz_get (mr_addr r), nz_get (mr_size r), 0, 0, 0, 0, 0]"
| "to_args (ReadyThreads count pid0 ctx0 pid1 ctx1 pid2 ctx2) =
     [4, count, pid0, ctx0, pid1, ctx1, pid2, ctx2]"
| "to_args ResumeProcess = [5, 0, 0, 0, 0, 0, 0, 0]"
| "to_args (ServerID (SID a b c d)) = [6, ucast a, ucast b, ucast c, ucast d, 0, 0, 0]"
| "to_args (ConnectionID cid) = [7, ucast cid, 0, 0, 0, 0, 0, 0]"
| "to_args (RespMessageEnvelope me) = 9 # envelope_to_usize me"
| "to_args (ThreadID ctx) = [10, ctx, 0, 0, 0, 0, 0, 0]"
| "to_args (ProcessID p) = [11, ucast (nz_get p), 0, 0, 0, 0, 0, 0]"
| "to_args Unimplemented = [21, 0, 0, 0, 0, 0, 0, 0]"
| "to_args BlockedProcess = [13, 0, 0, 0, 0, 0, 0, 0]"
| "to_args (Scalar1 a) = [14, a, 0, 0, 0, 0, 0, 0]"
| "to_args (Scalar2 a b) = [15, a, b, 0, 0, 0, 0, 0]"
| "to_args (NewServerID (SID a b c d)) = [8, ucast a, ucast b, ucast c, ucast d, 0, 0, 0]"
| "to_args RetryCall = [16, 0, 0, 0, 0, 0, 0, 0]"
| "to_args RespNone = [17, 0, 0, 0, 0, 0, 0, 0]"
| "to_args (MemoryReturned offset valid) = [18, opt_get offset, opt_get valid, 0, 0, 0, 0, 0]"
| "to_args (NewProcess p) = add_opcode 19 (process_startup_to_args p)"
| "to_args (Scalar5 a b c d e) = [20, a, b, c, d, e, 0, 0]"
| "to_args (RespMessage m) = 21 # message_to_usize m @ [0]"
| "to_args (UnknownResult a1 a2 a3 a4 a5 a6 a7) = [- 1, a1, a2, a3, a4, a5, a6, a7]"

text \<open>
  The kinds of a message body in a reply, numbered from 0; \<open>None\<close> is the early
  \<open>return Result::Error(Error::InternalError)\<close> of both arms that decode one.
\<close>

definition body_from_usize ::
  "usize \<Rightarrow> usize \<Rightarrow> usize \<Rightarrow> usize \<Rightarrow> usize \<Rightarrow> usize \<Rightarrow> message option" where
  "body_from_usize tag a b c d e =
    (if tag = 0 then map_option MutableBorrow (memory_message_from_usize a b c d e)
     else if tag = 1 then map_option Borrow (memory_message_from_usize a b c d e)
     else if tag = 2 then map_option Move (memory_message_from_usize a b c d e)
     else if tag = 3 then Some (Scalar (scalar_message_from_usize a b c d e))
     else if tag = 4 then Some (BlockingScalar (scalar_message_from_usize a b c d e))
     else None)"

definition from_args :: "usize list \<Rightarrow> xous_result kresult" where
  "from_args src =
    (let op = src ! 0 in
     if op = 0 then Ok RespOk
     else if op = 1 then Ok (RespError (error_from_usize (src ! 1)))
     else if op = 2 then
       (case nz_new (src ! 1) of
          None \<Rightarrow> Ok (RespError InternalError)
        | Some s \<Rightarrow> Ok (RespMemoryAddress s))
     else if op = 3 then
       (case nz_new (src ! 1) of None \<Rightarrow> Ok (RespError InternalError) | Some a \<Rightarrow>
         (case nz_new (src ! 2) of None \<Rightarrow> Ok (RespError InternalError) | Some s \<Rightarrow>
           Ok (RespMemoryRange \<lparr>mr_addr = a, mr_size = s\<rparr>)))
     else if op = 4 then
       Ok (ReadyThreads (src ! 1) (src ! 2) (src ! 3) (src ! 4) (src ! 5) (src ! 6) (src ! 7))
     else if op = 5 then Ok ResumeProcess
     else if op = 6 then
       Ok (ServerID (SID (ucast (src ! 1)) (ucast (src ! 2)) (ucast (src ! 3)) (ucast (src ! 4))))
     else if op = 7 then Ok (ConnectionID (ucast (src ! 1)))
     else if op = 8 then
       Ok (NewServerID (SID (ucast (src ! 1)) (ucast (src ! 2)) (ucast (src ! 3)) (ucast (src ! 4))))
     else if op = 9 then
       (case body_from_usize (src ! 2) (src ! 3) (src ! 4) (src ! 5) (src ! 6) (src ! 7) of
          None \<Rightarrow> Ok (RespError InternalError)
        | Some m \<Rightarrow>
            Ok (RespMessageEnvelope \<lparr>env_sender = sender_from_usize (src ! 1), env_body = m\<rparr>))
     else if op = 10 then Ok (ThreadID (src ! 1))
     else if op = 11 then obind (unwrap (nz_new (ucast (src ! 1)))) (\<lambda>p. Ok (ProcessID p))
     else if op = 12 then Ok Unimplemented
     else if op = 13 then Ok BlockedProcess
     else if op = 14 then Ok (Scalar1 (src ! 1))
     else if op = 15 then Ok (Scalar2 (src ! 1) (src ! 2))
     else if op = 16 then Ok RetryCall
     else if op = 17 then Ok RespNone
     else if op = 18 then Ok (MemoryReturned (nz_new (src ! 1)) (nz_new (src ! 2)))
     else if op = 19 then Ok (NewProcess (process_startup_from_args src))
     else if op = 20 then Ok (Scalar5 (src ! 1) (src ! 2) (src ! 3) (src ! 4) (src ! 5))
     else if op = 21 then
       (case body_from_usize (src ! 1) (src ! 2) (src ! 3) (src ! 4) (src ! 5) (src ! 6) of
          None \<Rightarrow> Ok (RespError InternalError)
        | Some m \<Rightarrow> Ok (RespMessage m))
     else Ok (UnknownResult (src ! 0) (src ! 1) (src ! 2) (src ! 3) (src ! 4) (src ! 5) (src ! 6)))"

fun result_memory :: "xous_result \<Rightarrow> memory_range option" where
  "result_memory (RespMessageEnvelope e) = message_memory (env_body e)"
| "result_memory (RespMessage m) = message_memory m"
| "result_memory _ = None"

section \<open>The round trip\<close>

text \<open>The replies whose decoding does not give them back.\<close>

fun lossy_result :: "xous_result \<Rightarrow> bool" where
  "lossy_result Unimplemented = True"
| "lossy_result (UnknownResult _ _ _ _ _ _ _) = True"
| "lossy_result _ = False"

lemma body_from_to_usize:
  assumes "message_to_usize m = [t, a, b, c, d, e]"
  shows "body_from_usize t a b c d e = Some m"
  using assms
  by (cases m) (auto simp: body_from_usize_def memory_message_to_usize_def scalar_message_to_usize_def)

lemma message_to_usize_six: "\<exists>t a b c d e. message_to_usize m = [t, a, b, c, d, e]"
  by (cases m) (simp_all add: memory_message_to_usize_def scalar_message_to_usize_def)

lemma length_to_args: "length (to_args r) = 8"
  by (cases r rule: to_args.cases)
    (simp_all add: envelope_to_usize_def process_startup_to_args_def)

lemma from_args_to_args: "\<not> lossy_result r \<Longrightarrow> from_args (to_args r) = Ok r"
proof (cases r)
  case (RespMessageEnvelope e)
  then show ?thesis
    using message_to_usize_six [of "env_body e"] body_from_to_usize [of "env_body e"]
    by (auto simp: from_args_def envelope_to_usize_def sender_to_usize_def sender_from_usize_def)
next
  case (RespMessage m)
  then show ?thesis
    using message_to_usize_six [of m] body_from_to_usize [of m] by (auto simp: from_args_def)
next
  case (ServerID s)
  then show ?thesis by (cases s) (simp add: from_args_def)
next
  case (NewServerID s)
  then show ?thesis by (cases s) (simp add: from_args_def)
qed (simp_all add: from_args_def process_startup_to_args_def process_startup_from_args_def)

interpretation result_registers: codec "\<lambda>r. \<not> lossy_result r" to_args from_args
  by unfold_locales (rule from_args_to_args)

text \<open>
  Property C24: what a process decodes from the registers of a reply.  Every reply
  comes back unchanged, except that \<open>Unimplemented\<close>, which is encoded with the
  number of \<open>Message\<close>, is decoded as an internal error, and that the number of an
  unknown result is replaced by \<open>usize::MAX\<close> and its last register is lost.
\<close>

theorem reply_decoding:
  "from_args (to_args r) =
    (case r of
       Unimplemented \<Rightarrow> Ok (RespError InternalError)
     | UnknownResult a1 a2 a3 a4 a5 a6 a7 \<Rightarrow> Ok (UnknownResult (- 1) a1 a2 a3 a4 a5 a6)
     | _ \<Rightarrow> Ok r)"
proof (cases "lossy_result r")
  case False
  then show ?thesis using result_registers.dec_enc [of r] by (auto split: xous_result.split)
next
  case True
  then show ?thesis
    by (cases r) (simp_all add: from_args_def body_from_usize_def memory_message_from_usize_def)
qed

text \<open>
  The decoder of replies panics on exactly the registers that carry a
  process id whose low byte is zero (\<open>PID::new(src[1] as _).unwrap()\<close>).
\<close>

theorem reply_decoder_panics_iff:
  "from_args src = Panic \<longleftrightarrow> src ! 0 = 11 \<and> (ucast (src ! 1) :: u8) = 0"
  by (auto simp: from_args_def Let_def unwrap_def split: option.splits)

end
