(* ===== verification/Round_Robin.thy ===== *)
theory Round_Robin
  imports Kernel_Prelude
begin

text \<open>
  The contract of a rotating ready queue: yielding moves the thread at the front
  of its queue to the back and leaves the other queues alone.  The lemmas are
  what a thread waiting in the queue relies on: every queued thread comes to the
  front after fewer yields than the queue is long.
\<close>

fun yield_times :: "('s \<Rightarrow> 'p \<Rightarrow> 's option) \<Rightarrow> nat \<Rightarrow> 's \<Rightarrow> 'p \<Rightarrow> 's option" where
  "yield_times yld 0 s p = Some s"
| "yield_times yld (Suc n) s p = (case yield_times yld n s p of None \<Rightarrow> None | Some s' \<Rightarrow> yld s' p)"

locale rotating_queues =
  fixes inv :: "'s \<Rightarrow> bool"
    and members :: "'s \<Rightarrow> 'p \<Rightarrow> 'a list"
    and yld :: "'s \<Rightarrow> 'p \<Rightarrow> 's option"
  assumes yield_rotates:
    "inv s \<Longrightarrow> members s p \<noteq> [] \<Longrightarrow>
      \<exists>s'. yld s p = Some s' \<and> inv s' \<and> members s' = (members s)(p := rotate1 (members s p))"
begin

lemma yields_rotate:
  assumes "inv s" "members s p \<noteq> []"
  shows "\<exists>s'. yield_times yld n s p = Some s' \<and> inv s' \<and>
    members s' = (members s)(p := rotate n (members s p))"
proof (induction n)
  case (Suc n)
  then obtain t where t: "yield_times yld n s p = Some t" "inv t"
      "members t = (members s)(p := rotate n (members s p))"
    by blast
  then have "members t p \<noteq> []" using assms(2) by simp
  then obtain s' where "yld t p = Some s'" "inv s'" "members s' = (members t)(p := rotate1 (members t p))"
    using yield_rotates t(2) by blast
  then show ?case using t by (simp add: fun_eq_iff)
qed (use assms in simp)

lemma front_after_yields:
  assumes "inv s" "members s p \<noteq> []"
  shows "\<exists>s'. yield_times yld n s p = Some s' \<and>
    hd (members s' p) = members s p ! (n mod length (members s p))"
  using yields_rotate [OF assms, of n] assms(2) by (auto simp: hd_rotate_conv_nth)

lemma every_member_served:
  assumes "inv s" "x \<in> set (members s p)"
  shows "\<exists>n s'. n < length (members s p) \<and> yield_times yld n s p = Some s' \<and> hd (members s' p) = x"
proof -
  obtain i where i: "i < length (members s p)" "x = members s p ! i"
    using assms(2) by (auto simp: in_set_conv_nth)
  have "members s p \<noteq> []" using i(1) by auto
  then show ?thesis using front_after_yields [OF assms(1), of p i] i by auto
qed

end

end
