(* ===== verification/Ready_Queues.thy ===== *)
theory Ready_Queues
  imports Xous_Defs Round_Robin
begin

text \<open>
  The scheduler's ready queues, \<open>xous/kernel/src/scheduler.rs\<close>: one circular,
  doubly linked list of threads per priority, threaded through a table of links,
  and the highest priority that has a ready thread.  A cell of the table is
  addressed by a process id and a thread id; \<open>link_index_ok\<close> is the bounds check
  of \<open>links[pid - 1][tid - 1]\<close>.

  \<open>ring\<close> says that a list of threads is laid out as one of the circles;
  \<open>sched_rel\<close> relates a scheduler to the sixteen lists it represents.  The lemmas
  show that readying a thread appends it to its list, that parking removes it,
  that yielding rotates the list, and that none of them touches another list.
\<close>

section \<open>State\<close>

type_synonym thread = "pid \<times> nat"

definition MAX_PROCESS_COUNT :: nat where "MAX_PROCESS_COUNT = 64"
definition MAX_THREAD_COUNT :: nat where "MAX_THREAD_COUNT = 32"
definition NUM_PRIORITIES :: nat where "NUM_PRIORITIES = priority_index Highest + 1"
definition IRQ_TID :: nat where "IRQ_TID = 0"

record scheduler_link =
  link_next :: thread
  link_prev :: thread

record scheduler =
  queue_heads :: "thread option list"
  links :: "thread \<Rightarrow> scheduler_link option"
  highest_ready_priority :: nat
  in_irq_handler :: bool

definition scheduler_init :: scheduler where
  "scheduler_init =
    \<lparr>queue_heads = replicate NUM_PRIORITIES None, links = (\<lambda>_. None),
     highest_ready_priority = 0, in_irq_handler = False\<rparr>"

definition link_index_ok :: "thread \<Rightarrow> bool" where
  "link_index_ok th \<longleftrightarrow>
    unat (nz_get (fst th)) \<le> MAX_PROCESS_COUNT \<and> 1 \<le> snd th \<and> snd th \<le> MAX_THREAD_COUNT"

section \<open>Operations\<close>

text \<open>\<open>link_copy\<close>, and \<open>link_mut\<close> read or assigned: a panic out of bounds.\<close>

definition link_copy :: "scheduler \<Rightarrow> thread \<Rightarrow> scheduler_link option kresult" where
  "link_copy s th = (if link_index_ok th then Ok (links s th) else Panic)"

definition link_set :: "scheduler \<Rightarrow> thread \<Rightarrow> scheduler_link option \<Rightarrow> scheduler kresult" where
  "link_set s th l = (if link_index_ok th then Ok (s\<lparr>links := (links s)(th := l)\<rparr>) else Panic)"

text \<open>\<open>link_mut(..).as_mut().expect(..)\<close> followed by an assignment to fields of the link.\<close>

definition link_update ::
  "scheduler \<Rightarrow> thread \<Rightarrow> (scheduler_link \<Rightarrow> scheduler_link) \<Rightarrow> scheduler kresult" where
  "link_update s th f =
    obind (link_copy s th) (\<lambda>l. obind (unwrap l) (\<lambda>link. link_set s th (Some (f link))))"

definition ready_thread :: "scheduler \<Rightarrow> thread \<Rightarrow> thread_priority \<Rightarrow> scheduler kresult" where
  "ready_thread s th priority =
    (if snd th = IRQ_TID then
       if in_irq_handler s then Panic else Ok (s\<lparr>in_irq_handler := True\<rparr>)
     else
       let p = priority_index priority in
       case queue_heads s ! p of
         None \<Rightarrow>
           let s1 = s\<lparr>queue_heads := (queue_heads s)[p := Some th],
                      highest_ready_priority :=
                        (if highest_ready_priority s < p then p else highest_ready_priority s)\<rparr>
           in link_set s1 th (Some \<lparr>link_next = th, link_prev = th\<rparr>)
       | Some head \<Rightarrow>
           obind (link_copy s th) (\<lambda>own.
           if own \<noteq> None then Panic
           else
             obind (link_copy s head) (\<lambda>hc. obind (unwrap hc) (\<lambda>head_copy.
             obind (link_set s head (Some \<lparr>link_next = link_next head_copy, link_prev = th\<rparr>)) (\<lambda>s1.
             obind (link_update s1 (link_prev head_copy) (\<lambda>l. l\<lparr>link_next := th\<rparr>)) (\<lambda>s2.
             link_set s2 th (Some \<lparr>link_next = head, link_prev = link_prev head_copy\<rparr>)))))))"

text \<open>\<open>Iterator::rposition\<close>: the last index whose element satisfies the predicate.\<close>

definition rposition :: "('a \<Rightarrow> bool) \<Rightarrow> 'a list \<Rightarrow> nat option" where
  "rposition P xs = find (\<lambda>i. P (xs ! i)) (rev [0 ..< length xs])"

definition park_thread :: "scheduler \<Rightarrow> thread \<Rightarrow> thread_priority \<Rightarrow> scheduler kresult" where
  "park_thread s th priority =
    (if snd th = IRQ_TID then
       if in_irq_handler s then Ok (s\<lparr>in_irq_handler := False\<rparr>) else Panic
     else
       let p = priority_index priority in
       obind (link_copy s th) (\<lambda>l. obind (link_set s th None) (\<lambda>s1. obind (unwrap l) (\<lambda>link.
       if link_next link = th then
         let heads = (queue_heads s1)[p := None] in
         Ok (s1\<lparr>queue_heads := heads,
                 highest_ready_priority :=
                   (if p = highest_ready_priority s1
                    then (case rposition (\<lambda>h. h \<noteq> None) (take p heads) of None \<Rightarrow> 0 | Some i \<Rightarrow> i)
                    else highest_ready_priority s1)\<rparr>)
       else
         let s2 = (if queue_heads s1 ! p = Some th
                   then s1\<lparr>queue_heads := (queue_heads s1)[p := Some (link_next link)]\<rparr> else s1) in
         obind (link_update s2 (link_prev link) (\<lambda>l. l\<lparr>link_next := link_next link\<rparr>)) (\<lambda>s3.
         link_update s3 (link_next link) (\<lambda>l. l\<lparr>link_prev := link_prev link\<rparr>))))))"

definition yield_thread :: "scheduler \<Rightarrow> thread \<Rightarrow> thread_priority \<Rightarrow> scheduler kresult" where
  "yield_thread s th priority =
    (let p = priority_index priority in
     if queue_heads s ! p = Some th then
       obind (link_copy s th) (\<lambda>l. obind (unwrap l) (\<lambda>link.
       Ok (s\<lparr>queue_heads := (queue_heads s)[p := Some (link_next link)]\<rparr>)))
     else Ok s)"

text \<open>The thread \<open>activate_current\<close> picks: the head of the highest ready queue.\<close>

definition next_thread :: "scheduler \<Rightarrow> thread option" where
  "next_thread s = queue_heads s ! highest_ready_priority s"

section \<open>Circles\<close>

fun ring_edges :: "'a list \<Rightarrow> ('a \<times> 'a) set" where
  "ring_edges [] = {}"
| "ring_edges xs = insert (last xs, hd xs) (set (zip xs (tl xs)))"

definition ring :: "(thread \<Rightarrow> scheduler_link option) \<Rightarrow> thread list \<Rightarrow> bool" where
  "ring L xs \<longleftrightarrow> (\<forall>e \<in> ring_edges xs.
     (\<exists>l. L (fst e) = Some l \<and> link_next l = snd e) \<and>
     (\<exists>l. L (snd e) = Some l \<and> link_prev l = fst e))"

lemma zip_tl_snoc: "xs \<noteq> [] \<Longrightarrow> zip (xs @ [x]) (tl (xs @ [x])) = zip xs (tl xs) @ [(last xs, x)]"
proof (induction xs)
  case (Cons a xs)
  then show ?case by (cases xs) auto
qed simp

lemma ring_edges_nonempty: "xs \<noteq> [] \<Longrightarrow> ring_edges xs = insert (last xs, hd xs) (set (zip xs (tl xs)))"
  by (cases xs) auto

lemma ring_edges_snoc:
  "xs \<noteq> [] \<Longrightarrow> ring_edges (xs @ [x]) = {(x, hd xs), (last xs, x)} \<union> set (zip xs (tl xs))"
  using zip_tl_snoc [of xs x] by (simp add: ring_edges_nonempty)

lemma ring_edges_Cons:
  "xs \<noteq> [] \<Longrightarrow> ring_edges (x # xs) = {(x, hd xs), (last xs, x)} \<union> set (zip xs (tl xs))"
  by (cases xs) auto

declare ring_edges.simps(2) [simp del]

lemma ring_edges_rotate1: "ring_edges (rotate1 xs) = ring_edges xs"
proof (cases xs)
  case (Cons a ys)
  then show ?thesis by (cases "ys = []") (simp_all add: ring_edges_snoc ring_edges_Cons)
qed simp

lemma ring_rotate: "ring L (rotate n xs) \<longleftrightarrow> ring L xs"
  by (induction n) (simp_all add: ring_def ring_edges_rotate1)

lemma zip_tlD:
  assumes "(a, b) \<in> set (zip xs (tl xs))"
  obtains i where "Suc i < length xs" "a = xs ! i" "b = xs ! Suc i"
  using assms by (auto simp: in_set_zip nth_tl less_diff_conv)

lemma zip_tl_distinct:
  assumes "distinct xs" "(a, b) \<in> set (zip xs (tl xs))"
  shows "a \<noteq> last xs" "b \<noteq> hd xs" "a \<in> set xs" "b \<in> set xs"
proof -
  obtain i where i: "Suc i < length xs" "a = xs ! i" "b = xs ! Suc i"
    using assms(2) by (rule zip_tlD)
  then have ne: "xs \<noteq> []" by auto
  show "a \<noteq> last xs" "b \<noteq> hd xs"
    using i assms(1) ne by (auto simp: last_conv_nth hd_conv_nth nth_eq_iff_index_eq)
  show "a \<in> set xs" "b \<in> set xs" using i by auto
qed

lemma ring_edge_in: "(a, b) \<in> ring_edges xs \<Longrightarrow> a \<in> set xs \<and> b \<in> set xs"
  by (cases "xs = []") (auto simp: ring_edges_nonempty elim!: zip_tlD)

lemma ring_edge_out:
  assumes "x \<in> set xs"
  shows "\<exists>y. (x, y) \<in> ring_edges xs"
proof -
  obtain i where i: "i < length xs" "x = xs ! i" using assms by (auto simp: in_set_conv_nth)
  then have ne: "xs \<noteq> []" by auto
  show ?thesis
  proof (cases "Suc i < length xs")
    case True
    then have "(xs ! i, xs ! Suc i) \<in> set (zip xs (tl xs))"
      by (auto simp: in_set_zip nth_tl intro!: exI [of _ i])
    then show ?thesis using i ne by (auto simp: ring_edges_nonempty)
  next
    case False
    then have "i = length xs - 1" using i by simp
    then have "x = last xs" using i ne by (simp add: last_conv_nth)
    then show ?thesis using ne by (auto simp: ring_edges_nonempty)
  qed
qed

lemma ring_cong:
  assumes "\<And>y. y \<in> set xs \<Longrightarrow> L' y = L y"
  shows "ring L' xs = ring L xs"
proof -
  have "L' (fst e) = L (fst e) \<and> L' (snd e) = L (snd e)" if "e \<in> ring_edges xs" for e
    using that ring_edge_in [of "fst e" "snd e" xs] assms by simp
  then show ?thesis unfolding ring_def by (simp cong: ball_cong)
qed

lemma ring_edgeD:
  assumes "ring L xs" "(a, b) \<in> ring_edges xs"
  shows "\<exists>l. L a = Some l \<and> link_next l = b" "\<exists>l. L b = Some l \<and> link_prev l = a"
  using bspec [OF assms(1) [unfolded ring_def] assms(2)] by simp_all

lemma ringI:
  assumes "\<And>a b. (a, b) \<in> ring_edges xs \<Longrightarrow>
    (\<exists>l. L a = Some l \<and> link_next l = b) \<and> (\<exists>l. L b = Some l \<and> link_prev l = a)"
  shows "ring L xs"
  unfolding ring_def
proof
  fix e assume "e \<in> ring_edges xs"
  then show "(\<exists>l. L (fst e) = Some l \<and> link_next l = snd e) \<and>
      (\<exists>l. L (snd e) = Some l \<and> link_prev l = fst e)"
    using assms [of "fst e" "snd e"] by simp
qed

lemma ring_linked:
  assumes "ring L xs" "x \<in> set xs"
  shows "\<exists>l. L x = Some l"
proof -
  obtain y where "(x, y) \<in> ring_edges xs" using ring_edge_out [OF assms(2)] ..
  from ring_edgeD(1) [OF assms(1) this] show ?thesis by blast
qed

lemma ring_head:
  assumes "ring L (x # ys)"
  obtains l where "L x = Some l" "link_next l = hd (ys @ [x])" "link_prev l = last (x # ys)"
proof -
  have e: "(last (x # ys), x) \<in> ring_edges (x # ys)"
    "(x, hd (ys @ [x])) \<in> ring_edges (x # ys)"
    unfolding ring_edges.simps(2) by simp (cases ys; simp)
  obtain l where "L x = Some l" "link_prev l = last (x # ys)"
    using ring_edgeD(2) [OF assms e(1)] by blast
  moreover obtain l' where "L x = Some l'" "link_next l' = hd (ys @ [x])"
    using ring_edgeD(1) [OF assms e(2)] by blast
  ultimately show thesis using that [of l] by simp
qed

lemma ring_append:
  assumes "ring L xs" "distinct (x # xs)" "xs \<noteq> []" "L (hd xs) = Some hc" "L (last xs) = Some lc"
    and L1: "L1 = L(hd xs \<mapsto> \<lparr>link_next = link_next hc, link_prev = x\<rparr>)"
    and L2: "L2 = L1(last xs \<mapsto> (the (L1 (last xs)))\<lparr>link_next := x\<rparr>)"
    and L3: "L3 = L2(x \<mapsto> \<lparr>link_next = hd xs, link_prev = last xs\<rparr>)"
  shows "ring L3 (xs @ [x])"
proof (rule ringI)
  have x: "x \<noteq> hd xs" "x \<noteq> last xs" using assms(2,3) by auto
  fix a b assume "(a, b) \<in> ring_edges (xs @ [x])"
  then consider (first) "a = x" "b = hd xs" | (final) "a = last xs" "b = x" | (old) "(a, b) \<in> set (zip xs (tl xs))"
    using ring_edges_snoc [OF assms(3)] by auto
  then show "(\<exists>l. L3 a = Some l \<and> link_next l = b) \<and> (\<exists>l. L3 b = Some l \<and> link_prev l = a)"
  proof cases
    case old
    then have ab: "a \<noteq> last xs" "b \<noteq> hd xs" "a \<noteq> x" "b \<noteq> x"
      using zip_tl_distinct [OF _ old] assms(2) by auto
    have e: "(a, b) \<in> ring_edges xs" using old assms(3) by (simp add: ring_edges_nonempty)
    show ?thesis
      using ring_edgeD [OF assms(1) e] ab assms(4,5)
      by (cases "a = hd xs"; cases "b = last xs"; simp add: L1 L2 L3)
  next
    case first
    then show ?thesis using x assms(4,5) by (cases "hd xs = last xs"; simp add: L1 L2 L3)
  next
    case final
    then show ?thesis using x assms(4,5) by (cases "hd xs = last xs"; simp add: L1 L2 L3)
  qed
qed

lemma ring_remove_head:
  assumes "ring L (x # ys)" "distinct (x # ys)" "ys \<noteq> []"
    and L1: "L1 = L(x := None)"
    and L2: "L2 = L1(last ys \<mapsto> (the (L1 (last ys)))\<lparr>link_next := hd ys\<rparr>)"
    and L3: "L3 = L2(hd ys \<mapsto> (the (L2 (hd ys)))\<lparr>link_prev := last ys\<rparr>)"
  shows "ring L3 ys"
proof (rule ringI)
  have x: "x \<noteq> hd ys" "x \<noteq> last ys" using assms(2,3) by auto
  fix a b assume "(a, b) \<in> ring_edges ys"
  then consider (closing) "a = last ys" "b = hd ys" | (old) "(a, b) \<in> set (zip ys (tl ys))"
    using ring_edges_nonempty [OF assms(3)] by auto
  then show "(\<exists>l. L3 a = Some l \<and> link_next l = b) \<and> (\<exists>l. L3 b = Some l \<and> link_prev l = a)"
  proof cases
    case closing
    then show ?thesis using x by (cases "hd ys = last ys"; simp add: L1 L2 L3)
  next
    case old
    then have ab: "a \<noteq> last ys" "b \<noteq> hd ys" "a \<noteq> x" "b \<noteq> x"
      using zip_tl_distinct [OF _ old] assms(2) by auto
    have e: "(a, b) \<in> ring_edges (x # ys)" using old assms(3) by (simp add: ring_edges_Cons)
    obtain la lb where "L a = Some la" "link_next la = b" "L b = Some lb" "link_prev lb = a"
      using ring_edgeD [OF assms(1) e] by blast
    then show ?thesis
      using ab x by (cases "a = hd ys"; cases "b = last ys"; simp add: L1 L2 L3)
  qed
qed

section \<open>The lists a scheduler represents\<close>

definition highest_ok :: "'a option list \<Rightarrow> nat \<Rightarrow> bool" where
  "highest_ok hs m \<longleftrightarrow>
    m < length hs \<and> (\<forall>i. m < i \<and> i < length hs \<longrightarrow> hs ! i = None) \<and> (m \<noteq> 0 \<longrightarrow> hs ! m \<noteq> None)"

definition sched_rel :: "scheduler \<Rightarrow> (nat \<Rightarrow> thread list) \<Rightarrow> bool" where
  "sched_rel s Q \<longleftrightarrow>
    length (queue_heads s) = NUM_PRIORITIES \<and>
    (\<forall>p<NUM_PRIORITIES. queue_heads s ! p = (case Q p of [] \<Rightarrow> None | x # _ \<Rightarrow> Some x)) \<and>
    (\<forall>p<NUM_PRIORITIES. distinct (Q p) \<and> ring (links s) (Q p)) \<and>
    (\<forall>p<NUM_PRIORITIES. \<forall>q<NUM_PRIORITIES. p \<noteq> q \<longrightarrow> set (Q p) \<inter> set (Q q) = {}) \<and>
    (\<forall>th. links s th \<noteq> None \<longrightarrow> (\<exists>p<NUM_PRIORITIES. th \<in> set (Q p))) \<and>
    (\<forall>p<NUM_PRIORITIES. \<forall>th\<in>set (Q p). link_index_ok th) \<and>
    highest_ok (queue_heads s) (highest_ready_priority s)"

lemma sched_relD:
  assumes "sched_rel s Q"
  shows "length (queue_heads s) = NUM_PRIORITIES"
    and "p < NUM_PRIORITIES \<Longrightarrow> queue_heads s ! p = (case Q p of [] \<Rightarrow> None | x # _ \<Rightarrow> Some x)"
    and "p < NUM_PRIORITIES \<Longrightarrow> distinct (Q p)"
    and "p < NUM_PRIORITIES \<Longrightarrow> ring (links s) (Q p)"
    and "p < NUM_PRIORITIES \<Longrightarrow> q < NUM_PRIORITIES \<Longrightarrow> p \<noteq> q \<Longrightarrow> set (Q p) \<inter> set (Q q) = {}"
    and "links s th \<noteq> None \<Longrightarrow> \<exists>p<NUM_PRIORITIES. th \<in> set (Q p)"
    and "p < NUM_PRIORITIES \<Longrightarrow> th \<in> set (Q p) \<Longrightarrow> link_index_ok th"
    and "highest_ok (queue_heads s) (highest_ready_priority s)"
  using assms unfolding sched_rel_def by (blast | simp)+

lemma priority_index_bound [simp]: "priority_index p < NUM_PRIORITIES"
  by (simp add: NUM_PRIORITIES_def)

text \<open>One queue changes; the links of the threads in the others are the same as before.\<close>

lemma sched_rel_update:
  assumes rel: "sched_rel s Q" and p: "p < NUM_PRIORITIES"
    and heads: "queue_heads s' = (queue_heads s)[p := (case xs of [] \<Rightarrow> None | x # _ \<Rightarrow> Some x)]"
    and ring: "distinct xs" "ring (links s') xs"
    and frame: "\<And>th. th \<notin> set (Q p) \<union> set xs \<Longrightarrow> links s' th = links s th"
    and gone: "\<And>th. th \<in> set (Q p) - set xs \<Longrightarrow> links s' th = None"
    and fresh: "\<And>q th. q < NUM_PRIORITIES \<Longrightarrow> q \<noteq> p \<Longrightarrow> th \<in> set xs \<Longrightarrow> th \<notin> set (Q q)"
    and ok: "\<And>th. th \<in> set xs \<Longrightarrow> link_index_ok th"
    and high: "highest_ok (queue_heads s') (highest_ready_priority s')"
  shows "sched_rel s' (Q(p := xs))"
proof -
  note R = sched_relD [OF rel]
  have other: "ring (links s') (Q q)" if q: "q < NUM_PRIORITIES" "q \<noteq> p" for q
  proof -
    have "links s' th = links s th" if "th \<in> set (Q q)" for th
      using frame [of th] fresh [OF q, of th] R(5) [OF q(1) p q(2)] that by blast
    then show ?thesis using ring_cong [of "Q q" "links s'" "links s"] R(4) [OF q(1)] by simp
  qed
  have dom: "\<exists>q<NUM_PRIORITIES. th \<in> set ((Q(p := xs)) q)" if th: "links s' th \<noteq> None" for th
  proof (cases "th \<in> set xs")
    case True
    then show ?thesis using p by (intro exI [of _ p]) simp
  next
    case False
    then have "th \<notin> set (Q p)" using gone [of th] th by blast
    then have "links s th \<noteq> None" using frame [of th] False th by simp
    then obtain q where "q < NUM_PRIORITIES" "th \<in> set (Q q)" using R(6) by blast
    then show ?thesis using \<open>th \<notin> set (Q p)\<close> by (intro exI [of _ q]) auto
  qed
  have disj: "set ((Q(p := xs)) q) \<inter> set ((Q(p := xs)) r) = {}"
    if "q < NUM_PRIORITIES" "r < NUM_PRIORITIES" "q \<noteq> r" for q r
    using that R(5) [OF that] fresh by (auto simp: fun_upd_def) 
  show ?thesis
    unfolding sched_rel_def
  proof (intro conjI allI impI ballI)
    show "length (queue_heads s') = NUM_PRIORITIES" using heads R(1) by simp
  next
    fix q assume "q < NUM_PRIORITIES"
    then show "queue_heads s' ! q = (case (Q(p := xs)) q of [] \<Rightarrow> None | x # _ \<Rightarrow> Some x)"
      using heads R(1) R(2) [of q] by (cases "q = p") auto
    show "distinct ((Q(p := xs)) q)" "ring (links s') ((Q(p := xs)) q)"
      using \<open>q < NUM_PRIORITIES\<close> ring R(3) [of q] other [of q] by auto
    fix th assume "th \<in> set ((Q(p := xs)) q)"
    then show "link_index_ok th"
      using \<open>q < NUM_PRIORITIES\<close> ok [of th] R(7) [of q th] by (auto split: if_splits)
  qed (use dom disj high in blast)+
qed

lemma rposition_Some:
  assumes "rposition P xs = Some i"
  shows "i < length xs" "P (xs ! i)" "\<And>j. i < j \<Longrightarrow> j < length xs \<Longrightarrow> \<not> P (xs ! j)"
proof -
  let ?n = "length xs"
  obtain k where k: "k < ?n" "P (xs ! i)" "rev [0 ..< ?n] ! k = i"
      "\<forall>j<k. \<not> P (xs ! (rev [0 ..< ?n] ! j))"
    using assms unfolding rposition_def find_Some_iff by auto
  have i: "i = ?n - Suc k" using k by (simp add: rev_nth)
  then show "i < ?n" "P (xs ! i)" using k by auto
  show "\<not> P (xs ! j)" if "i < j" "j < ?n" for j
    using k(4) [rule_format, of "?n - Suc j"] that i k(1) by (simp add: rev_nth) 
qed

lemma rposition_None: "rposition P xs = None \<Longrightarrow> i < length xs \<Longrightarrow> \<not> P (xs ! i)"
  by (auto simp: rposition_def find_None_iff)

lemma highest_ok_set:
  assumes "highest_ok hs m" "p < length hs"
  shows "highest_ok (hs[p := Some x]) (if m < p then p else m)"
  using assms unfolding highest_ok_def by (auto simp: nth_list_update)

lemma highest_ok_replace:
  assumes "highest_ok hs m" "p < length hs" "hs ! p \<noteq> None"
  shows "highest_ok (hs[p := Some x]) m"
  using assms unfolding highest_ok_def by (auto simp: nth_list_update)

lemma highest_ok_clear:
  assumes "highest_ok hs m" "p < length hs"
  shows "highest_ok (hs[p := None])
    (if p = m then (case rposition (\<lambda>h. h \<noteq> None) (take p (hs[p := None])) of None \<Rightarrow> 0 | Some i \<Rightarrow> i)
     else m)"
proof (cases "p = m")
  case False
  then show ?thesis using assms unfolding highest_ok_def by (auto simp: nth_list_update)
next
  case True
  let ?hs = "hs[p := None]"
  have above: "?hs ! i = None" if "p \<le> i" "i < length hs" for i
    using assms True that unfolding highest_ok_def by (cases "i = p") auto
  show ?thesis
  proof (cases "rposition (\<lambda>h. h \<noteq> None) (take p ?hs)")
    case None
    have "?hs ! i = None" if "i < length hs" for i
      using above [of i] rposition_None [OF None, of i] that assms(2) by (cases "i < p") auto
    then show ?thesis using None True assms(2) by (auto simp: highest_ok_def)
  next
    case (Some j)
    then have j: "j < p" "?hs ! j \<noteq> None" using rposition_Some(1,2) [OF Some] assms(2) by auto
    moreover have "?hs ! i = None" if "j < i" "i < length hs" for i
      using above [of i] rposition_Some(3) [OF Some, of i] that assms(2) by (cases "i < p") auto
    ultimately show ?thesis using Some True assms(2) by (simp add: highest_ok_def)
  qed
qed

section \<open>The operations on the lists\<close>

lemma sched_rel_init: "sched_rel scheduler_init (\<lambda>_. [])"
  by (auto simp: sched_rel_def scheduler_init_def ring_def highest_ok_def NUM_PRIORITIES_def)

lemma link_set_ok: "link_index_ok th \<Longrightarrow> link_set s th l = Ok (s\<lparr>links := (links s)(th := l)\<rparr>)"
  by (simp add: link_set_def)

lemma link_copy_ok: "link_index_ok th \<Longrightarrow> link_copy s th = Ok (links s th)"
  by (simp add: link_copy_def)

lemma link_update_ok:
  "link_index_ok th \<Longrightarrow> links s th = Some l \<Longrightarrow>
     link_update s th f = Ok (s\<lparr>links := (links s)(th \<mapsto> f l)\<rparr>)"
  by (simp add: link_update_def link_copy_ok link_set_ok)

lemmas link_ops = link_set_ok link_copy_ok link_update_ok

lemma not_irq: "link_index_ok th \<Longrightarrow> snd th \<noteq> IRQ_TID"
  by (auto simp: link_index_ok_def IRQ_TID_def)

lemma ready_thread_empty:
  assumes rel: "sched_rel s Q" and th: "link_index_ok th"
    and new: "\<And>q. q < NUM_PRIORITIES \<Longrightarrow> th \<notin> set (Q q)" and Nil: "Q (priority_index prio) = []"
  shows "\<exists>s'. ready_thread s th prio = Ok s' \<and> sched_rel s' (Q(priority_index prio := [th]))"
proof -
  let ?p = "priority_index prio"
  note R = sched_relD [OF rel] and irq = not_irq [OF th]
  let ?s = "s\<lparr>queue_heads := (queue_heads s)[?p := Some th],
    highest_ready_priority := (if highest_ready_priority s < ?p then ?p else highest_ready_priority s),
    links := (links s)(th \<mapsto> \<lparr>link_next = th, link_prev = th\<rparr>)\<rparr>"
  have "sched_rel ?s (Q(?p := [th]))"
    using rel priority_index_bound
  proof (rule sched_rel_update)
    show "ring (links ?s) [th]" by (simp add: ring_def ring_edges.simps(2))
    show "highest_ok (queue_heads ?s) (highest_ready_priority ?s)"
      using highest_ok_set [OF R(8), of ?p th] R(1) by simp
  qed (use Nil new th in auto)
  then show ?thesis
    using Nil R(2) [of ?p] th irq by (simp add: ready_thread_def link_ops Let_def)
qed

lemma ready_thread_nonempty:
  assumes rel: "sched_rel s Q" and th: "link_index_ok th"
    and new: "\<And>q. q < NUM_PRIORITIES \<Longrightarrow> th \<notin> set (Q q)" and Cons: "Q (priority_index prio) = head # ys"
  shows "\<exists>s'. ready_thread s th prio = Ok s' \<and>
    sched_rel s' (Q(priority_index prio := Q (priority_index prio) @ [th]))"
proof -
  let ?p = "priority_index prio"
  note R = sched_relD [OF rel] and irq = not_irq [OF th]
  have free: "links s th = None" using R(6) [of th] new by blast
  let ?xs = "Q ?p" and ?L = "links s"
  have xs: "?xs \<noteq> []" "hd ?xs = head" using Cons by auto
  obtain hc where hc: "?L head = Some hc" "link_prev hc = last ?xs"
    using ring_head [of ?L head ys] R(4) [of ?p] Cons by auto
  have lastin: "last ?xs \<in> set ?xs" using xs by simp
  have rng: "ring ?L ?xs" using R(4) by simp
  obtain lc where lc: "?L (last ?xs) = Some lc" using ring_linked [OF rng lastin] by blast
  have ok: "link_index_ok head" "link_index_ok (last ?xs)"
    using R(7) [of ?p] Cons lastin by auto
  define L1 where "L1 = ?L(head \<mapsto> \<lparr>link_next = link_next hc, link_prev = th\<rparr>)"
  define L2 where "L2 = L1(last ?xs \<mapsto> (the (L1 (last ?xs)))\<lparr>link_next := th\<rparr>)"
  define L3 where "L3 = L2(th \<mapsto> \<lparr>link_next = head, link_prev = last ?xs\<rparr>)"
  obtain l1 where l1: "L1 (last ?xs) = Some l1" using lc by (cases "last ?xs = head") (auto simp: L1_def)
  have dist: "distinct (th # ?xs)" using R(3) [of ?p] new [of ?p] by simp
  have ringL3: "ring L3 (?xs @ [th])"
    using ring_append [OF rng dist xs(1), of hc lc L1 L2 L3] hc lc
    by (simp add: xs(2) L1_def L2_def L3_def)
  have "sched_rel (s\<lparr>links := L3\<rparr>) (Q(?p := ?xs @ [th]))"
    using rel priority_index_bound
  proof (rule sched_rel_update)
    show "queue_heads (s\<lparr>links := L3\<rparr>) =
        (queue_heads s)[?p := (case ?xs @ [th] of [] \<Rightarrow> None | x # _ \<Rightarrow> Some x)]"
      using R(2) [of ?p] Cons list_update_id [of "queue_heads s" ?p] by simp
    show "distinct (?xs @ [th])" using dist by simp
    show "ring (links (s\<lparr>links := L3\<rparr>)) (?xs @ [th])" using ringL3 by simp
    show "links (s\<lparr>links := L3\<rparr>) t = links s t" if "t \<notin> set ?xs \<union> set (?xs @ [th])" for t
    proof -
      have "t \<noteq> head" "t \<noteq> last ?xs" "t \<noteq> th" using that lastin Cons by auto
      then show ?thesis by (simp add: L1_def L2_def L3_def)
    qed
    show "t \<notin> set (Q q)" if "q < NUM_PRIORITIES" "q \<noteq> ?p" "t \<in> set (?xs @ [th])" for q t
      using that new [of q] R(5) [OF that(1) priority_index_bound that(2)] by auto
    show "link_index_ok t" if "t \<in> set (?xs @ [th])" for t
      using that th R(7) [of ?p t] by auto
  qed (use R(8) in auto)
  moreover have "ready_thread s th prio = Ok (s\<lparr>links := L3\<rparr>)"
    using Cons R(2) [of ?p] irq th free hc ok l1
    by (simp add: ready_thread_def link_ops Let_def L3_def L2_def L1_def)
  ultimately show ?thesis by blast
qed

lemma ready_thread_rel:
  assumes "sched_rel s Q" "link_index_ok th" "\<And>q. q < NUM_PRIORITIES \<Longrightarrow> th \<notin> set (Q q)"
  shows "\<exists>s'. ready_thread s th prio = Ok s' \<and>
    sched_rel s' (Q(priority_index prio := Q (priority_index prio) @ [th]))"
proof (cases "Q (priority_index prio)")
  case Nil
  then show ?thesis using ready_thread_empty [OF assms Nil] by simp
next
  case (Cons head ys)
  show ?thesis using ready_thread_nonempty [OF assms Cons] .
qed

lemma ready_thread_linked:
  assumes "sched_rel s Q" "p < NUM_PRIORITIES" "th \<in> set (Q p)" "Q (priority_index prio) \<noteq> []"
  shows "ready_thread s th prio = Panic"
proof -
  note R = sched_relD [OF assms(1)]
  have "links s th \<noteq> None" using ring_linked [OF R(4) assms(3)] assms(2) by auto
  then show ?thesis
    using R(2) [of "priority_index prio"] R(7) [OF assms(2,3)] assms(4) not_irq
    by (cases "Q (priority_index prio)") (auto simp: ready_thread_def link_ops)
qed

text \<open>Parking: rotate the circle until the parked thread is its head, then remove the head.\<close>

lemma rotate_to_front:
  assumes "th \<in> set xs" "distinct xs"
  obtains k ys where "rotate k xs = th # ys" "rotate k (remove1 th xs) = ys"
    "set ys = set xs - {th}" "hd xs = th \<longleftrightarrow> k = 0" "k < length xs"
proof -
  obtain as bs where xs: "xs = as @ th # bs" using assms(1) by (meson split_list)
  then have "th \<notin> set as" "th \<notin> set bs" using assms(2) by auto
  then have "remove1 th xs = as @ bs" "rotate (length as) xs = th # bs @ as"
      "rotate (length as) (as @ bs) = bs @ as" "set (bs @ as) = set xs - {th}"
      "hd xs = th \<longleftrightarrow> length as = 0"
    unfolding xs by (auto simp: remove1_append rotate_append) (cases as; auto)+
  then show thesis using that [of "length as" "bs @ as"] xs by simp
qed

lemma remove1_head:
  assumes "th \<in> set xs" "rotate k xs = th # ys" "rotate k (remove1 th xs) = ys" "ys \<noteq> []"
    "hd xs = th \<longleftrightarrow> k = 0" "k < length xs"
  shows "hd (remove1 th xs) = (if hd xs = th then hd ys else hd xs)"
  using assms by (cases xs) auto

text \<open>The cells \<open>park_thread\<close> writes when the circle has another thread.\<close>

definition unlinked :: "(thread \<Rightarrow> scheduler_link option) \<Rightarrow> thread \<Rightarrow> scheduler_link \<Rightarrow> (thread \<Rightarrow> scheduler_link option)" where
  "unlinked L th l =
    (let L1 = L(th := None);
         L2 = L1(link_prev l \<mapsto> (the (L1 (link_prev l)))\<lparr>link_next := link_next l\<rparr>)
     in L2(link_next l \<mapsto> (the (L2 (link_next l)))\<lparr>link_prev := link_prev l\<rparr>))"

lemma unlinked_other:
  "t \<noteq> th \<Longrightarrow> t \<noteq> link_prev l \<Longrightarrow> t \<noteq> link_next l \<Longrightarrow> unlinked L th l t = L t"
  by (simp add: unlinked_def Let_def)

lemma unlinked_self:
  "link_prev l \<noteq> th \<Longrightarrow> link_next l \<noteq> th \<Longrightarrow> unlinked L th l th = None"
  by (simp add: unlinked_def Let_def)

lemma ring_unlinked:
  assumes ring: "ring L xs" and dist: "distinct xs" and th: "th \<in> set xs" and many: "remove1 th xs \<noteq> []"
  obtains l where "L th = Some l" "link_next l \<noteq> th" "link_prev l \<noteq> th"
    "link_next l \<in> set xs" "link_prev l \<in> set xs"
    "ring (unlinked L th l) (remove1 th xs)"
    "hd (remove1 th xs) = (if hd xs = th then link_next l else hd xs)"
proof -
  obtain k ys where rot: "rotate k xs = th # ys" "rotate k (remove1 th xs) = ys"
    and ys: "set ys = set xs - {th}" and k: "hd xs = th \<longleftrightarrow> k = 0" "k < length xs"
    using th dist by (rule rotate_to_front)
  have ne: "ys \<noteq> []" using rot(2) many by (metis rotate_is_Nil_conv)
  have ring0: "ring L (th # ys)" using ring ring_rotate [of L k xs] rot(1) by simp
  have dist0: "distinct (th # ys)" using dist rot(1) by (metis distinct_rotate)
  obtain l where l: "L th = Some l" "link_next l = hd ys" "link_prev l = last ys"
    using ring_head [OF ring0] ne by auto
  have ends: "hd ys \<in> set ys" "last ys \<in> set ys" using ne by auto
  have "ring (unlinked L th l) ys"
    unfolding unlinked_def l Let_def by (rule ring_remove_head [OF ring0 dist0 ne refl refl refl])
  then have "ring (unlinked L th l) (remove1 th xs)" using rot(2) ring_rotate by metis
  then show thesis
    using that [of l] l ends ys remove1_head [OF th rot ne k] by simp
qed

lemma park_thread_single:
  assumes rel: "sched_rel s Q" and single: "Q (priority_index prio) = [th]"
  shows "\<exists>s'. park_thread s th prio = Ok s' \<and> sched_rel s' (Q(priority_index prio := []))"
proof -
  let ?p = "priority_index prio" and ?hs = "(queue_heads s)[priority_index prio := None]"
  note R = sched_relD [OF rel]
  have ok: "link_index_ok th" using R(7) [of ?p th] single by simp
  obtain l where l: "links s th = Some l" "link_next l = th"
    using ring_head [of "links s" th "[]"] R(4) [of ?p] single by auto
  define s' where "s' = s\<lparr>queue_heads := ?hs, links := (links s)(th := None),
      highest_ready_priority := (if ?p = highest_ready_priority s
        then (case rposition (\<lambda>h. h \<noteq> None) (take ?p ?hs) of None \<Rightarrow> 0 | Some i \<Rightarrow> i)
        else highest_ready_priority s)\<rparr>"
  have "sched_rel s' (Q(?p := []))"
    using rel priority_index_bound
  proof (rule sched_rel_update)
    show "highest_ok (queue_heads s') (highest_ready_priority s')"
      using highest_ok_clear [OF R(8), of ?p] R(1) by (simp add: s'_def)
  qed (auto simp: single s'_def ring_def)
  moreover have "park_thread s th prio = Ok s'"
    using l ok not_irq [OF ok] by (simp add: park_thread_def link_ops Let_def s'_def)
  ultimately show ?thesis by blast
qed

lemma park_thread_many:
  assumes rel: "sched_rel s Q" and th: "th \<in> set (Q (priority_index prio))"
    and many: "remove1 th (Q (priority_index prio)) \<noteq> []"
  shows "\<exists>s'. park_thread s th prio = Ok s' \<and>
    sched_rel s' (Q(priority_index prio := remove1 th (Q (priority_index prio))))"
proof -
  let ?p = "priority_index prio" and ?xs = "Q (priority_index prio)"
  note R = sched_relD [OF rel]
  have dist: "distinct ?xs" and rng: "ring (links s) ?xs" using R(3,4) by simp_all
  obtain l where l: "links s th = Some l" "link_next l \<noteq> th" "link_prev l \<noteq> th"
    and nb: "link_next l \<in> set ?xs" "link_prev l \<in> set ?xs"
    and ring': "ring (unlinked (links s) th l) (remove1 th ?xs)"
    and head: "hd (remove1 th ?xs) = (if hd ?xs = th then link_next l else hd ?xs)"
    using ring_unlinked [OF rng dist th many] .
  have ok: "link_index_ok t" if "t \<in> set ?xs" for t using R(7) [of ?p t] that by simp
  obtain lp ln where lp: "links s (link_prev l) = Some lp" and ln: "links s (link_next l) = Some ln"
    using ring_linked [OF rng nb(1)] ring_linked [OF rng nb(2)] by blast
  have hd_p: "queue_heads s ! ?p = Some (hd ?xs)" using R(2) [of ?p] th by (cases ?xs) auto
  define s' where "s' = s\<lparr>queue_heads := (queue_heads s)[?p := Some (hd (remove1 th ?xs))],
      links := unlinked (links s) th l\<rparr>"
  have rm: "set (remove1 th ?xs) = set ?xs - {th}" using dist by simp
  have "sched_rel s' (Q(?p := remove1 th ?xs))"
    using rel priority_index_bound
  proof (rule sched_rel_update)
    show "queue_heads s' = (queue_heads s)[?p := (case remove1 th ?xs of [] \<Rightarrow> None | x # _ \<Rightarrow> Some x)]"
      using many by (cases "remove1 th ?xs") (auto simp: s'_def)
    show "links s' t = links s t" if "t \<notin> set ?xs \<union> set (remove1 th ?xs)" for t
      using that th nb unlinked_other [of t th l] by (auto simp: s'_def)
    show "links s' t = None" if "t \<in> set ?xs - set (remove1 th ?xs)" for t
      using that rm l unlinked_self [of l th] by (simp add: s'_def)
    show "t \<notin> set (Q q)" if "q < NUM_PRIORITIES" "q \<noteq> ?p" "t \<in> set (remove1 th ?xs)" for q t
      using R(5) [OF that(1) priority_index_bound that(2)] that(3) rm by blast
    show "highest_ok (queue_heads s') (highest_ready_priority s')"
      using highest_ok_replace [OF R(8)] R(1) hd_p by (simp add: s'_def)
    show "distinct (remove1 th ?xs)" using dist by simp
    show "ring (links s') (remove1 th ?xs)" using ring' by (simp add: s'_def)
    show "link_index_ok t" if "t \<in> set (remove1 th ?xs)" for t
      using ok [of t] that rm by simp
  qed
  moreover have "park_thread s th prio = Ok s'"
    using l ok [OF th] ok [OF nb(1)] ok [OF nb(2)] not_irq [OF ok [OF th]] lp ln head hd_p
      list_update_id [of "queue_heads s" ?p]
    by (cases "link_next l = link_prev l")
      (auto simp: park_thread_def link_ops Let_def s'_def unlinked_def)
  ultimately show ?thesis by blast
qed

lemma park_thread_rel:
  assumes "sched_rel s Q" "th \<in> set (Q (priority_index prio))"
  shows "\<exists>s'. park_thread s th prio = Ok s' \<and>
    sched_rel s' (Q(priority_index prio := remove1 th (Q (priority_index prio))))"
proof (cases "remove1 th (Q (priority_index prio)) = []")
  case True
  then have "Q (priority_index prio) = [th]"
    using assms(2) by (cases "Q (priority_index prio)") (auto split: if_splits)
  then show ?thesis using park_thread_single [OF assms(1), of prio th] by simp
qed (rule park_thread_many [OF assms])

lemma park_thread_unlinked:
  assumes "sched_rel s Q" "link_index_ok th" "\<And>q. q < NUM_PRIORITIES \<Longrightarrow> th \<notin> set (Q q)"
  shows "park_thread s th prio = Panic"
proof -
  have "links s th = None" using sched_relD(6) [OF assms(1), of th] assms(3) by blast
  then show ?thesis
    using assms(2) not_irq [OF assms(2)] by (simp add: park_thread_def link_ops)
qed

lemma yield_thread_rel:
  assumes rel: "sched_rel s Q" and Cons: "Q (priority_index prio) = th # ys"
  shows "\<exists>s'. yield_thread s th prio = Ok s' \<and> sched_rel s' (Q(priority_index prio := ys @ [th]))"
proof -
  let ?p = "priority_index prio"
  note R = sched_relD [OF rel]
  obtain l where l: "links s th = Some l" "link_next l = hd (ys @ [th])"
    using ring_head [of "links s" th ys] R(4) [of ?p] Cons by auto
  have ok: "link_index_ok th" using R(7) [of ?p th] Cons by simp
  define s' where "s' = s\<lparr>queue_heads := (queue_heads s)[?p := Some (hd (ys @ [th]))]\<rparr>"
  have "sched_rel s' (Q(?p := ys @ [th]))"
    using rel priority_index_bound
  proof (rule sched_rel_update)
    show "queue_heads s' = (queue_heads s)[?p := (case ys @ [th] of [] \<Rightarrow> None | x # _ \<Rightarrow> Some x)]"
      by (cases ys) (simp_all add: s'_def)
    show "ring (links s') (ys @ [th])"
      using ring_rotate [of "links s" 1 "th # ys"] R(4) [of ?p] Cons by (simp add: s'_def)
    show "highest_ok (queue_heads s') (highest_ready_priority s')"
      using highest_ok_replace [OF R(8), of ?p] R(1) R(2) [of ?p] Cons by (simp add: s'_def)
    show "distinct (ys @ [th])" using R(3) [of ?p] Cons by simp
    show "t \<notin> set (Q q)" if "q < NUM_PRIORITIES" "q \<noteq> ?p" "t \<in> set (ys @ [th])" for q t
    proof -
      have "set (ys @ [th]) = set (Q ?p)" using Cons by simp
      then show ?thesis using R(5) [OF that(1) priority_index_bound that(2)] that(3) by blast
    qed
    show "link_index_ok t" if "t \<in> set (ys @ [th])" for t
      using R(7) [of ?p t] that Cons by simp
  qed (use Cons in \<open>auto simp: s'_def\<close>)
  moreover have "yield_thread s th prio = Ok s'"
    using l ok R(2) [of ?p] Cons by (simp add: yield_thread_def link_ops s'_def)
  ultimately show ?thesis by blast
qed

lemma yield_thread_not_head:
  assumes "sched_rel s Q" "Q (priority_index prio) = [] \<or> hd (Q (priority_index prio)) \<noteq> th"
  shows "yield_thread s th prio = Ok s"
  using sched_relD(2) [OF assms(1), of "priority_index prio"] assms(2)
  by (auto simp: yield_thread_def split: list.splits)

text \<open>The thread that runs next heads the highest queue that is not empty.\<close>

definition highest_head :: "(nat \<Rightarrow> thread list) \<Rightarrow> thread option" where
  "highest_head Q =
    (case find (\<lambda>p. Q p \<noteq> []) (rev [0 ..< NUM_PRIORITIES]) of
       None \<Rightarrow> None | Some p \<Rightarrow> Some (hd (Q p)))"

lemma find_rev_upt:
  assumes "m < n" "P m" "\<And>i. m < i \<Longrightarrow> i < n \<Longrightarrow> \<not> P i"
  shows "find P (rev [0 ..< n]) = Some m"
  using assms
proof (induction n)
  case (Suc n)
  then show ?case by (cases "m = n") auto
qed simp

lemma next_thread_rel:
  assumes rel: "sched_rel s Q"
  shows "next_thread s = highest_head Q"
proof -
  note R = sched_relD [OF rel]
  let ?m = "highest_ready_priority s"
  have m: "?m < NUM_PRIORITIES" "?m \<noteq> 0 \<Longrightarrow> Q ?m \<noteq> []"
    using R(8) R(1) R(2) [of ?m] by (auto simp: highest_ok_def split: list.splits)
  have above: "Q i = []" if "?m < i" "i < NUM_PRIORITIES" for i
    using R(8) R(1) R(2) [of i] that by (auto simp: highest_ok_def split: list.splits)
  show ?thesis
  proof (cases "Q ?m")
    case Nil
    then have "?m = 0" using m by blast
    then have "Q i = []" if "i < NUM_PRIORITIES" for i using above [of i] that Nil by (cases "i = 0") auto
    then have "find (\<lambda>p. Q p \<noteq> []) (rev [0 ..< NUM_PRIORITIES]) = None"
      by (auto simp: find_None_iff)
    then show ?thesis using R(2) [OF m(1)] Nil by (simp add: next_thread_def highest_head_def)
  next
    case (Cons x xs)
    then have "find (\<lambda>p. Q p \<noteq> []) (rev [0 ..< NUM_PRIORITIES]) = Some ?m"
      using find_rev_upt [of ?m NUM_PRIORITIES "\<lambda>p. Q p \<noteq> []"] m(1) above by simp
    then show ?thesis using R(2) [OF m(1)] Cons by (simp add: next_thread_def highest_head_def)
  qed
qed

section \<open>Reading the lists back\<close>

text \<open>
  \<open>ready_list s p\<close> follows the links from the head of queue \<open>p\<close>.  The table has
  \<open>MAX_PROCESS_COUNT * MAX_THREAD_COUNT\<close> cells, so no circle is longer than that.
\<close>

fun walk :: "(thread \<Rightarrow> scheduler_link option) \<Rightarrow> thread \<Rightarrow> thread \<Rightarrow> nat \<Rightarrow> thread list" where
  "walk L stop cur 0 = []"
| "walk L stop cur (Suc n) =
    cur # (case L cur of
             None \<Rightarrow> []
           | Some l \<Rightarrow> if link_next l = stop then [] else walk L stop (link_next l) n)"

definition ready_list :: "scheduler \<Rightarrow> nat \<Rightarrow> thread list" where
  "ready_list s p =
    (if p < NUM_PRIORITIES then
       case queue_heads s ! p of
         None \<Rightarrow> [] | Some h \<Rightarrow> walk (links s) h h (MAX_PROCESS_COUNT * MAX_THREAD_COUNT)
     else [])"

definition sched_inv :: "scheduler \<Rightarrow> bool" where
  "sched_inv s \<longleftrightarrow> sched_rel s (ready_list s)"

lemma walk_ring:
  assumes "ring L (x # as @ y # bs)" "distinct (x # as @ y # bs)" "length (y # bs) \<le> n"
  shows "walk L x y n = y # bs"
  using assms
proof (induction bs arbitrary: as y n)
  case Nil
  then obtain m where n: "n = Suc m" by (cases n) auto
  have "(y, x) \<in> ring_edges (x # as @ [y])" by (simp add: ring_edges.simps(2))
  then obtain l where "L y = Some l" "link_next l = x" using ring_edgeD(1) [OF Nil.prems(1)] by blast
  then show ?case by (simp add: n)
next
  case (Cons z bs)
  then obtain m where n: "n = Suc m" by (cases n) auto
  have "(y, z) \<in> set (zip ((x # as) @ y # z # bs) (tl ((x # as) @ y # z # bs)))"
    by (rule in_set_zip [THEN iffD2], rule exI [of _ "length (x # as)"]) (simp add: nth_append)
  then have "(y, z) \<in> ring_edges (x # as @ y # z # bs)" by (simp add: ring_edges.simps(2))
  then obtain l where "L y = Some l" "link_next l = z" using ring_edgeD(1) [OF Cons.prems(1)] by blast
  moreover have "walk L x z m = z # bs"
    using Cons.IH [of "as @ [y]" z m] Cons.prems n by simp
  ultimately show ?case using Cons.prems(2) by (auto simp: n)
qed

lemma walk_whole_ring:
  assumes "ring L (x # ys)" "distinct (x # ys)" "length (x # ys) \<le> n"
  shows "walk L x x n = x # ys"
proof (cases ys)
  case Nil
  then obtain l where "L x = Some l" "link_next l = x" using ring_head [OF assms(1)] by auto
  then show ?thesis using assms(3) Nil by (cases n) auto
next
  case (Cons y zs)
  obtain m where n: "n = Suc m" using assms(3) by (cases n) auto
  obtain l where "L x = Some l" "link_next l = y" using ring_head [OF assms(1)] Cons by auto
  then show ?thesis using walk_ring [of L x "[]" y zs m] assms Cons by (auto simp: n)
qed

lemma table_bound:
  assumes "distinct xs" "\<And>t. t \<in> set xs \<Longrightarrow> link_index_ok t"
  shows "length xs \<le> MAX_PROCESS_COUNT * MAX_THREAD_COUNT"
proof -
  define cell where "cell = (\<lambda>t :: thread. (unat (nz_get (fst t)), snd t))"
  have inj: "inj_on cell (set xs)"
    by (auto simp: inj_on_def cell_def word_unat_eq_iff [symmetric])
  have "cell t \<in> {1 .. MAX_PROCESS_COUNT} \<times> {1 .. MAX_THREAD_COUNT}" if "t \<in> set xs" for t
  proof -
    have "unat (nz_get (fst t)) \<noteq> 0" by (metis nz_get_nonzero unat_eq_zero)
    then show ?thesis using assms(2) [OF that] by (simp add: cell_def link_index_ok_def)
  qed
  then have "cell ` set xs \<subseteq> {1 .. MAX_PROCESS_COUNT} \<times> {1 .. MAX_THREAD_COUNT}" by blast
  then have "card (cell ` set xs) \<le> MAX_PROCESS_COUNT * MAX_THREAD_COUNT"
    using card_mono [of "{1 .. MAX_PROCESS_COUNT} \<times> {1 .. MAX_THREAD_COUNT}" "cell ` set xs"]
    by (simp add: card_cartesian_product)
  then show ?thesis using assms(1) card_image [OF inj] by (simp add: distinct_card)
qed

lemma ready_list_rel:
  assumes rel: "sched_rel s Q" and p: "p < NUM_PRIORITIES"
  shows "ready_list s p = Q p"
proof (cases "Q p")
  case Nil
  then show ?thesis using sched_relD(2) [OF rel p] p by (simp add: ready_list_def)
next
  case (Cons x ys)
  note R = sched_relD [OF rel]
  have "length (Q p) \<le> MAX_PROCESS_COUNT * MAX_THREAD_COUNT"
    using table_bound [of "Q p"] R(3) [OF p] R(7) [OF p] by blast
  then have "walk (links s) x x (MAX_PROCESS_COUNT * MAX_THREAD_COUNT) = x # ys"
    using walk_whole_ring [of "links s" x ys] R(3,4) [OF p] Cons by simp
  then show ?thesis using R(2) [OF p] p Cons by (simp add: ready_list_def)
qed

lemma sched_rel_cong:
  assumes "\<And>p. p < NUM_PRIORITIES \<Longrightarrow> Q p = Q' p"
  shows "sched_rel s Q = sched_rel s Q'"
  unfolding sched_rel_def using assms by (simp cong: conj_cong all_cong)

lemma sched_rel_inv: "sched_rel s Q \<Longrightarrow> sched_inv s"
  unfolding sched_inv_def using sched_rel_cong [of "ready_list s" Q s] ready_list_rel by blast

section \<open>Sequences of operations\<close>

datatype sched_op =
    ReadyOp thread thread_priority
  | ParkOp thread thread_priority
  | YieldOp thread thread_priority

fun sched_apply :: "scheduler \<Rightarrow> sched_op \<Rightarrow> scheduler kresult" where
  "sched_apply s (ReadyOp th prio) = ready_thread s th prio"
| "sched_apply s (ParkOp th prio) = park_thread s th prio"
| "sched_apply s (YieldOp th prio) = yield_thread s th prio"

fun sched_run :: "scheduler \<Rightarrow> sched_op list \<Rightarrow> scheduler kresult" where
  "sched_run s [] = Ok s"
| "sched_run s (x # xs) = obind (sched_apply s x) (\<lambda>s'. sched_run s' xs)"

text \<open>The specification: the same operations on sixteen plain lists.\<close>

fun lists_apply :: "(nat \<Rightarrow> thread list) \<Rightarrow> sched_op \<Rightarrow> (nat \<Rightarrow> thread list)" where
  "lists_apply Q (ReadyOp th prio) =
    Q(priority_index prio := Q (priority_index prio) @ [th])"
| "lists_apply Q (ParkOp th prio) =
    Q(priority_index prio := remove1 th (Q (priority_index prio)))"
| "lists_apply Q (YieldOp th prio) =
    (if Q (priority_index prio) \<noteq> [] \<and> hd (Q (priority_index prio)) = th
     then Q(priority_index prio := rotate1 (Q (priority_index prio))) else Q)"

fun op_legal :: "(nat \<Rightarrow> thread list) \<Rightarrow> sched_op \<Rightarrow> bool" where
  "op_legal Q (ReadyOp th prio) \<longleftrightarrow>
    link_index_ok th \<and> list_all (\<lambda>q. th \<notin> set (Q q)) [0 ..< NUM_PRIORITIES]"
| "op_legal Q (ParkOp th prio) \<longleftrightarrow> th \<in> set (Q (priority_index prio))"
| "op_legal Q (YieldOp th prio) \<longleftrightarrow> True"

fun ops_legal :: "(nat \<Rightarrow> thread list) \<Rightarrow> sched_op list \<Rightarrow> bool" where
  "ops_legal Q [] \<longleftrightarrow> True"
| "ops_legal Q (x # xs) \<longleftrightarrow> op_legal Q x \<and> ops_legal (lists_apply Q x) xs"

lemma sched_apply_rel:
  assumes rel: "sched_rel s Q" and legal: "op_legal Q x"
  shows "\<exists>s'. sched_apply s x = Ok s' \<and> sched_rel s' (lists_apply Q x)"
proof (cases x)
  case (ReadyOp th prio)
  then show ?thesis using ready_thread_rel [OF rel, of th prio] legal by (auto simp: list_all_iff)
next
  case (ParkOp th prio)
  then show ?thesis using park_thread_rel [OF rel, of th prio] legal by simp
next
  case (YieldOp th prio)
  let ?xs = "Q (priority_index prio)"
  show ?thesis
  proof (cases "?xs \<noteq> [] \<and> hd ?xs = th")
    case True
    then obtain ys where "?xs = th # ys" by (cases ?xs) auto
    then show ?thesis using yield_thread_rel [OF rel, of prio th ys] YieldOp by simp
  next
    case False
    then show ?thesis using yield_thread_not_head [OF rel, of prio th] rel YieldOp by auto
  qed
qed

lemma sched_run_rel:
  "sched_rel s Q \<Longrightarrow> ops_legal Q xs \<Longrightarrow>
     \<exists>s'. sched_run s xs = Ok s' \<and> sched_rel s' (foldl lists_apply Q xs)"
proof (induction xs arbitrary: s Q)
  case (Cons x xs)
  then obtain t where "sched_apply s x = Ok t" "sched_rel t (lists_apply Q x)"
    using sched_apply_rel by fastforce
  then show ?case using Cons by auto
qed auto

section \<open>Round robin\<close>

text \<open>The running thread of a priority gives up the processor.\<close>

definition yield_front :: "scheduler \<Rightarrow> thread_priority \<Rightarrow> scheduler option" where
  "yield_front s prio =
    (case queue_heads s ! priority_index prio of
       None \<Rightarrow> None
     | Some th \<Rightarrow> (case yield_thread s th prio of Ok s' \<Rightarrow> Some s' | _ \<Rightarrow> None))"

definition ready_at :: "scheduler \<Rightarrow> thread_priority \<Rightarrow> thread list" where
  "ready_at s prio = ready_list s (priority_index prio)"

interpretation ready_rotation: rotating_queues sched_inv ready_at yield_front
proof
  fix s prio
  assume inv: "sched_inv s" and ne: "ready_at s prio \<noteq> []"
  let ?p = "priority_index prio" and ?Q = "ready_list s"
  have rel: "sched_rel s ?Q" using inv by (simp add: sched_inv_def)
  obtain th ys where Cons: "?Q ?p = th # ys" using ne by (cases "?Q ?p") (auto simp: ready_at_def)
  obtain s' where s': "yield_thread s th prio = Ok s'" "sched_rel s' (?Q(?p := ys @ [th]))"
    using yield_thread_rel [OF rel Cons] by blast
  have "ready_at s' = (ready_at s)(prio := rotate1 (ready_at s prio))"
    using ready_list_rel [OF s'(2)] Cons by (auto simp: ready_at_def fun_eq_iff)
  moreover have "yield_front s prio = Some s'"
    using s' sched_relD(2) [OF rel, of ?p] Cons by (simp add: yield_front_def)
  ultimately show "\<exists>s'. yield_front s prio = Some s' \<and> sched_inv s' \<and>
      ready_at s' = (ready_at s)(prio := rotate1 (ready_at s prio))"
    using sched_rel_inv [OF s'(2)] by blast
qed

section \<open>Properties\<close>

definition th_of :: "u8 \<Rightarrow> nat \<Rightarrow> thread" where
  "th_of p t = (nz_lit p, t)"

definition sample_ops :: "sched_op list" where
  "sample_ops =
    [ReadyOp (th_of 2 1) AppDefault, ReadyOp (th_of 3 1) AppDefault, ReadyOp (th_of 4 2) System0,
     YieldOp (th_of 2 1) AppDefault, ReadyOp (th_of 5 1) AppDefault, ParkOp (th_of 4 2) System0,
     ParkOp (th_of 2 1) AppDefault]"

definition sample_scheduler :: scheduler where
  "sample_scheduler = (case sched_run scheduler_init sample_ops of Ok s \<Rightarrow> s | _ \<Rightarrow> scheduler_init)"

text \<open>
  Property C4: starting from the empty scheduler, any sequence of readying threads
  that are in no queue, parking threads that are in the queue of the given
  priority, and yielding arbitrary threads runs without a panic, and the circular
  linked lists then hold exactly the lists that appending, removing and rotating
  plain lists gives; the thread chosen to run is the head of the highest
  non-empty list.
\<close>

theorem scheduler_refines_lists:
  assumes "ops_legal (\<lambda>_. []) xs"
  shows "\<exists>s. sched_run scheduler_init xs = Ok s \<and>
    (\<forall>p<NUM_PRIORITIES. ready_list s p = foldl lists_apply (\<lambda>_. []) xs p) \<and>
    next_thread s = highest_head (foldl lists_apply (\<lambda>_. []) xs)"
  using sched_run_rel [OF sched_rel_init assms] ready_list_rel next_thread_rel by blast

theorem scheduler_refines_lists_witness:
  "ops_legal (\<lambda>_. []) sample_ops \<and>
   (\<exists>s. sched_run scheduler_init sample_ops = Ok s \<and>
     ready_list s (priority_index AppDefault) = [th_of 3 1, th_of 5 1] \<and>
     next_thread s = Some (th_of 3 1))"
proof -
  have legal: "ops_legal (\<lambda>_. []) sample_ops" by code_simp
  obtain s where s: "sched_run scheduler_init sample_ops = Ok s"
      "\<forall>p<NUM_PRIORITIES. ready_list s p = foldl lists_apply (\<lambda>_. []) sample_ops p"
      "next_thread s = highest_head (foldl lists_apply (\<lambda>_. []) sample_ops)"
    using scheduler_refines_lists [OF legal] by blast
  have "foldl lists_apply (\<lambda>_. []) sample_ops (priority_index AppDefault) = [th_of 3 1, th_of 5 1]"
    "highest_head (foldl lists_apply (\<lambda>_. []) sample_ops) = Some (th_of 3 1)"
    by code_simp+
  then show ?thesis using legal s priority_index_bound by metis
qed

text \<open>
  Property C21: round robin.  In a well-formed scheduler every thread ready at a
  priority reaches the front of its queue after fewer yields than there are ready
  threads of that priority; no yield on the way panics.
\<close>

theorem ready_thread_gets_its_turn:
  assumes "sched_inv s" "th \<in> set (ready_list s (priority_index prio))"
  shows "\<exists>n s'. n < length (ready_list s (priority_index prio)) \<and>
    yield_times yield_front n s prio = Some s' \<and>
    queue_heads s' ! priority_index prio = Some th"
proof -
  obtain n s' where n: "n < length (ready_at s prio)" "yield_times yield_front n s prio = Some s'"
      "hd (ready_at s' prio) = th"
    using ready_rotation.every_member_served [OF assms(1), of th prio] assms(2)
    by (auto simp: ready_at_def)
  moreover have "queue_heads s' ! priority_index prio = Some (hd (ready_at s' prio))"
  proof -
    have "ready_at s prio \<noteq> []" using n(1) by auto
    then have "sched_rel s' (ready_list s')" "ready_at s' prio \<noteq> []"
      using ready_rotation.yields_rotate [OF assms(1), of prio n] n(2) by (auto simp: sched_inv_def)
    then show ?thesis
      using sched_relD(2) [of s' "ready_list s'" "priority_index prio"]
      by (auto simp: ready_at_def split: list.splits)
  qed
  ultimately show ?thesis by (auto simp: ready_at_def)
qed

lemma sample_scheduler_inv: "sched_inv sample_scheduler"
proof -
  have "ops_legal (\<lambda>_. []) sample_ops" by code_simp
  then obtain s where "sched_run scheduler_init sample_ops = Ok s"
      "sched_rel s (foldl lists_apply (\<lambda>_. []) sample_ops)"
    using sched_run_rel [OF sched_rel_init] by blast
  then show ?thesis using sched_rel_inv by (simp add: sample_scheduler_def)
qed

theorem ready_thread_gets_its_turn_witness:
  "sched_inv sample_scheduler \<and> th_of 5 1 \<in> set (ready_list sample_scheduler (priority_index AppDefault)) \<and>
   (\<exists>n s'. n < 2 \<and> yield_times yield_front n sample_scheduler AppDefault = Some s' \<and>
      queue_heads s' ! priority_index AppDefault = Some (th_of 5 1))"
proof -
  have list: "ready_list sample_scheduler (priority_index AppDefault) = [th_of 3 1, th_of 5 1]"
    by code_simp
  then show ?thesis
    using ready_thread_gets_its_turn [OF sample_scheduler_inv, of "th_of 5 1" AppDefault]
      sample_scheduler_inv by (simp add: numeral_2_eq_2)
qed

lemma park_thread_linked:
  assumes rel: "sched_rel s Q" and q: "q < NUM_PRIORITIES" "th \<in> set (Q q)"
  shows "\<exists>s'. park_thread s th prio = Ok s'"
proof -
  note R = sched_relD [OF rel]
  have ok: "link_index_ok t" if "t \<in> set (Q q)" for t using R(7) [of q t] that q(1) by simp
  show ?thesis
  proof (cases "remove1 th (Q q) = []")
    case True
    then have "Q q = [th]" using q(2) by (cases "Q q") (auto split: if_splits)
    then obtain l where "links s th = Some l" "link_next l = th"
      using ring_head [of "links s" th "[]"] R(4) [OF q(1)] by auto
    then show ?thesis
      using ok [OF q(2)] not_irq by (simp add: park_thread_def link_ops Let_def)
  next
    case False
    obtain l where l: "links s th = Some l" "link_next l \<noteq> th" "link_prev l \<noteq> th"
      and nb: "link_next l \<in> set (Q q)" "link_prev l \<in> set (Q q)"
      using ring_unlinked [OF R(4) [OF q(1)] R(3) [OF q(1)] q(2) False] .
    obtain lp ln where "links s (link_prev l) = Some lp" "links s (link_next l) = Some ln"
      using ring_linked [OF R(4) [OF q(1)] nb(1)] ring_linked [OF R(4) [OF q(1)] nb(2)] by blast
    then show ?thesis
      using l ok [OF q(2)] ok [OF nb(1)] ok [OF nb(2)] not_irq [OF ok [OF q(2)]]
      by (cases "link_next l = link_prev l") (auto simp: park_thread_def link_ops Let_def)
  qed
qed

text \<open>
  Property C35: which misuse the scheduler detects.  For a thread with a cell in
  the table, parking panics exactly when the thread is in no queue.  Readying
  panics exactly when the thread is already in some queue and the queue it is
  added to is not empty: a second \<open>ready_thread\<close> into an empty queue is accepted.
\<close>

theorem misuse_panics_iff:
  assumes "sched_inv s" "link_index_ok th"
  shows "(park_thread s th prio = Panic \<longleftrightarrow> (\<forall>q<NUM_PRIORITIES. th \<notin> set (ready_list s q))) \<and>
    (ready_thread s th prio = Panic \<longleftrightarrow>
      (\<exists>q<NUM_PRIORITIES. th \<in> set (ready_list s q)) \<and> ready_list s (priority_index prio) \<noteq> [])"
proof
  have rel: "sched_rel s (ready_list s)" using assms(1) by (simp add: sched_inv_def)
  show "park_thread s th prio = Panic \<longleftrightarrow> (\<forall>q<NUM_PRIORITIES. th \<notin> set (ready_list s q))"
    using park_thread_unlinked [OF rel assms(2), of prio] park_thread_linked [OF rel, of _ th prio]
    by (metis outcome.distinct(3))
  have empty: "ready_thread s th prio \<noteq> Panic" if "ready_list s (priority_index prio) = []"
    using that sched_relD(2) [OF rel, of "priority_index prio"] assms(2) not_irq [OF assms(2)]
    by (simp add: ready_thread_def link_ops Let_def)
  show "ready_thread s th prio = Panic \<longleftrightarrow>
      (\<exists>q<NUM_PRIORITIES. th \<in> set (ready_list s q)) \<and> ready_list s (priority_index prio) \<noteq> []"
    using empty ready_thread_linked [OF rel, of _ th prio] ready_thread_rel [OF rel assms(2), of prio]
    by (metis outcome.distinct(3))
qed

theorem misuse_panics_iff_witness:
  "sched_inv sample_scheduler \<and> link_index_ok (th_of 9 1) \<and>
   park_thread sample_scheduler (th_of 9 1) System0 = Panic \<and>
   ready_thread sample_scheduler (th_of 3 1) AppDefault = Panic \<and>
   ready_thread sample_scheduler (th_of 3 1) System0 \<noteq> Panic"
proof -
  have ok: "link_index_ok (th_of 9 1)" "link_index_ok (th_of 3 1)" by code_simp+
  have "list_all (\<lambda>q. th_of 9 1 \<notin> set (ready_list sample_scheduler q)) [0 ..< NUM_PRIORITIES]"
    by code_simp
  then have out: "\<forall>q<NUM_PRIORITIES. th_of 9 1 \<notin> set (ready_list sample_scheduler q)"
    by (simp add: list_all_iff)
  have inq: "th_of 3 1 \<in> set (ready_list sample_scheduler (priority_index AppDefault))"
    and sys0: "ready_list sample_scheduler (priority_index System0) = []" by code_simp+
  then have ne: "ready_list sample_scheduler (priority_index AppDefault) \<noteq> []" by auto
  show ?thesis
    using misuse_panics_iff [OF sample_scheduler_inv ok(1), of System0] out
      misuse_panics_iff [OF sample_scheduler_inv ok(2), of AppDefault]
      misuse_panics_iff [OF sample_scheduler_inv ok(2), of System0]
      sample_scheduler_inv ok inq sys0 ne priority_index_bound by blast
qed

end
