(* ===== verification/Platform_Config.thy ===== *)
theory Platform_Config
  imports Kernel_Prelude
begin

text \<open>
  The platform constants of \<open>beetos/src/lib.rs\<close> in the configuration the kernel
  defaults to (\<open>platform-qemu-virt\<close>, 16 KiB pages): RAM layout, the regions of the
  user address space, and the linear map of the kernel half.
\<close>

definition PAGE_SIZE :: nat where "PAGE_SIZE = 16384"
definition RAM_SIZE :: nat where "RAM_SIZE = 1 * 1024 * 1024 * 1024"
definition RAM_PAGES :: nat where "RAM_PAGES = RAM_SIZE div PAGE_SIZE"

definition PLAINTEXT_DRAM_BASE :: usize where "PLAINTEXT_DRAM_BASE = 0x40000000"
definition PLAINTEXT_DRAM_END :: usize where
  "PLAINTEXT_DRAM_END = PLAINTEXT_DRAM_BASE + of_nat RAM_SIZE"
definition ENCRYPTED_DRAM_BASE :: usize where "ENCRYPTED_DRAM_BASE = PLAINTEXT_DRAM_BASE"
definition ENCRYPTED_DRAM_END :: usize where "ENCRYPTED_DRAM_END = PLAINTEXT_DRAM_END"

definition to_plaintext_phys_addr :: "usize \<Rightarrow> usize" where
  "to_plaintext_phys_addr addr = addr"

definition is_address_encrypted :: "usize \<Rightarrow> bool" where
  "is_address_encrypted addr \<longleftrightarrow> PLAINTEXT_DRAM_BASE \<le> addr \<and> addr < PLAINTEXT_DRAM_END"

definition is_address_in_plaintext_dram :: "usize \<Rightarrow> bool" where
  "is_address_in_plaintext_dram addr \<longleftrightarrow> PLAINTEXT_DRAM_BASE \<le> addr \<and> addr < PLAINTEXT_DRAM_END"

definition MMAP_AREA_VIRT :: usize where "MMAP_AREA_VIRT = 0x300000000000"
definition MMAP_AREA_VIRT_END :: usize where "MMAP_AREA_VIRT_END = 0x400000000000"
definition MEMORY_MIRROR_AREA_VIRT :: usize where "MEMORY_MIRROR_AREA_VIRT = 0x400000000000"
definition USER_STACK_BOTTOM :: usize where "USER_STACK_BOTTOM = 0x6FF000000000"
definition STACK_PAGE_COUNT :: nat where "STACK_PAGE_COUNT = 256"
definition USER_AREA_END :: usize where "USER_AREA_END = 0x700000000000"
definition KERNEL_VA_OFFSET :: usize where "KERNEL_VA_OFFSET = 0xFFFF800000000000"

definition phys_to_virt :: "usize \<Rightarrow> usize" where
  "phys_to_virt pa = pa + KERNEL_VA_OFFSET"

definition kernel_virt_to_phys :: "usize \<Rightarrow> usize" where
  "kernel_virt_to_phys va = va - KERNEL_VA_OFFSET"

lemma kernel_virt_to_phys_to_virt [simp]: "kernel_virt_to_phys (phys_to_virt pa) = pa"
  by (simp add: kernel_virt_to_phys_def phys_to_virt_def)

lemma RAM_PAGES_value: "RAM_PAGES = 65536"
  by (simp add: RAM_PAGES_def RAM_SIZE_def PAGE_SIZE_def)

text \<open>The physical address of a page of RAM, and back.\<close>

definition page_phys :: "nat \<Rightarrow> usize" where
  "page_phys idx = ENCRYPTED_DRAM_BASE + of_nat idx * of_nat PAGE_SIZE"

lemma unat_page_phys:
  assumes "idx < RAM_PAGES"
  shows "unat (page_phys idx) = 0x40000000 + idx * PAGE_SIZE"
proof -
  have lt: "0x40000000 + idx * PAGE_SIZE < 2 ^ 64"
    using assms by (simp add: RAM_PAGES_value PAGE_SIZE_def)
  have eq: "page_phys idx = of_nat (0x40000000 + idx * PAGE_SIZE)"
    unfolding page_phys_def ENCRYPTED_DRAM_BASE_def PLAINTEXT_DRAM_BASE_def
    by (simp only: of_nat_add of_nat_mult of_nat_numeral)
  show ?thesis unfolding eq using lt by (rule unat_of_nat_usize)
qed

lemma page_phys_inject:
  assumes "i < RAM_PAGES" "j < RAM_PAGES" "page_phys i = page_phys j"
  shows "i = j"
proof -
  have "i * PAGE_SIZE = j * PAGE_SIZE"
    using arg_cong [OF assms(3), of unat] unfolding unat_page_phys [OF assms(1)] unat_page_phys [OF assms(2)]
    by (simp only: add_left_cancel)
  then show ?thesis by (simp add: PAGE_SIZE_def)
qed

end
