(* ===== verification/Thread_Contexts.thy ===== *)
theory Thread_Contexts
  imports Result_Codec Ready_Queues Platform_Config
begin

text \<open>
  The saved register contexts of all threads, \<open>PROCESS_TABLE\<close> of
  \<open>xous/kernel/src/arch/aarch64/process.rs\<close>, indexed by process id minus one and thread
  id minus one.  A method of the handle \<open>Process { pid }\<close> is a function of the table
  and that pid.
\<close>

section \<open>Contexts\<close>

record thread_context =
  gpr :: "u64 list"
  ctx_sp :: u64
  ctx_elr :: u64
  ctx_spsr :: u64
  ctx_tpidr :: u64
  ctx_fpcr :: u64
  ctx_fpsr :: u64
  vregs :: "u64 list"
  allocated :: bool
  ctx_stack :: "memory_range option"

definition thread_default :: thread_context where
  "thread_default =
    \<lparr>gpr = replicate 31 0, ctx_sp = 0, ctx_elr = 0, ctx_spsr = 0, ctx_tpidr = 0, ctx_fpcr = 0, ctx_fpsr = 0,
     vregs = replicate 64 0, allocated = False, ctx_stack = None\<rparr>"

definition set_pc :: "usize \<Rightarrow> thread_context \<Rightarrow> thread_context" where
  "set_pc pc t = t\<lparr>ctx_elr := pc\<rparr>"

definition set_sp :: "usize \<Rightarrow> thread_context \<Rightarrow> thread_context" where
  "set_sp sp t = t\<lparr>ctx_sp := sp\<rparr>"

definition get_args :: "thread_context \<Rightarrow> usize list" where
  "get_args t =
    [gpr t ! 0, gpr t ! 1, gpr t ! 2, gpr t ! 3, gpr t ! 4, gpr t ! 5, gpr t ! 8, gpr t ! 9]"

text \<open>The positions of the eight argument registers among the general-purpose ones.\<close>

definition arg_registers :: "(nat \<times> nat) list" where
  "arg_registers = [(0, 0), (1, 1), (2, 2), (3, 3), (4, 4), (5, 5), (6, 8), (7, 9)]"

definition set_args :: "usize list \<Rightarrow> thread_context \<Rightarrow> thread_context" where
  "set_args args t =
    t\<lparr>gpr := fold (\<lambda>(k, r) g. if length args > k then g[r := args ! k] else g) arg_registers (gpr t)\<rparr>"

definition processor_mode :: "thread_context \<Rightarrow> u32" where
  "processor_mode t = ucast (ctx_spsr t AND 0xF)"

definition disable_interrupts :: "thread_context \<Rightarrow> thread_context" where
  "disable_interrupts t = t\<lparr>ctx_spsr := ctx_spsr t OR 0x3C0\<rparr>"

section \<open>The table\<close>

record process_impl =
  threads :: "thread_context list"
  current_thread :: nat

type_synonym process_table = "process_impl option list"

definition INITIAL_TID :: nat where "INITIAL_TID = 1"

definition pid_index :: "pid \<Rightarrow> nat" where
  "pid_index p = unat (nz_get p) - 1"

text \<open>\<open>PROCESS_TABLE[idx]\<close>, which panics out of bounds, for reading and for writing.\<close>

definition table_slot :: "process_table \<Rightarrow> pid \<Rightarrow> process_impl option kresult" where
  "table_slot tab p = (if pid_index p < length tab then Ok (tab ! pid_index p) else Panic)"

definition table_put :: "process_table \<Rightarrow> pid \<Rightarrow> process_impl option \<Rightarrow> process_table" where
  "table_put tab p x = tab[pid_index p := x]"

definition update_thread :: "nat \<Rightarrow> (thread_context \<Rightarrow> thread_context) \<Rightarrow> process_impl \<Rightarrow> process_impl" where
  "update_thread i f pr = pr\<lparr>threads := (threads pr)[i := f (threads pr ! i)]\<rparr>"

section \<open>Operations\<close>

definition current_tid :: "process_table \<Rightarrow> pid \<Rightarrow> nat" where
  "current_tid tab p =
    (if pid_index p < length tab
     then (case tab ! pid_index p of Some pr \<Rightarrow> current_thread pr | None \<Rightarrow> INITIAL_TID)
     else INITIAL_TID)"

definition arch_set_thread_result ::
  "pid \<Rightarrow> nat \<Rightarrow> xous_result \<Rightarrow> process_table \<Rightarrow> unit kresult \<times> process_table" where
  "arch_set_thread_result p tid result tab =
    (if tid = 0 \<or> tid > MAX_THREAD_COUNT then (Ok (), tab)
     else sbind (table_slot tab p, tab) (\<lambda>slot tab.
       case slot of
         None \<Rightarrow> (Ok (), tab)
       | Some pr \<Rightarrow>
           (Ok (), table_put tab p (Some (update_thread (tid - 1) (set_args (to_args result)) pr)))))"

definition retry_swi_instruction :: "pid \<Rightarrow> nat \<Rightarrow> process_table \<Rightarrow> unit kresult \<times> process_table" where
  "retry_swi_instruction p tid tab = arch_set_thread_result p tid RetryCall tab"

definition setup_thread :: "pid \<Rightarrow> nat \<Rightarrow> thread_init \<Rightarrow> process_table \<Rightarrow> unit kresult \<times> process_table" where
  "setup_thread p tid setup tab =
    (if tid = 0 \<or> tid > MAX_THREAD_COUNT then (Err ThreadNotAvailable, tab)
     else sbind (table_slot tab p, tab) (\<lambda>slot tab.
       case slot of
         None \<Rightarrow> (Err ProcessNotFound, tab)
       | Some pr \<Rightarrow>
           if allocated (threads pr ! (tid - 1)) then (Err ThreadNotAvailable, tab)
           else
             sbind (case ti_stack setup of
                 None \<Rightarrow> (Ok 0, tab)
               | Some s \<Rightarrow> (unwrap (checked_add (as_ptr s) (memory_range_len s)), tab))
             (\<lambda>sp tab.
               let t = thread_default\<lparr>allocated := True\<rparr>;
                   t = set_sp sp (set_pc (ti_call setup) t);
                   t = t\<lparr>gpr := (gpr t)[0 := ti_arg1 setup, 1 := ti_arg2 setup, 2 := ti_arg3 setup, 3 := ti_arg4 setup],
                         ctx_spsr := 0\<rparr>
               in (Ok (), table_put tab p (Some (update_thread (tid - 1) (\<lambda>_. t) pr))))))"

definition set_tid :: "pid \<Rightarrow> nat \<Rightarrow> process_table \<Rightarrow> unit kresult \<times> process_table" where
  "set_tid p tid tab =
    (if tid = 0 \<or> tid > MAX_THREAD_COUNT then (Err ThreadNotAvailable, tab)
     else sbind (table_slot tab p, tab) (\<lambda>slot tab.
       case slot of
         None \<Rightarrow> (Err ProcessNotFound, tab)
       | Some pr \<Rightarrow>
           if \<not> allocated (threads pr ! (tid - 1)) then (Err ThreadNotAvailable, tab)
           else (Ok (), table_put tab p (Some (pr\<lparr>current_thread := tid\<rparr>)))))"

definition find_free_thread :: "process_table \<Rightarrow> pid \<Rightarrow> nat option kresult" where
  "find_free_thread tab p =
    obind (table_slot tab p) (\<lambda>slot.
      Ok (case slot of
            None \<Rightarrow> None
          | Some pr \<Rightarrow>
              map_option (\<lambda>i. i + 1) (find (\<lambda>i. \<not> allocated (threads pr ! i)) [0 ..< length (threads pr)])))"

definition thread_exists :: "process_table \<Rightarrow> pid \<Rightarrow> nat \<Rightarrow> bool kresult" where
  "thread_exists tab p tid =
    (if tid = 0 \<or> tid > MAX_THREAD_COUNT then Ok False
     else obind (table_slot tab p) (\<lambda>slot.
       Ok (case slot of None \<Rightarrow> False | Some pr \<Rightarrow> allocated (threads pr ! (tid - 1)))))"

definition destroy_thread ::
  "pid \<Rightarrow> nat \<Rightarrow> process_table \<Rightarrow> (usize \<times> memory_range option) option kresult \<times> process_table" where
  "destroy_thread p tid tab =
    (if tid = 0 \<or> tid > MAX_THREAD_COUNT then (Ok None, tab)
     else sbind (table_slot tab p, tab) (\<lambda>slot tab.
       case slot of
         None \<Rightarrow> (Ok None, tab)
       | Some pr \<Rightarrow>
           let t = threads pr ! (tid - 1) in
           if \<not> allocated t then (Ok None, tab)
           else (Ok (Some (gpr t ! 0, ctx_stack t)),
                 table_put tab p (Some (update_thread (tid - 1) (\<lambda>_. thread_default) pr)))))"

definition arch_destroy :: "pid \<Rightarrow> process_table \<Rightarrow> unit kresult \<times> process_table" where
  "arch_destroy p tab =
    sbind (table_slot tab p, tab) (\<lambda>_ tab. (Ok (), table_put tab p None))"

definition process_impl_new :: process_impl where
  "process_impl_new = \<lparr>threads = replicate MAX_THREAD_COUNT thread_default, current_thread = INITIAL_TID\<rparr>"

record process_setup =
  su_pid :: pid
  su_entry_point :: usize
  su_stack :: memory_range
  su_irq_stack :: memory_range
  su_aslr_slide :: usize

definition setup_process :: "process_setup \<Rightarrow> process_table \<Rightarrow> unit kresult \<times> process_table" where
  "setup_process setup tab =
    (if pid_index (su_pid setup) \<ge> MAX_PROCESS_COUNT then (Err OutOfMemory, tab)
     else sbind (table_slot tab (su_pid setup), tab) (\<lambda>slot tab.
       let pr = (case slot of None \<Rightarrow> process_impl_new | Some pr \<Rightarrow> pr) in
       sbind (unwrap (checked_add (as_ptr (su_stack setup)) (memory_range_len (su_stack setup))), tab) (\<lambda>sp tab.
         (Ok (), table_put tab (su_pid setup)
            (Some (update_thread (INITIAL_TID - 1)
               (\<lambda>t. (set_sp sp (set_pc (su_entry_point setup) (t\<lparr>allocated := True\<rparr>)))\<lparr>ctx_spsr := 0\<rparr>) pr))))))"

definition run_irq_handler ::
  "pid \<Rightarrow> usize \<Rightarrow> usize \<Rightarrow> usize \<Rightarrow> process_table \<Rightarrow> unit kresult \<times> process_table" where
  "run_irq_handler p pc irq_no arg tab =
    sbind (table_slot tab p, tab) (\<lambda>slot tab.
      case slot of
        None \<Rightarrow> (Ok (), tab)
      | Some pr \<Rightarrow>
          (Ok (), table_put tab p (Some (update_thread 0
             (\<lambda>t. (set_pc pc t)\<lparr>gpr := (gpr t)[0 := irq_no, 1 := arg], ctx_spsr := 0\<rparr>) pr))))"

text \<open>The register part of a context, as copied between the exception frame and the table.\<close>

definition copy_frame :: "thread_context \<Rightarrow> thread_context \<Rightarrow> thread_context" where
  "copy_frame src dst = src\<lparr>allocated := allocated dst, ctx_stack := ctx_stack dst\<rparr>"

definition save_context_to_table ::
  "pid \<Rightarrow> nat \<Rightarrow> thread_context \<Rightarrow> process_table \<Rightarrow> unit kresult \<times> process_table" where
  "save_context_to_table p tid frame tab =
    sbind (table_slot tab p, tab) (\<lambda>slot tab.
      case slot of
        None \<Rightarrow> (Ok (), tab)
      | Some pr \<Rightarrow>
          if tid - 1 \<ge> length (threads pr) then (Panic, tab)
          else (Ok (), table_put tab p (Some (update_thread (tid - 1) (copy_frame frame) pr))))"

definition load_context_from_table ::
  "process_table \<Rightarrow> pid \<Rightarrow> nat \<Rightarrow> thread_context \<Rightarrow> thread_context kresult" where
  "load_context_from_table tab p tid frame =
    obind (table_slot tab p) (\<lambda>slot.
      case slot of
        None \<Rightarrow> Ok frame
      | Some pr \<Rightarrow>
          if tid - 1 \<ge> length (threads pr) then Panic
          else Ok (copy_frame (threads pr ! (tid - 1)) frame))"

end
