(* ===== verification/Message_Permissions.thy ===== *)
theory Message_Permissions
  imports Xous_Defs
begin

text \<open>
  The message filter of a connection, \<open>MessagePermissions\<close> of
  \<open>xous/kernel/src/server.rs\<close>: a 64-bit mask for the message ids below 64 and four
  ranges for the others.  \<open>add\<close> is the whole method, including the ids it has
  already granted when it reports \<open>OutOfMemory\<close>.  The lemmas show that a
  successful \<open>add\<close> grants the requested range and nothing else.
\<close>

section \<open>The filter\<close>

definition MESSAGE_PERMISSION_COUNT :: nat where
  "MESSAGE_PERMISSION_COUNT = 4"

record message_permissions =
  allow_all :: bool
  perm_mask :: u64
  perm_list :: "(usize \<times> usize) list"

definition permissions_default :: message_permissions where
  "permissions_default =
    \<lparr>allow_all = True, perm_mask = 0, perm_list = replicate MESSAGE_PERMISSION_COUNT (0, 0)\<rparr>"

text \<open>\<open>Range::is_empty\<close> and \<open>Range::contains\<close>.\<close>

fun range_is_empty :: "usize \<times> usize \<Rightarrow> bool" where
  "range_is_empty (start, stop) \<longleftrightarrow> \<not> start < stop"

fun range_contains :: "usize \<times> usize \<Rightarrow> usize \<Rightarrow> bool" where
  "range_contains (start, stop) m \<longleftrightarrow> start \<le> m \<and> m < stop"

text \<open>The loop \<open>for message_id in start..end\<close> that sets mask bits.\<close>

definition set_mask_bits :: "u64 \<Rightarrow> nat list \<Rightarrow> u64" where
  "set_mask_bits m ids = fold (\<lambda>i acc. acc OR push_bit i 1) ids m"

text \<open>The loop over the slots: \<open>None\<close> when it runs off the end.\<close>

fun add_to_slots :: "usize \<times> usize \<Rightarrow> (usize \<times> usize) list \<Rightarrow> (usize \<times> usize) list option" where
  "add_to_slots msgs [] = None"
| "add_to_slots msgs (slot # slots) =
    (if fst slot \<le> snd msgs \<and> fst msgs \<le> snd slot
     then Some ((min (fst slot) (fst msgs), max (snd slot) (snd msgs)) # slots)
     else if range_is_empty slot then Some (msgs # slots)
     else map_option (Cons slot) (add_to_slots msgs slots))"

definition permissions_add ::
  "message_permissions \<Rightarrow> usize \<times> usize \<Rightarrow> unit kresult \<times> message_permissions" where
  "permissions_add p msgs =
    (if range_is_empty msgs then (Err InvalidArguments, p)
     else
       let p1 = p\<lparr>allow_all := False,
                   perm_mask := set_mask_bits (perm_mask p) [unat (fst msgs) ..< unat (min (snd msgs) 64)]\<rparr>
       in if snd msgs \<le> 64 then (Ok (), p1)
          else (case add_to_slots msgs (perm_list p1) of
                  Some slots \<Rightarrow> (Ok (), p1\<lparr>perm_list := slots\<rparr>)
                | None \<Rightarrow> (Err OutOfMemory, p1)))"

definition is_permitted :: "message_permissions \<Rightarrow> usize \<Rightarrow> bool" where
  "is_permitted p i =
    (if allow_all p then True
     else if i < 64 then perm_mask p AND push_bit (unat i) 1 \<noteq> 0
     else list_ex (\<lambda>r. range_contains r i) (perm_list p))"

text \<open>
  Every reachable filter: four slots, and nothing recorded while everything is
  still allowed.
\<close>

definition permissions_wf :: "message_permissions \<Rightarrow> bool" where
  "permissions_wf p \<longleftrightarrow> length (perm_list p) = MESSAGE_PERMISSION_COUNT \<and>
     (allow_all p \<longrightarrow> perm_mask p = 0 \<and> list_all range_is_empty (perm_list p))"

section \<open>What \<open>add\<close> grants\<close>

lemma bit_set_mask_bits:
  "n < 64 \<Longrightarrow> bit (set_mask_bits m ids) n \<longleftrightarrow> bit m n \<or> n \<in> set ids"
  unfolding set_mask_bits_def
  by (induction ids arbitrary: m) (auto simp: bit_simps)

lemma hull_of_touching_ranges:
  fixes a b c d i :: "'a::linorder"
  assumes "a \<le> d" "c \<le> b" "c < d"
  shows "min a c \<le> i \<and> i < max b d \<longleftrightarrow> c \<le> i \<and> i < d \<or> a \<le> i \<and> i < b"
  using assms by (auto simp: min_le_iff_disj less_max_iff_disj)

lemma add_to_slots_contains:
  assumes "add_to_slots msgs slots = Some slots'" "fst msgs < snd msgs"
  shows "list_ex (\<lambda>r. range_contains r i) slots' \<longleftrightarrow>
    range_contains msgs i \<or> list_ex (\<lambda>r. range_contains r i) slots"
  using assms(1)
proof (induction slots arbitrary: slots')
  case (Cons slot slots)
  consider (merge) "fst slot \<le> snd msgs" "fst msgs \<le> snd slot"
    | (fill) "\<not> (fst slot \<le> snd msgs \<and> fst msgs \<le> snd slot)" "range_is_empty slot"
    | (skip) "\<not> (fst slot \<le> snd msgs \<and> fst msgs \<le> snd slot)" "\<not> range_is_empty slot"
    by blast
  then show ?case
  proof cases
    case merge
    then have "range_contains (min (fst slot) (fst msgs), max (snd slot) (snd msgs)) i \<longleftrightarrow>
        range_contains msgs i \<or> range_contains slot i"
      using assms(2) by (cases slot; cases msgs) (simp add: hull_of_touching_ranges)
    moreover have "slots' = (min (fst slot) (fst msgs), max (snd slot) (snd msgs)) # slots"
      using merge Cons.prems by simp
    ultimately show ?thesis by simp
  next
    case fill
    then have "slots' = msgs # slots" "\<not> range_contains slot i"
      using Cons.prems by (cases slot; force)+
    then show ?thesis by simp
  next
    case skip
    then obtain rest where "add_to_slots msgs slots = Some rest" "slots' = slot # rest"
      using Cons.prems by (auto split: if_splits)
    then show ?thesis using Cons.IH by auto
  qed
qed simp

lemma length_add_to_slots: "add_to_slots msgs slots = Some slots' \<Longrightarrow> length slots' = length slots"
  by (induction slots arbitrary: slots') (auto split: if_splits)

lemma add_to_slots_None:
  "add_to_slots msgs slots = None \<longleftrightarrow>
     list_all (\<lambda>s. \<not> (fst s \<le> snd msgs \<and> fst msgs \<le> snd s) \<and> \<not> range_is_empty s) slots"
  by (induction slots) auto

lemma list_ex_empty_ranges: "list_all range_is_empty rs \<Longrightarrow> \<not> list_ex (\<lambda>r. range_contains r i) rs"
  by (induction rs) auto

lemma permissions_wf_default: "permissions_wf permissions_default"
  by (simp add: permissions_wf_def permissions_default_def MESSAGE_PERMISSION_COUNT_def
      numeral_eq_Suc)

lemma permissions_add_wf: "permissions_wf p \<Longrightarrow> permissions_wf (snd (permissions_add p msgs))"
  by (auto simp: permissions_wf_def permissions_add_def Let_def length_add_to_slots
      split: option.split)

lemma permissions_add_grants:
  assumes "permissions_wf p" "permissions_add p msgs = (Ok (), p')"
  shows "is_permitted p' i \<longleftrightarrow> range_contains msgs i \<or> \<not> allow_all p \<and> is_permitted p i"
proof -
  obtain lo hi where msgs: "msgs = (lo, hi)" by fastforce
  have lt: "lo < hi" and na: "\<not> allow_all p'"
    using assms(2) msgs by (auto simp: permissions_add_def Let_def split: if_splits option.splits)
  show ?thesis
  proof (cases "i < 64")
    case True
    have "perm_mask p' = set_mask_bits (perm_mask p) [unat lo ..< unat (min hi 64)]"
      using assms(2) msgs
      by (auto simp: permissions_add_def Let_def split: if_splits option.splits)
    then have "bit (perm_mask p') (unat i) \<longleftrightarrow>
        bit (perm_mask p) (unat i) \<or> lo \<le> i \<and> i < hi"
      using True by (auto simp: bit_set_mask_bits word_less_nat_alt word_le_nat_alt min_def)
    then show ?thesis
      using True na assms(1) msgs
      by (auto simp: is_permitted_def permissions_wf_def)
  next
    case False
    have "list_ex (\<lambda>r. range_contains r i) (perm_list p') \<longleftrightarrow>
        range_contains msgs i \<or> list_ex (\<lambda>r. range_contains r i) (perm_list p)"
    proof (cases "hi \<le> 64")
      case True
      then show ?thesis
        using False assms(2) msgs lt by (auto simp: permissions_add_def Let_def)
    next
      case f: False
      then have "add_to_slots msgs (perm_list p) = Some (perm_list p')"
        using assms(2) msgs lt by (auto simp: permissions_add_def Let_def split: option.splits)
      then show ?thesis
        using add_to_slots_contains lt msgs by simp
    qed
    then show ?thesis
      using False na assms(1) by (auto simp: is_permitted_def permissions_wf_def list_ex_empty_ranges)
  qed
qed

section \<open>Properties\<close>

text \<open>
  Property C20: after a successful \<open>MessagePermissions::add\<close>, a message id is
  permitted exactly when it lies in the added range or was permitted by an
  earlier explicit grant; the implicit permission of every id ends with the
  first grant.
\<close>

theorem add_grants_exactly:
  assumes "permissions_wf p" "permissions_add p msgs = (Ok (), p')"
  shows "is_permitted p' i \<longleftrightarrow> range_contains msgs i \<or> \<not> allow_all p \<and> is_permitted p i"
  using assms by (rule permissions_add_grants)

theorem add_grants_exactly_witness:
  "is_permitted (snd (permissions_add permissions_default (60, 70))) 65 \<and>
   \<not> is_permitted (snd (permissions_add permissions_default (60, 70))) 70"
proof -
  have ok: "permissions_add permissions_default (60, 70) =
      (Ok (), snd (permissions_add permissions_default (60, 70)))"
    by code_simp
  show ?thesis
    using add_grants_exactly [OF permissions_wf_default ok, of 65]
      add_grants_exactly [OF permissions_wf_default ok, of 70]
    by (simp add: permissions_default_def)
qed

text \<open>
  \<open>add\<close> fails in two cases only.  An empty range is refused with
  \<open>InvalidArguments\<close> and leaves the filter as it was; \<open>OutOfMemory\<close> means that the
  range reaches beyond id 63 while each of the four slots holds a range that it
  neither overlaps nor touches.
\<close>

theorem add_fails_iff:
  "(permissions_add p msgs = (Err InvalidArguments, p) \<longleftrightarrow> \<not> fst msgs < snd msgs) \<and>
   (fst (permissions_add p msgs) = Err OutOfMemory \<longleftrightarrow>
     fst msgs < snd msgs \<and> 64 < snd msgs \<and>
     list_all (\<lambda>s. fst s < snd s \<and> (snd msgs < fst s \<or> snd s < fst msgs)) (perm_list p))"
proof -
  obtain lo hi where msgs: "msgs = (lo, hi)" by fastforce
  have none: "add_to_slots msgs slots = None \<longleftrightarrow>
      list_all (\<lambda>s. fst s < snd s \<and> (snd msgs < fst s \<or> snd s < fst msgs)) slots" for slots
    unfolding add_to_slots_None by (induction slots) (auto simp: not_le)
  have "permissions_add p msgs = (Err InvalidArguments, p) \<longleftrightarrow> \<not> fst msgs < snd msgs"
    by (simp add: permissions_add_def Let_def msgs split: option.split)
  moreover have "fst (permissions_add p msgs) = Err OutOfMemory \<longleftrightarrow>
      fst msgs < snd msgs \<and> 64 < snd msgs \<and>
      list_all (\<lambda>s. fst s < snd s \<and> (snd msgs < fst s \<or> snd s < fst msgs)) (perm_list p)"
    using none [of "perm_list p"]
    by (auto simp: permissions_add_def Let_def msgs not_le split: option.split)
  ultimately show ?thesis by blast
qed

end
