(* ===== verification/Page_Allocator.thy ===== *)
theory Page_Allocator
  imports Xous_Defs Platform_Config
begin

text \<open>
  The physical page allocator, \<open>MemoryManager\<close> of \<open>xous/kernel/src/mem.rs\<close> in the
  hardware configuration: the owner of every page, the two bitmaps of free pages
  (dirty and zeroed), the search hints and the count of free pages.

  The bitmaps are values of the \<open>bitvec\<close> crate.  Its operations are the argument \<open>B\<close>
  of the definitions, and \<open>bitvec_laws\<close> states their documented behaviour on ranges
  of bits.  The permission check of \<open>Process\<close> is the argument \<open>allowed\<close> of
  \<open>claim_release_move\<close>.  The call of \<open>broadcast_event\<close> when memory gets low, which
  belongs to another global, is counted in \<open>low_broadcasts\<close>.
\<close>

section \<open>The bitvec crate\<close>

text \<open>
  \<open>bits[a..b].first_one()\<close> and the other operations on a slice count from the start
  of the slice.
\<close>

record 'b bitvec =
  bv_zero :: 'b
  bv_get :: "'b \<Rightarrow> nat \<Rightarrow> bool"
  bv_set :: "'b \<Rightarrow> nat \<Rightarrow> bool \<Rightarrow> 'b"
  bv_fill :: "'b \<Rightarrow> nat \<Rightarrow> nat \<Rightarrow> bool \<Rightarrow> 'b"
  bv_first_one :: "'b \<Rightarrow> nat \<Rightarrow> nat \<Rightarrow> nat option"
  bv_leading_ones :: "'b \<Rightarrow> nat \<Rightarrow> nat \<Rightarrow> nat"
  bv_iter_ones :: "'b \<Rightarrow> nat \<Rightarrow> nat \<Rightarrow> nat list"
  bv_all :: "'b \<Rightarrow> nat \<Rightarrow> nat \<Rightarrow> bool"

definition bitvec_laws :: "'b bitvec \<Rightarrow> bool" where
  "bitvec_laws B \<longleftrightarrow>
    (\<forall>i. \<not> bv_get B (bv_zero B) i) \<and>
    (\<forall>bits i v j. i < RAM_PAGES \<longrightarrow>
       bv_get B (bv_set B bits i v) j = (if j = i then v else bv_get B bits j)) \<and>
    (\<forall>bits a b v j. a \<le> b \<and> b \<le> RAM_PAGES \<longrightarrow>
       bv_get B (bv_fill B bits a b v) j = (if a \<le> j \<and> j < b then v else bv_get B bits j)) \<and>
    (\<forall>bits a b. a \<le> b \<and> b \<le> RAM_PAGES \<longrightarrow>
       bv_first_one B bits a b = find (\<lambda>k. bv_get B bits (a + k)) [0 ..< b - a] \<and>
       bv_leading_ones B bits a b = length (takeWhile (\<lambda>k. bv_get B bits (a + k)) [0 ..< b - a]) \<and>
       bv_iter_ones B bits a b = filter (\<lambda>k. bv_get B bits (a + k)) [0 ..< b - a] \<and>
       bv_all B bits a b = list_all (\<lambda>k. bv_get B bits (a + k)) [0 ..< b - a])"

section \<open>State\<close>

record 'b memory_manager =
  allocations :: "pid option list"
  extra_regions :: "(u32 \<times> u32) list"
  free_pages_dirty :: 'b
  next_dirty_page_hint :: "nat option"
  free_pages_zeroed :: 'b
  next_zeroed_page_hint :: nat
  num_free_pages :: nat
  low_memory :: bool
  low_broadcasts :: nat

definition LOW_MEMORY_THRESHOLD :: nat where "LOW_MEMORY_THRESHOLD = 24 * 1024 * 1024"
definition LOW_MEMORY_HYSTERESIS :: nat where "LOW_MEMORY_HYSTERESIS = 1024 * 1024"
definition BIG_ALLOC_RESERVED_BYTES :: nat where "BIG_ALLOC_RESERVED_BYTES = 40 * 1024 * 1024"
definition FRAGMENTED_AREA_PAGES :: nat where
  "FRAGMENTED_AREA_PAGES = RAM_PAGES - BIG_ALLOC_RESERVED_BYTES div PAGE_SIZE"

definition default_hack :: "'b bitvec \<Rightarrow> 'b memory_manager" where
  "default_hack B =
    \<lparr>allocations = [], extra_regions = replicate 11 (0, 0),
     free_pages_dirty = bv_zero B, next_dirty_page_hint = None,
     free_pages_zeroed = bv_zero B, next_zeroed_page_hint = 0,
     num_free_pages = 0, low_memory = False, low_broadcasts = 0\<rparr>"

text \<open>The loop of \<open>init_from_bootstrap\<close> over the first pages of the tracker.\<close>

fun mark_free :: "'b bitvec \<Rightarrow> 'b memory_manager \<Rightarrow> nat list \<Rightarrow> 'b memory_manager" where
  "mark_free B m [] = m"
| "mark_free B m (i # is) =
    mark_free B
      (if allocations m ! i = None
       then m\<lparr>free_pages_dirty := bv_set B (free_pages_dirty m) i True,
              num_free_pages := num_free_pages m + 1\<rparr>
       else m) is"

definition init_from_bootstrap ::
  "'b bitvec \<Rightarrow> 'b memory_manager \<Rightarrow> pid option list \<Rightarrow> nat \<Rightarrow> unit kresult \<times> 'b memory_manager" where
  "init_from_bootstrap B m allocs num_pages =
    (let m1 = m\<lparr>allocations := allocs\<rparr>; scan_pages = min num_pages RAM_PAGES in
     if length allocs < scan_pages then (Panic, m1)
     else (Ok (), mark_free B m1 [0 ..< scan_pages]))"

definition ram_used_by :: "'b memory_manager \<Rightarrow> pid \<Rightarrow> nat kresult" where
  "ram_used_by m p =
    (if length (allocations m) < RAM_PAGES then Panic
     else Ok (PAGE_SIZE * length (filter (\<lambda>owner. owner = Some p) (take RAM_PAGES (allocations m)))))"

definition ram_free :: "'b memory_manager \<Rightarrow> nat" where
  "ram_free m = num_free_pages m * PAGE_SIZE"

section \<open>Counting\<close>

definition add_free_pages :: "'b memory_manager \<Rightarrow> nat \<Rightarrow> unit kresult \<times> 'b memory_manager" where
  "add_free_pages m pages =
    (if num_free_pages m + pages > RAM_PAGES then (Panic, m)
     else
       let n = num_free_pages m + pages in
       (Ok (), m\<lparr>num_free_pages := n,
                 low_memory := low_memory m \<and>
                   \<not> n \<ge> (LOW_MEMORY_THRESHOLD + LOW_MEMORY_HYSTERESIS) div PAGE_SIZE\<rparr>))"

definition subtract_free_pages :: "'b memory_manager \<Rightarrow> nat \<Rightarrow> unit kresult \<times> 'b memory_manager" where
  "subtract_free_pages m pages =
    (if num_free_pages m < pages then (Panic, m)
     else
       let m1 = m\<lparr>num_free_pages := num_free_pages m - pages\<rparr> in
       if \<not> low_memory m \<and> num_free_pages m1 < LOW_MEMORY_THRESHOLD div PAGE_SIZE
       then (Ok (), m1\<lparr>low_memory := True, low_broadcasts := low_broadcasts m + 1\<rparr>)
       else (Ok (), m1))"

section \<open>Allocation\<close>

text \<open>The five searches of \<open>alloc_single_page\<close>: a page and whether it is zeroed.\<close>

definition find_single_page :: "'b bitvec \<Rightarrow> 'b memory_manager \<Rightarrow> (nat \<times> bool) option" where
  "find_single_page B m =
    (case bv_first_one B (free_pages_zeroed m) (next_zeroed_page_hint m) FRAGMENTED_AREA_PAGES of
       Some i \<Rightarrow> Some (i + next_zeroed_page_hint m, True)
     | None \<Rightarrow>
    (case bv_first_one B (free_pages_zeroed m) 0 (next_zeroed_page_hint m) of
       Some i \<Rightarrow> Some (i, True)
     | None \<Rightarrow>
    (case bv_first_one B (free_pages_dirty m) 0 FRAGMENTED_AREA_PAGES of
       Some i \<Rightarrow> Some (i, False)
     | None \<Rightarrow>
    (case bv_first_one B (free_pages_zeroed m) FRAGMENTED_AREA_PAGES RAM_PAGES of
       Some i \<Rightarrow> Some (i + FRAGMENTED_AREA_PAGES, True)
     | None \<Rightarrow>
    (case bv_first_one B (free_pages_dirty m) FRAGMENTED_AREA_PAGES RAM_PAGES of
       Some i \<Rightarrow> Some (i + FRAGMENTED_AREA_PAGES, False)
     | None \<Rightarrow> None)))))"

definition alloc_single_page ::
  "'b bitvec \<Rightarrow> 'b memory_manager \<Rightarrow> pid \<Rightarrow> (usize \<times> bool) kresult \<times> 'b memory_manager" where
  "alloc_single_page B m p =
    (if next_zeroed_page_hint m > FRAGMENTED_AREA_PAGES then (Panic, m)
     else (case find_single_page B m of
       None \<Rightarrow> (Err OutOfMemory, m)
     | Some (idx, zeroed) \<Rightarrow>
         let m1 = (if zeroed
                   then m\<lparr>free_pages_zeroed := bv_set B (free_pages_zeroed m) idx False\<rparr>
                   else m\<lparr>free_pages_dirty := bv_set B (free_pages_dirty m) idx False\<rparr>) in
         if idx \<ge> length (allocations m1) \<or> allocations m1 ! idx \<noteq> None then (Panic, m1)
         else
           sbind (subtract_free_pages m1 1) (\<lambda>_ m2.
           (Ok (page_phys idx, zeroed),
            m2\<lparr>allocations := (allocations m2)[idx := Some p],
               next_zeroed_page_hint :=
                 (if idx + 1 > FRAGMENTED_AREA_PAGES then 0 else idx + 1)\<rparr>))))"

text \<open>\<open>slice[a..b].fill(v)\<close> on the page tracker.\<close>

definition fill_range :: "'a list \<Rightarrow> nat \<Rightarrow> nat \<Rightarrow> 'a \<Rightarrow> 'a list" where
  "fill_range xs a b v = map (\<lambda>i. if a \<le> i \<and> i < b then v else xs ! i) [0 ..< length xs]"

text \<open>
  The two searches of \<open>alloc_range_aligned\<close>, each from the highest page down: a run
  of zeroed pages, or else a run of free pages of either kind.
\<close>

definition find_range :: "'b bitvec \<Rightarrow> nat \<Rightarrow> 'b memory_manager \<Rightarrow> nat \<Rightarrow> (nat \<times> bool) option" where
  "find_range B align m num_pages =
    (let stop = RAM_PAGES - num_pages + 1 in
     case find (\<lambda>i. bv_all B (free_pages_zeroed m) i (i + num_pages))
            (filter (\<lambda>i. i mod align = 0) (rev (bv_iter_ones B (free_pages_zeroed m) 0 stop))) of
       Some i \<Rightarrow> Some (i, True)
     | None \<Rightarrow>
         map_option (\<lambda>i. (i, False))
           (find (\<lambda>i. list_all (\<lambda>k. bv_get B (free_pages_zeroed m) (i + k) \<or>
                                     bv_get B (free_pages_dirty m) (i + k)) [0 ..< num_pages])
             (rev (filter (\<lambda>i. i mod align = 0) [0 ..< stop]))))"

definition alloc_range_aligned ::
  "'b bitvec \<Rightarrow> nat \<Rightarrow> 'b memory_manager \<Rightarrow> nat \<Rightarrow> pid \<Rightarrow> (usize \<times> bool) kresult \<times> 'b memory_manager" where
  "alloc_range_aligned B align m num_pages p =
    (if num_pages > RAM_PAGES \<or> RAM_PAGES - num_pages + 1 > RAM_PAGES then (Panic, m)
     else (case find_range B align m num_pages of
         None \<Rightarrow> (Err OutOfMemory, m)
       | Some (idx, zeroed) \<Rightarrow>
           sbind (subtract_free_pages m num_pages) (\<lambda>_ m1.
           if length (allocations m1) < idx + num_pages then (Panic, m1)
           else
             let m2 = m1\<lparr>allocations := fill_range (allocations m1) idx (idx + num_pages) (Some p),
                         free_pages_zeroed := bv_fill B (free_pages_zeroed m1) idx (idx + num_pages) False\<rparr> in
             (Ok (page_phys idx, zeroed),
              if zeroed then m2
              else m2\<lparr>free_pages_dirty := bv_fill B (free_pages_dirty m2) idx (idx + num_pages) False\<rparr>))))"

definition alloc_range ::
  "'b bitvec \<Rightarrow> 'b memory_manager \<Rightarrow> nat \<Rightarrow> pid \<Rightarrow> (usize \<times> bool) kresult \<times> 'b memory_manager" where
  "alloc_range B m num_pages p =
    (if num_pages = 1 then alloc_single_page B m p else alloc_range_aligned B 1 m num_pages p)"

section \<open>The page zeroer\<close>

definition MAX_ZERO_PAGES :: nat where "MAX_ZERO_PAGES = 8 * 1024 * 1024 div PAGE_SIZE"

definition take_dirty_pages ::
  "'b bitvec \<Rightarrow> 'b memory_manager \<Rightarrow> (usize \<times> nat) option kresult \<times> 'b memory_manager" where
  "take_dirty_pages B m =
    (let start = (case next_dirty_page_hint m of None \<Rightarrow> 0 | Some h \<Rightarrow> h);
         dirty = free_pages_dirty m in
     if start > RAM_PAGES then (Panic, m)
     else (case (case bv_first_one B dirty start RAM_PAGES of
                   Some i \<Rightarrow> Some (start + i)
                 | None \<Rightarrow> bv_first_one B dirty 0 start) of
       None \<Rightarrow> (Ok None, m\<lparr>next_dirty_page_hint := None\<rparr>)
     | Some offset \<Rightarrow>
         let pages = min (bv_leading_ones B dirty offset RAM_PAGES) MAX_ZERO_PAGES in
         (Ok (Some (page_phys offset, pages)),
          m\<lparr>free_pages_dirty := bv_fill B dirty offset (offset + pages) False,
            next_dirty_page_hint := Some ((offset + pages) mod RAM_PAGES)\<rparr>)))"

text \<open>The loop over the extra regions; the sum \<open>mem_start + mem_size\<close> is a 32-bit one.\<close>

fun region_offset :: "(u32 \<times> u32) list \<Rightarrow> nat \<Rightarrow> usize \<Rightarrow> nat option kresult" where
  "region_offset [] offset addr = Ok None"
| "region_offset ((start, sz) # rs) offset addr =
    (if addr \<ge> ucast start \<and> unat start + unat sz \<ge> 2 ^ 32 then Panic
     else if addr \<ge> ucast start \<and> addr < ucast (start + sz)
     then Ok (Some (offset + (unat addr - unat start) div PAGE_SIZE))
     else region_offset rs (offset + unat sz div PAGE_SIZE) addr)"

definition address_to_allocation_offset :: "'b memory_manager \<Rightarrow> usize \<Rightarrow> nat option kresult" where
  "address_to_allocation_offset m addr =
    (if ENCRYPTED_DRAM_BASE \<le> addr \<and> addr < ENCRYPTED_DRAM_END
     then Ok (Some (unat (addr - ENCRYPTED_DRAM_BASE) div PAGE_SIZE))
     else if PLAINTEXT_DRAM_BASE \<le> addr \<and> addr < PLAINTEXT_DRAM_END
     then Ok (Some (unat (addr - PLAINTEXT_DRAM_BASE) div PAGE_SIZE))
     else region_offset (extra_regions m) RAM_PAGES addr)"

definition page_owner :: "'b memory_manager \<Rightarrow> usize \<Rightarrow> pid option kresult" where
  "page_owner m addr =
    obind (address_to_allocation_offset m addr) (\<lambda>off.
    case off of
      None \<Rightarrow> Ok None
    | Some i \<Rightarrow> if i < length (allocations m) then Ok (allocations m ! i) else Panic)"

definition set_pages_to_zeroed ::
  "'b bitvec \<Rightarrow> 'b memory_manager \<Rightarrow> usize \<Rightarrow> nat \<Rightarrow> unit kresult \<times> 'b memory_manager" where
  "set_pages_to_zeroed B m phys pages =
    (case obind (address_to_allocation_offset m phys) unwrap of
       Ok offset \<Rightarrow>
         if offset + pages > RAM_PAGES then (Panic, m)
         else (Ok (), m\<lparr>free_pages_zeroed :=
           bv_fill B (free_pages_zeroed m) offset (offset + pages) True\<rparr>)
     | Err e \<Rightarrow> (Err e, m)
     | Panic \<Rightarrow> (Panic, m))"

section \<open>Claiming and releasing pages\<close>

datatype claim_action = Claim | Release | MoveFrom pid

text \<open>No peripheral is shared before the platform driver fills the list.\<close>

definition SHARED_PERIPHERALS :: "usize list" where "SHARED_PERIPHERALS = []"

definition shared_peripheral :: "pid \<Rightarrow> usize \<Rightarrow> bool" where
  "shared_peripheral p addr \<longleftrightarrow>
    list_ex (\<lambda>base. nz_get p \<noteq> 1 \<and>
      (addr = base \<or> addr = base + of_nat PAGE_SIZE \<or> addr = base + 2 * of_nat PAGE_SIZE \<or>
       addr = base + 3 * of_nat PAGE_SIZE)) SHARED_PERIPHERALS"

definition claim_page_at ::
  "'b bitvec \<Rightarrow> 'b memory_manager \<Rightarrow> nat \<Rightarrow> pid \<Rightarrow> unit kresult \<times> 'b memory_manager" where
  "claim_page_at B m offset p =
    (if allocations m ! offset \<noteq> None then (Err MemoryInUse, m)
     else
       sbind
         (if offset < RAM_PAGES then
            if bv_get B (free_pages_zeroed m) offset
            then subtract_free_pages
              (m\<lparr>free_pages_zeroed := bv_set B (free_pages_zeroed m) offset False\<rparr>) 1
            else if bv_get B (free_pages_dirty m) offset
            then subtract_free_pages
              (m\<lparr>free_pages_dirty := bv_set B (free_pages_dirty m) offset False\<rparr>) 1
            else (Err MemoryInUse, m)
          else (Ok (), m))
         (\<lambda>_ m'. (Ok (), m'\<lparr>allocations := (allocations m')[offset := Some p]\<rparr>)))"

definition move_page_at ::
  "'b memory_manager \<Rightarrow> nat \<Rightarrow> pid \<Rightarrow> pid \<Rightarrow> unit kresult \<times> 'b memory_manager" where
  "move_page_at m offset p existing =
    (case allocations m ! offset of
       None \<Rightarrow> (Err DoubleFree, m)
     | Some current \<Rightarrow>
         if current \<noteq> p \<and> existing \<noteq> current then (Err MemoryInUse, m)
         else (Ok (), m\<lparr>allocations := (allocations m)[offset := Some p]\<rparr>))"

definition release_page_at ::
  "'b bitvec \<Rightarrow> 'b memory_manager \<Rightarrow> nat \<Rightarrow> pid \<Rightarrow> unit kresult \<times> 'b memory_manager" where
  "release_page_at B m offset p =
    (case allocations m ! offset of
       None \<Rightarrow> (Err DoubleFree, m)
     | Some current \<Rightarrow>
         if current \<noteq> p then (Err MemoryInUse, m)
         else
           sbind
             (if offset < RAM_PAGES then
                add_free_pages
                  (m\<lparr>free_pages_dirty := bv_set B (free_pages_dirty m) offset True,
                     next_dirty_page_hint :=
                       (case next_dirty_page_hint m of None \<Rightarrow> Some offset | Some h \<Rightarrow> Some h)\<rparr>) 1
              else (Ok (), m))
             (\<lambda>_ m'. (Ok (), m'\<lparr>allocations := (allocations m')[offset := None]\<rparr>)))"

definition claim_release_move ::
  "'b bitvec \<Rightarrow> (pid \<Rightarrow> usize \<Rightarrow> unit kresult) \<Rightarrow> 'b memory_manager \<Rightarrow> usize \<Rightarrow> pid \<Rightarrow>
    claim_action \<Rightarrow> unit kresult \<times> 'b memory_manager" where
  "claim_release_move B allowed m addr p action =
    (if addr AND of_nat (PAGE_SIZE - 1) \<noteq> 0 then (Err BadAlignment, m)
     else sbind (allowed p addr, m) (\<lambda>_ m.
       if shared_peripheral p addr then (Ok (), m)
       else sbind (obind (address_to_allocation_offset m addr) (\<lambda>off. ok_or off BadAddress), m) (\<lambda>offset m.
         if offset \<ge> length (allocations m) then (Panic, m)
         else (case action of
             Claim \<Rightarrow> claim_page_at B m offset p
           | MoveFrom existing \<Rightarrow> move_page_at m offset p existing
           | Release \<Rightarrow> release_page_at B m offset p))))"

definition claim_page ::
  "'b bitvec \<Rightarrow> (pid \<Rightarrow> usize \<Rightarrow> unit kresult) \<Rightarrow> 'b memory_manager \<Rightarrow> usize \<Rightarrow> pid \<Rightarrow>
    unit kresult \<times> 'b memory_manager" where
  "claim_page B allowed m addr p = claim_release_move B allowed m addr p Claim"

definition release_page ::
  "'b bitvec \<Rightarrow> (pid \<Rightarrow> usize \<Rightarrow> unit kresult) \<Rightarrow> 'b memory_manager \<Rightarrow> usize \<Rightarrow> pid \<Rightarrow>
    unit kresult \<times> 'b memory_manager" where
  "release_page B allowed m addr p = claim_release_move B allowed m addr p Release"

text \<open>The loop of \<open>release_all_memory_for_process\<close> over the page tracker.\<close>

fun release_all_at ::
  "'b bitvec \<Rightarrow> pid \<Rightarrow> 'b memory_manager \<Rightarrow> nat list \<Rightarrow> unit kresult \<times> 'b memory_manager" where
  "release_all_at B p m [] = (Ok (), m)"
| "release_all_at B p m (idx # is) =
    (if allocations m ! idx = Some p then
       let m1 = m\<lparr>allocations := (allocations m)[idx := None]\<rparr> in
       sbind
         (if idx < RAM_PAGES
          then add_free_pages (m1\<lparr>free_pages_dirty := bv_set B (free_pages_dirty m1) idx True\<rparr>) 1
          else (Ok (), m1))
         (\<lambda>_ m2. release_all_at B p m2 is)
     else release_all_at B p m is)"

definition release_all_memory_for_process ::
  "'b bitvec \<Rightarrow> 'b memory_manager \<Rightarrow> pid \<Rightarrow> unit kresult \<times> 'b memory_manager" where
  "release_all_memory_for_process B m p = release_all_at B p m [0 ..< length (allocations m)]"

section \<open>The bitmaps as sets\<close>

lemma bitvecD:
  assumes "bitvec_laws B"
  shows "\<not> bv_get B (bv_zero B) i"
    and "i < RAM_PAGES \<Longrightarrow> bv_get B (bv_set B bits i v) j = (if j = i then v else bv_get B bits j)"
    and "a \<le> b \<Longrightarrow> b \<le> RAM_PAGES \<Longrightarrow>
      bv_get B (bv_fill B bits a b v) j = (if a \<le> j \<and> j < b then v else bv_get B bits j)"
    and "a \<le> b \<Longrightarrow> b \<le> RAM_PAGES \<Longrightarrow>
      bv_first_one B bits a b = find (\<lambda>k. bv_get B bits (a + k)) [0 ..< b - a]"
    and "a \<le> b \<Longrightarrow> b \<le> RAM_PAGES \<Longrightarrow>
      bv_leading_ones B bits a b = length (takeWhile (\<lambda>k. bv_get B bits (a + k)) [0 ..< b - a])"
    and "a \<le> b \<Longrightarrow> b \<le> RAM_PAGES \<Longrightarrow>
      bv_iter_ones B bits a b = filter (\<lambda>k. bv_get B bits (a + k)) [0 ..< b - a]"
    and "a \<le> b \<Longrightarrow> b \<le> RAM_PAGES \<Longrightarrow>
      bv_all B bits a b = list_all (\<lambda>k. bv_get B bits (a + k)) [0 ..< b - a]"
  using assms unfolding bitvec_laws_def by (blast | simp)+

lemma first_one_Some:
  assumes "bitvec_laws B" "a \<le> b" "b \<le> RAM_PAGES" "bv_first_one B bits a b = Some i"
  shows "a + i < b" "bv_get B bits (a + i)"
proof -
  have "find (\<lambda>k. bv_get B bits (a + k)) [0 ..< b - a] = Some i"
    using assms(4) unfolding bitvecD(4) [OF assms(1-3)] .
  from find_SomeD [OF this] show "a + i < b" "bv_get B bits (a + i)" by auto
qed

lemma first_one_page:
  assumes "bitvec_laws B" "a \<le> b" "b \<le> RAM_PAGES" "bv_first_one B bits a b = Some i"
  shows "i + a \<in> {j. j < RAM_PAGES \<and> bv_get B bits j}"
  using first_one_Some [OF assms] assms(3) by (simp add: add.commute)

lemma first_one_None:
  assumes "bitvec_laws B" "a \<le> b" "b \<le> RAM_PAGES" "bv_first_one B bits a b = None" "a \<le> j" "j < b"
  shows "\<not> bv_get B bits j"
proof -
  have "\<forall>k<b - a. \<not> bv_get B bits (a + k)"
    using assms(4) unfolding bitvecD(4) [OF assms(1,2,3)] by (auto simp: find_None_iff)
  moreover have "j - a < b - a" "a + (j - a) = j" using assms(5,6) by auto
  ultimately show ?thesis by metis
qed

text \<open>The pages of RAM with no owner, and those the bitmaps offer.\<close>

definition unowned :: "'b memory_manager \<Rightarrow> nat set" where
  "unowned m = {i. i < RAM_PAGES \<and> i < length (allocations m) \<and> allocations m ! i = None}"

definition zeroed_pages :: "'b bitvec \<Rightarrow> 'b memory_manager \<Rightarrow> nat set" where
  "zeroed_pages B m = {i. i < RAM_PAGES \<and> bv_get B (free_pages_zeroed m) i}"

definition dirty_pages :: "'b bitvec \<Rightarrow> 'b memory_manager \<Rightarrow> nat set" where
  "dirty_pages B m = {i. i < RAM_PAGES \<and> bv_get B (free_pages_dirty m) i}"

abbreviation free_pages :: "'b bitvec \<Rightarrow> 'b memory_manager \<Rightarrow> nat set" where
  "free_pages B m \<equiv> zeroed_pages B m \<union> dirty_pages B m"

definition mm_inv :: "'b bitvec \<Rightarrow> 'b memory_manager \<Rightarrow> bool" where
  "mm_inv B m \<longleftrightarrow>
    zeroed_pages B m \<inter> dirty_pages B m = {} \<and>
    free_pages B m \<subseteq> unowned m \<and>
    num_free_pages m = card (unowned m) \<and>
    next_zeroed_page_hint m \<le> FRAGMENTED_AREA_PAGES \<and>
    (\<forall>h. next_dirty_page_hint m = Some h \<longrightarrow> h < RAM_PAGES)"

lemma mm_invD:
  assumes "mm_inv B m"
  shows "i \<in> zeroed_pages B m \<Longrightarrow> i \<notin> dirty_pages B m"
    and "i \<in> free_pages B m \<Longrightarrow> i \<in> unowned m"
    and "num_free_pages m = card (unowned m)"
    and "next_zeroed_page_hint m \<le> FRAGMENTED_AREA_PAGES"
    and "next_dirty_page_hint m = Some h \<Longrightarrow> h < RAM_PAGES"
  using assms unfolding mm_inv_def by blast+

lemma finite_unowned [simp]: "finite (unowned m)"
  by (simp add: unowned_def)

lemma card_unowned: "card (unowned m) \<le> RAM_PAGES"
  using card_mono [of "{..<RAM_PAGES}" "unowned m"] by (auto simp: unowned_def)

lemma FRAGMENTED_le: "FRAGMENTED_AREA_PAGES \<le> RAM_PAGES"
  by (simp add: FRAGMENTED_AREA_PAGES_def)

lemma RAM_PAGES_pos: "0 < RAM_PAGES"
  by (simp add: RAM_PAGES_value)

text \<open>Pages leave the pool, or come back to it dirty.\<close>

lemma mm_inv_take:
  assumes "mm_inv B m" "S \<subseteq> free_pages B m"
    and "unowned m' = unowned m - S" "num_free_pages m' = num_free_pages m - card S"
    and "zeroed_pages B m' = zeroed_pages B m - S" "dirty_pages B m' = dirty_pages B m - S"
    and "next_zeroed_page_hint m' \<le> FRAGMENTED_AREA_PAGES"
    and "next_dirty_page_hint m' = next_dirty_page_hint m"
  shows "mm_inv B m'"
proof -
  have "S \<subseteq> unowned m" using assms(2) mm_invD(2) [OF assms(1)] by blast
  then have "card (unowned m - S) = card (unowned m) - card S"
    by (meson card_Diff_subset finite_subset finite_unowned)
  then show ?thesis using assms unfolding mm_inv_def by auto
qed

lemma mm_inv_give:
  assumes "mm_inv B m" "S \<inter> unowned m = {}" "finite S"
    and "unowned m' = unowned m \<union> S" "num_free_pages m' = num_free_pages m + card S"
    and "zeroed_pages B m' = zeroed_pages B m" "dirty_pages B m' = dirty_pages B m \<union> S"
    and "next_zeroed_page_hint m' = next_zeroed_page_hint m"
    and "\<forall>h. next_dirty_page_hint m' = Some h \<longrightarrow> h < RAM_PAGES"
  shows "mm_inv B m'"
proof -
  have "card (unowned m \<union> S) = card (unowned m) + card S"
    using assms(2,3) by (simp add: card_Un_disjoint Int_commute)
  moreover have "S \<inter> zeroed_pages B m = {}" using assms(2) mm_invD(2) [OF assms(1)] by blast
  ultimately show ?thesis using assms unfolding mm_inv_def by auto
qed

section \<open>Single pages\<close>

lemma find_single_page_Some:
  assumes L: "bitvec_laws B" and hint: "next_zeroed_page_hint m \<le> FRAGMENTED_AREA_PAGES"
    and found: "find_single_page B m = Some (i, z)"
  shows "if z then i \<in> zeroed_pages B m else i \<in> dirty_pages B m"
proof -
  let ?h = "next_zeroed_page_hint m" and ?F = FRAGMENTED_AREA_PAGES
  note F = first_one_page [OF L]
  have h: "?h \<le> RAM_PAGES" using hint FRAGMENTED_le by simp
  show ?thesis
    using found F [OF hint FRAGMENTED_le] F [OF le0 h, unfolded add_0_right]
      F [OF le0 FRAGMENTED_le, unfolded add_0_right] F [OF FRAGMENTED_le order_refl]
    unfolding find_single_page_def zeroed_pages_def dirty_pages_def
    by (fastforce split: option.splits)
qed

lemma find_single_page_None:
  assumes L: "bitvec_laws B" and hint: "next_zeroed_page_hint m \<le> FRAGMENTED_AREA_PAGES"
    and none: "find_single_page B m = None"
  shows "free_pages B m = {}"
proof -
  let ?h = "next_zeroed_page_hint m" and ?F = FRAGMENTED_AREA_PAGES
  note N = first_one_None [OF L]
  have n: "bv_first_one B (free_pages_zeroed m) ?h ?F = None"
    "bv_first_one B (free_pages_zeroed m) 0 ?h = None"
    "bv_first_one B (free_pages_dirty m) 0 ?F = None"
    "bv_first_one B (free_pages_zeroed m) ?F RAM_PAGES = None"
    "bv_first_one B (free_pages_dirty m) ?F RAM_PAGES = None"
    using none unfolding find_single_page_def by (auto split: option.splits)
  have "\<not> bv_get B (free_pages_zeroed m) j" if "j < RAM_PAGES" for j
    using N [OF _ _ n(1), of j] N [OF _ _ n(2), of j] N [OF _ _ n(4), of j] hint FRAGMENTED_le that
    by (cases "j < ?h"; cases "j < ?F") auto
  moreover have "\<not> bv_get B (free_pages_dirty m) j" if "j < RAM_PAGES" for j
    using N [OF _ _ n(3), of j] N [OF _ _ n(5), of j] FRAGMENTED_le that by (cases "j < ?F") auto
  ultimately show ?thesis by (auto simp: zeroed_pages_def dirty_pages_def)
qed

lemma subtract_free_pages_cases:
  assumes "pages \<le> num_free_pages m"
  obtains m' where "subtract_free_pages m pages = (Ok (), m')"
    "allocations m' = allocations m" "extra_regions m' = extra_regions m"
    "free_pages_dirty m' = free_pages_dirty m" "next_dirty_page_hint m' = next_dirty_page_hint m"
    "free_pages_zeroed m' = free_pages_zeroed m" "next_zeroed_page_hint m' = next_zeroed_page_hint m"
    "num_free_pages m' = num_free_pages m - pages"
  by (rule that [of "snd (subtract_free_pages m pages)"])
    (use assms in \<open>auto simp: subtract_free_pages_def Let_def\<close>)

lemma add_free_pages_cases:
  assumes "num_free_pages m + pages \<le> RAM_PAGES"
  obtains m' where "add_free_pages m pages = (Ok (), m')"
    "allocations m' = allocations m" "extra_regions m' = extra_regions m"
    "free_pages_dirty m' = free_pages_dirty m" "next_dirty_page_hint m' = next_dirty_page_hint m"
    "free_pages_zeroed m' = free_pages_zeroed m" "next_zeroed_page_hint m' = next_zeroed_page_hint m"
    "num_free_pages m' = num_free_pages m + pages"
  by (rule that [of "snd (add_free_pages m pages)"])
    (use assms in \<open>auto simp: add_free_pages_def Let_def\<close>)

lemma page_sets_set:
  assumes "bitvec_laws B" "i < RAM_PAGES"
  shows "{j. j < RAM_PAGES \<and> bv_get B (bv_set B bits i False) j} = {j. j < RAM_PAGES \<and> bv_get B bits j} - {i}"
    and "{j. j < RAM_PAGES \<and> bv_get B (bv_set B bits i True) j} = insert i {j. j < RAM_PAGES \<and> bv_get B bits j}"
  using assms(2) bitvecD(2) [OF assms] by auto

lemma unowned_set:
  assumes "i < length (allocations m)" "allocations m' = (allocations m)[i := Some p]"
  shows "unowned m' = unowned m - {i}"
  using assms by (auto simp: unowned_def nth_list_update)

lemma alloc_single_page_free:
  assumes L: "bitvec_laws B" and inv: "mm_inv B m" and free: "free_pages B m \<noteq> {}"
  shows "\<exists>i z m'. alloc_single_page B m p = (Ok (page_phys i, z), m') \<and>
    i \<in> free_pages B m \<and> (z \<longleftrightarrow> i \<in> zeroed_pages B m) \<and>
    allocations m' = (allocations m)[i := Some p] \<and> extra_regions m' = extra_regions m \<and>
    zeroed_pages B m' = zeroed_pages B m - {i} \<and> dirty_pages B m' = dirty_pages B m - {i} \<and>
    num_free_pages m' = num_free_pages m - 1 \<and> mm_inv B m'"
proof -
  note I = mm_invD [OF inv]
  obtain i z where f: "find_single_page B m = Some (i, z)"
    using find_single_page_None [OF L I(4)] free by (cases "find_single_page B m") auto
  note iz = find_single_page_Some [OF L I(4) f]
  have i: "i \<in> free_pages B m" "z \<longleftrightarrow> i \<in> zeroed_pages B m" using iz I(1) [of i] by (auto split: if_splits)
  then have un: "i < RAM_PAGES" "i < length (allocations m)" "allocations m ! i = None"
    using I(2) [of i] by (auto simp: unowned_def)
  have pos: "1 \<le> num_free_pages m"
    using I(2) [OF i(1)] I(3) by (metis One_nat_def Suc_leI card_gt_0_iff empty_iff finite_unowned)
  define m1 where "m1 = (if z then m\<lparr>free_pages_zeroed := bv_set B (free_pages_zeroed m) i False\<rparr>
      else m\<lparr>free_pages_dirty := bv_set B (free_pages_dirty m) i False\<rparr>)"
  have pos1: "1 \<le> num_free_pages m1" using pos by (simp add: m1_def)
  obtain m2 where m2: "subtract_free_pages m1 1 = (Ok (), m2)" "allocations m2 = allocations m1"
      "extra_regions m2 = extra_regions m1"
      "free_pages_dirty m2 = free_pages_dirty m1" "next_dirty_page_hint m2 = next_dirty_page_hint m1"
      "free_pages_zeroed m2 = free_pages_zeroed m1" "next_zeroed_page_hint m2 = next_zeroed_page_hint m1"
      "num_free_pages m2 = num_free_pages m1 - 1"
    using pos1 by (rule subtract_free_pages_cases)
  define m3 where "m3 = m2\<lparr>allocations := (allocations m2)[i := Some p],
      next_zeroed_page_hint := (if i + 1 > FRAGMENTED_AREA_PAGES then 0 else i + 1)\<rparr>"
  have res: "alloc_single_page B m p = (Ok (page_phys i, z), m3)"
    using I(4) f un m2(1,2) by (simp add: alloc_single_page_def m1_def [symmetric] m3_def)
      (simp add: m1_def)
  have sets: "zeroed_pages B m3 = zeroed_pages B m - {i}" "dirty_pages B m3 = dirty_pages B m - {i}"
    using iz I(1) [of i] page_sets_set(1) [OF L un(1)]
    by (auto simp: zeroed_pages_def dirty_pages_def m3_def m2 m1_def)
  have al: "allocations m3 = (allocations m)[i := Some p]" by (simp add: m3_def m2 m1_def)
  have "mm_inv B m3"
  proof (rule mm_inv_take [OF inv])
    show "unowned m3 = unowned m - {i}" using unowned_set [OF un(2) al] .
  qed (use i sets in \<open>auto simp: m3_def m2 m1_def\<close>)
  then show ?thesis using res i sets al by (auto simp: m3_def m2 m1_def)
qed

lemma alloc_single_page_full:
  assumes L: "bitvec_laws B" and inv: "mm_inv B m" and full: "free_pages B m = {}"
  shows "alloc_single_page B m p = (Err OutOfMemory, m)"
proof -
  have "find_single_page B m = None"
    using find_single_page_Some [OF L mm_invD(4) [OF inv]] full
    by (cases "find_single_page B m") (fastforce split: if_splits)+
  then show ?thesis using mm_invD(4) [OF inv] by (simp add: alloc_single_page_def)
qed

section \<open>Ranges of pages\<close>

lemma length_fill_range [simp]: "length (fill_range xs a b v) = length xs"
  by (simp add: fill_range_def)

lemma nth_fill_range:
  "i < length xs \<Longrightarrow> fill_range xs a b v ! i = (if a \<le> i \<and> i < b then v else xs ! i)"
  by (simp add: fill_range_def)

lemma page_sets_fill:
  assumes "bitvec_laws B" "a \<le> b" "b \<le> RAM_PAGES"
  shows "{j. j < RAM_PAGES \<and> bv_get B (bv_fill B bits a b False) j} =
      {j. j < RAM_PAGES \<and> bv_get B bits j} - {a ..< b}"
    and "{j. j < RAM_PAGES \<and> bv_get B (bv_fill B bits a b True) j} =
      {j. j < RAM_PAGES \<and> bv_get B bits j} \<union> {a ..< b}"
  using assms(3) bitvecD(3) [OF assms] by auto

lemma range_all_iff:
  "list_all (\<lambda>k. P (i + k)) [0 ..< n] \<longleftrightarrow> (\<forall>j\<in>{i ..< i + n}. P j)"
proof
  assume "list_all (\<lambda>k. P (i + k)) [0 ..< n]"
  then have "P (i + k)" if "k < n" for k using that by (simp add: list_all_iff)
  then show "\<forall>j\<in>{i ..< i + n}. P j" by (metis add_diff_inverse_nat atLeastLessThan_iff nat_add_left_cancel_less not_less)
qed (auto simp: list_all_iff)

text \<open>A run of pages all of which the bitmaps offer.\<close>

definition free_run :: "'b bitvec \<Rightarrow> 'b memory_manager \<Rightarrow> nat \<Rightarrow> nat \<Rightarrow> bool" where
  "free_run B m n i \<longleftrightarrow> i + n \<le> RAM_PAGES \<and> {i ..< i + n} \<subseteq> free_pages B m"

lemma fill_invariant:
  assumes L: "bitvec_laws B" and inv: "mm_inv B m" and run: "free_run B m n i"
    and "allocations m' = fill_range (allocations m) i (i + n) (Some p)"
    and "num_free_pages m' = num_free_pages m - n"
    and "zeroed_pages B m' = zeroed_pages B m - {i ..< i + n}"
    and "dirty_pages B m' = dirty_pages B m - {i ..< i + n}"
    and "next_zeroed_page_hint m' = next_zeroed_page_hint m"
    and "next_dirty_page_hint m' = next_dirty_page_hint m"
  shows "mm_inv B m'"
proof (rule mm_inv_take [OF inv])
  show "{i ..< i + n} \<subseteq> free_pages B m" using run by (simp add: free_run_def)
  show "unowned m' = unowned m - {i ..< i + n}"
    using assms(4) by (auto simp: unowned_def nth_fill_range split: if_splits)
qed (use assms mm_invD(4) [OF inv] in auto)

lemma run_owned:
  assumes "mm_inv B m" "free_run B m n i" "0 < n"
  shows "i + n \<le> length (allocations m)" "n \<le> num_free_pages m"
proof -
  have sub: "{i ..< i + n} \<subseteq> unowned m" using assms mm_invD(2) [OF assms(1)] by (auto simp: free_run_def)
  have "i + n - 1 \<in> unowned m" using sub assms(3) by auto
  then show "i + n \<le> length (allocations m)" by (auto simp: unowned_def)
  show "n \<le> num_free_pages m"
    using card_mono [OF finite_unowned sub] mm_invD(3) [OF assms(1)] by simp
qed

lemma zeroed_run_iff:
  assumes L: "bitvec_laws B" and "i + n \<le> RAM_PAGES"
  shows "bv_all B (free_pages_zeroed m) i (i + n) \<longleftrightarrow> {i ..< i + n} \<subseteq> zeroed_pages B m"
  using assms(2) range_all_iff [of "bv_get B (free_pages_zeroed m)" i n]
  by (auto simp: bitvecD(7) [OF L, of i "i + n"] zeroed_pages_def)

lemma free_run_iff:
  assumes "i + n \<le> RAM_PAGES"
  shows "list_all (\<lambda>k. bv_get B (free_pages_zeroed m) (i + k) \<or> bv_get B (free_pages_dirty m) (i + k)) [0 ..< n]
    \<longleftrightarrow> free_run B m n i"
  using assms range_all_iff [of "\<lambda>j. bv_get B (free_pages_zeroed m) j \<or> bv_get B (free_pages_dirty m) j" i n]
  by (fastforce simp: free_run_def zeroed_pages_def dirty_pages_def)

lemma find_rev_SomeD: "find P (rev xs) = Some x \<Longrightarrow> x \<in> set xs \<and> P x"
  using find_SomeD [of P "rev xs" x] by simp

lemma find_range_Some:
  assumes L: "bitvec_laws B" and n: "0 < n" "n \<le> RAM_PAGES" and found: "find_range B 1 m n = Some (i, z)"
  shows "free_run B m n i" "z \<Longrightarrow> {i ..< i + n} \<subseteq> zeroed_pages B m"
proof -
  define stop where "stop = RAM_PAGES - n + 1"
  have stop: "stop \<le> RAM_PAGES" "\<And>i. i < stop \<longleftrightarrow> i + n \<le> RAM_PAGES" using n by (auto simp: stop_def)
  have clean: "i + n \<le> RAM_PAGES \<and> {i ..< i + n} \<subseteq> zeroed_pages B m"
    if "find (\<lambda>i. bv_all B (free_pages_zeroed m) i (i + n))
      (rev (bv_iter_ones B (free_pages_zeroed m) 0 stop)) = Some i" for i
    using find_rev_SomeD [OF that] stop(2) [of i] zeroed_run_iff [OF L, of i n m]
    by (simp add: bitvecD(6) [OF L le0 stop(1)])
  have mixed: "free_run B m n i"
    if "find (\<lambda>i. list_all (\<lambda>k. bv_get B (free_pages_zeroed m) (i + k) \<or>
      bv_get B (free_pages_dirty m) (i + k)) [0 ..< n]) (rev [0 ..< stop]) = Some i" for i
    using find_rev_SomeD [OF that] stop(2) [of i] free_run_iff [of i n B m] by simp
  have "(z \<longrightarrow> i + n \<le> RAM_PAGES \<and> {i ..< i + n} \<subseteq> zeroed_pages B m) \<and> (\<not> z \<longrightarrow> free_run B m n i)"
    using found clean mixed unfolding find_range_def Let_def stop_def [symmetric]
    by (auto split: option.splits)
  then show "free_run B m n i" "z \<Longrightarrow> {i ..< i + n} \<subseteq> zeroed_pages B m"
    by (auto simp: free_run_def)
qed

lemma find_range_None:
  assumes L: "bitvec_laws B" and n: "0 < n" "n \<le> RAM_PAGES"
  shows "find_range B 1 m n = None \<longleftrightarrow> (\<forall>i. \<not> free_run B m n i)"
proof
  define stop where "stop = RAM_PAGES - n + 1"
  assume none: "find_range B 1 m n = None"
  have "find (\<lambda>i. list_all (\<lambda>k. bv_get B (free_pages_zeroed m) (i + k) \<or>
      bv_get B (free_pages_dirty m) (i + k)) [0 ..< n]) (rev [0 ..< stop]) = None"
    using none unfolding find_range_def Let_def stop_def [symmetric] by (simp split: option.splits)
  then have "\<not> list_all (\<lambda>k. bv_get B (free_pages_zeroed m) (i + k) \<or>
      bv_get B (free_pages_dirty m) (i + k)) [0 ..< n]" if "i < stop" for i
    using that by (simp add: find_None_iff)
  then have "\<not> free_run B m n i" if "i + n \<le> RAM_PAGES" for i
    using that n free_run_iff [OF that, of B m] by (simp add: stop_def)
  then show "\<forall>i. \<not> free_run B m n i" by (auto simp: free_run_def)
next
  assume none: "\<forall>i. \<not> free_run B m n i"
  show "find_range B 1 m n = None"
    using find_range_Some(1) [OF L n] none by (cases "find_range B 1 m n") auto
qed

lemma alloc_range_aligned_run:
  assumes L: "bitvec_laws B" and inv: "mm_inv B m" and n: "0 < n" "n \<le> RAM_PAGES"
    and run: "free_run B m n j"
  shows "\<exists>i z m'. alloc_range_aligned B 1 m n p = (Ok (page_phys i, z), m') \<and>
    free_run B m n i \<and> (z \<longrightarrow> {i ..< i + n} \<subseteq> zeroed_pages B m) \<and>
    allocations m' = fill_range (allocations m) i (i + n) (Some p) \<and> extra_regions m' = extra_regions m \<and>
    zeroed_pages B m' = zeroed_pages B m - {i ..< i + n} \<and> dirty_pages B m' = dirty_pages B m - {i ..< i + n} \<and>
    num_free_pages m' = num_free_pages m - n \<and> mm_inv B m'"
proof -
  obtain i z where found: "find_range B 1 m n = Some (i, z)"
    using find_range_None [OF L n] run by (cases "find_range B 1 m n") auto
  note iz = find_range_Some [OF L n found]
  note own = run_owned [OF inv iz(1) n(1)]
  have i: "i + n \<le> RAM_PAGES" using iz(1) by (simp add: free_run_def)
  obtain m1 where m1: "subtract_free_pages m n = (Ok (), m1)" "allocations m1 = allocations m"
      "extra_regions m1 = extra_regions m"
      "free_pages_dirty m1 = free_pages_dirty m" "next_dirty_page_hint m1 = next_dirty_page_hint m"
      "free_pages_zeroed m1 = free_pages_zeroed m" "next_zeroed_page_hint m1 = next_zeroed_page_hint m"
      "num_free_pages m1 = num_free_pages m - n"
    using own(2) by (rule subtract_free_pages_cases)
  define m2 where "m2 = m1\<lparr>allocations := fill_range (allocations m1) i (i + n) (Some p),
      free_pages_zeroed := bv_fill B (free_pages_zeroed m1) i (i + n) False\<rparr>"
  define m3 where "m3 = (if z then m2 else
      m2\<lparr>free_pages_dirty := bv_fill B (free_pages_dirty m2) i (i + n) False\<rparr>)"
  have guard: "\<not> RAM_PAGES < RAM_PAGES - n + 1" "\<not> RAM_PAGES < n" using n by auto
  have "alloc_range_aligned B 1 m n p = (Ok (page_phys i, z), m3)"
    unfolding alloc_range_aligned_def
    using guard found m1(1) own(1) m1(2) by (simp del: One_nat_def add: Let_def m3_def m2_def)
  moreover have sets: "zeroed_pages B m3 = zeroed_pages B m - {i ..< i + n}"
    "dirty_pages B m3 = dirty_pages B m - {i ..< i + n}"
  proof -
    note S = page_sets_fill(1) [OF L le_add1 i]
    show "zeroed_pages B m3 = zeroed_pages B m - {i ..< i + n}"
      using S by (simp add: zeroed_pages_def m3_def m2_def m1)
    show "dirty_pages B m3 = dirty_pages B m - {i ..< i + n}"
    proof (cases z)
      case True
      then have "dirty_pages B m \<inter> {i ..< i + n} = {}" using iz(2) mm_invD(1) [OF inv] by blast
      then show ?thesis using True by (auto simp: dirty_pages_def m3_def m2_def m1)
    next
      case False
      then show ?thesis using S by (simp add: dirty_pages_def m3_def m2_def m1)
    qed
  qed
  moreover have "mm_inv B m3"
    by (rule fill_invariant [OF L inv iz(1)]) (use sets in \<open>simp_all add: m3_def m2_def m1\<close>)
  ultimately show ?thesis using iz by (auto simp: m3_def m2_def m1)
qed

lemma alloc_range_aligned_full:
  assumes L: "bitvec_laws B" and n: "0 < n" "n \<le> RAM_PAGES" and full: "\<And>i. \<not> free_run B m n i"
  shows "alloc_range_aligned B 1 m n p = (Err OutOfMemory, m)"
proof -
  have "\<not> RAM_PAGES < RAM_PAGES - n + 1" "\<not> RAM_PAGES < n" using n by auto
  then show ?thesis
    unfolding alloc_range_aligned_def using find_range_None [OF L n, of m] full by simp
qed

section \<open>Claiming and releasing\<close>

lemma owned_count:
  assumes "mm_inv B m" "i < RAM_PAGES" "i < length (allocations m)" "allocations m ! i \<noteq> None"
  shows "num_free_pages m + 1 \<le> RAM_PAGES" "{i} \<inter> unowned m = {}"
proof -
  show out: "{i} \<inter> unowned m = {}" using assms(4) by (simp add: unowned_def)
  have "card (insert i (unowned m)) \<le> RAM_PAGES"
    using card_mono [of "{..<RAM_PAGES}" "insert i (unowned m)"] assms(2) by (auto simp: unowned_def)
  then show "num_free_pages m + 1 \<le> RAM_PAGES" using out mm_invD(3) [OF assms(1)] by simp
qed

lemma unowned_unset:
  assumes "i < RAM_PAGES" "i < length (allocations m)" "allocations m' = (allocations m)[i := None]"
  shows "unowned m' = unowned m \<union> {i}"
  using assms by (auto simp: unowned_def nth_list_update)

text \<open>Freeing one page: its dirty bit is set and its owner removed, in either order.\<close>

lemma give_page:
  assumes L: "bitvec_laws B" and inv: "mm_inv B m"
    and i: "i < RAM_PAGES" "i < length (allocations m)" "allocations m ! i \<noteq> None"
    and "allocations m' = (allocations m)[i := None]"
    and "free_pages_dirty m' = bv_set B (free_pages_dirty m) i True"
    and "free_pages_zeroed m' = free_pages_zeroed m"
    and "num_free_pages m' = num_free_pages m + 1"
    and "next_zeroed_page_hint m' = next_zeroed_page_hint m"
    and "next_dirty_page_hint m' = next_dirty_page_hint m \<or> next_dirty_page_hint m' = Some i"
  shows "mm_inv B m'" "zeroed_pages B m' = zeroed_pages B m" "dirty_pages B m' = insert i (dirty_pages B m)"
proof -
  show sets: "zeroed_pages B m' = zeroed_pages B m" "dirty_pages B m' = insert i (dirty_pages B m)"
    using page_sets_set(2) [OF L i(1)] assms by (simp_all add: zeroed_pages_def dirty_pages_def)
  show "mm_inv B m'"
    using inv owned_count(2) [OF inv i]
  proof (rule mm_inv_give)
    show "unowned m' = unowned m \<union> {i}" by (rule unowned_unset) (use assms in auto)
    show "\<forall>h. next_dirty_page_hint m' = Some h \<longrightarrow> h < RAM_PAGES"
      using assms(11) mm_invD(5) [OF inv] i(1) by auto
  qed (use assms sets in auto)
qed

lemma release_page_at_owned:
  assumes L: "bitvec_laws B" and inv: "mm_inv B m"
    and off: "off < length (allocations m)" "allocations m ! off = Some p"
  shows "\<exists>m'. release_page_at B m off p = (Ok (), m') \<and> mm_inv B m' \<and>
    allocations m' = (allocations m)[off := None] \<and> extra_regions m' = extra_regions m \<and>
    zeroed_pages B m' = zeroed_pages B m \<and>
    dirty_pages B m' = (if off < RAM_PAGES then insert off (dirty_pages B m) else dirty_pages B m)"
proof (cases "off < RAM_PAGES")
  case True
  let ?m = "m\<lparr>free_pages_dirty := bv_set B (free_pages_dirty m) off True,
      next_dirty_page_hint := (case next_dirty_page_hint m of None \<Rightarrow> Some off | Some h \<Rightarrow> Some h)\<rparr>"
  have own: "allocations m ! off \<noteq> None" using off(2) by simp
  have "num_free_pages ?m + 1 \<le> RAM_PAGES" using owned_count(1) [OF inv True off(1) own] by simp
  then obtain m1 where m1: "add_free_pages ?m 1 = (Ok (), m1)" "allocations m1 = allocations ?m"
      "extra_regions m1 = extra_regions ?m"
      "free_pages_dirty m1 = free_pages_dirty ?m" "next_dirty_page_hint m1 = next_dirty_page_hint ?m"
      "free_pages_zeroed m1 = free_pages_zeroed ?m" "next_zeroed_page_hint m1 = next_zeroed_page_hint ?m"
      "num_free_pages m1 = num_free_pages ?m + 1"
    by (rule add_free_pages_cases)
  let ?m' = "m1\<lparr>allocations := (allocations m1)[off := None]\<rparr>"
  have "mm_inv B ?m' \<and> zeroed_pages B ?m' = zeroed_pages B m \<and> dirty_pages B ?m' = insert off (dirty_pages B m)"
    using give_page [OF L inv True off(1) own, of ?m'] m1 by (auto split: option.splits)
  moreover have "release_page_at B m off p = (Ok (), ?m')"
    using off True m1(1) by (simp add: release_page_at_def)
  ultimately show ?thesis using True m1 by auto
next
  case False
  let ?m' = "m\<lparr>allocations := (allocations m)[off := None]\<rparr>"
  have "unowned ?m' = unowned m" using False by (auto simp: unowned_def nth_list_update)
  then have "mm_inv B ?m'" using inv by (simp add: mm_inv_def zeroed_pages_def dirty_pages_def)
  then show ?thesis
    using off False by (auto simp: release_page_at_def zeroed_pages_def dirty_pages_def)
qed

lemma claim_page_at_free:
  assumes L: "bitvec_laws B" and inv: "mm_inv B m"
    and off: "off < length (allocations m)" "off \<in> free_pages B m"
  shows "\<exists>m'. claim_page_at B m off p = (Ok (), m') \<and> mm_inv B m' \<and>
    allocations m' = (allocations m)[off := Some p] \<and> extra_regions m' = extra_regions m \<and>
    zeroed_pages B m' = zeroed_pages B m - {off} \<and> dirty_pages B m' = dirty_pages B m - {off}"
proof -
  note I = mm_invD [OF inv]
  have un: "off < RAM_PAGES" "allocations m ! off = None" using I(2) [OF off(2)] by (auto simp: unowned_def)
  have pos: "1 \<le> num_free_pages m"
    using I(2) [OF off(2)] I(3) by (metis One_nat_def Suc_leI card_gt_0_iff empty_iff finite_unowned)
  define m0 where "m0 = (if bv_get B (free_pages_zeroed m) off
      then m\<lparr>free_pages_zeroed := bv_set B (free_pages_zeroed m) off False\<rparr>
      else m\<lparr>free_pages_dirty := bv_set B (free_pages_dirty m) off False\<rparr>)"
  have "1 \<le> num_free_pages m0" using pos by (simp add: m0_def)
  then obtain m1 where m1: "subtract_free_pages m0 1 = (Ok (), m1)" "allocations m1 = allocations m0"
      "extra_regions m1 = extra_regions m0"
      "free_pages_dirty m1 = free_pages_dirty m0" "next_dirty_page_hint m1 = next_dirty_page_hint m0"
      "free_pages_zeroed m1 = free_pages_zeroed m0" "next_zeroed_page_hint m1 = next_zeroed_page_hint m0"
      "num_free_pages m1 = num_free_pages m0 - 1"
    by (rule subtract_free_pages_cases)
  define m2 where "m2 = m1\<lparr>allocations := (allocations m1)[off := Some p]\<rparr>"
  have "claim_page_at B m off p = (Ok (), m2)"
    using un off(2) m1(1) by (auto simp: claim_page_at_def m2_def m0_def zeroed_pages_def dirty_pages_def)
  moreover have sets: "zeroed_pages B m2 = zeroed_pages B m - {off}" "dirty_pages B m2 = dirty_pages B m - {off}"
    using page_sets_set(1) [OF L un(1)] I(1) [of off] un(1) off(2)
    by (auto simp: zeroed_pages_def dirty_pages_def m2_def m1 m0_def)
  moreover have al: "allocations m2 = (allocations m)[off := Some p]" by (simp add: m2_def m1 m0_def)
  moreover have "mm_inv B m2"
  proof (rule mm_inv_take [OF inv])
    show "unowned m2 = unowned m - {off}" using unowned_set [OF off(1) al] .
  qed (use off sets I(4) in \<open>auto simp: m2_def m1 m0_def\<close>)
  ultimately show ?thesis by (auto simp: m2_def m1 m0_def)
qed

lemma claim_page_at_taken:
  assumes "off < RAM_PAGES" "off \<notin> free_pages B m"
  shows "claim_page_at B m off p = (Err MemoryInUse, m)"
  using assms by (simp add: claim_page_at_def zeroed_pages_def dirty_pages_def)

lemma claim_page_at_region:
  assumes "mm_inv B m" "\<not> off < RAM_PAGES"
  shows "mm_inv B (snd (claim_page_at B m off p)) \<and>
    unowned (snd (claim_page_at B m off p)) = unowned m \<and>
    zeroed_pages B (snd (claim_page_at B m off p)) = zeroed_pages B m \<and>
    dirty_pages B (snd (claim_page_at B m off p)) = dirty_pages B m"
proof -
  have "unowned (m\<lparr>allocations := (allocations m)[off := Some p]\<rparr>) = unowned m"
    using assms(2) by (auto simp: unowned_def nth_list_update)
  then show ?thesis
    using assms by (simp add: claim_page_at_def mm_inv_def zeroed_pages_def dirty_pages_def)
qed

lemma move_page_at_inv:
  assumes "mm_inv B m" "off < length (allocations m)"
  shows "mm_inv B (snd (move_page_at m off p q)) \<and>
    unowned (snd (move_page_at m off p q)) = unowned m \<and>
    zeroed_pages B (snd (move_page_at m off p q)) = zeroed_pages B m \<and>
    dirty_pages B (snd (move_page_at m off p q)) = dirty_pages B m"
proof (cases "allocations m ! off")
  case (Some c)
  then have "unowned (m\<lparr>allocations := (allocations m)[off := Some p]\<rparr>) = unowned m"
    using assms(2) by (auto simp: unowned_def nth_list_update)
  then show ?thesis
    using assms Some by (simp add: move_page_at_def mm_inv_def zeroed_pages_def dirty_pages_def)
qed (use assms in \<open>simp add: move_page_at_def\<close>)

section \<open>Addresses\<close>

lemma dram_bounds: "unat ENCRYPTED_DRAM_BASE = 0x40000000" "unat ENCRYPTED_DRAM_END = 0x80000000"
  by (simp_all add: ENCRYPTED_DRAM_BASE_def ENCRYPTED_DRAM_END_def PLAINTEXT_DRAM_BASE_def
      PLAINTEXT_DRAM_END_def RAM_SIZE_def)

lemma page_phys_in_dram:
  assumes "i < RAM_PAGES"
  shows "ENCRYPTED_DRAM_BASE \<le> page_phys i" "page_phys i < ENCRYPTED_DRAM_END"
  using assms unfolding word_le_nat_alt word_less_nat_alt dram_bounds unat_page_phys [OF assms]
  by (simp_all add: RAM_PAGES_value PAGE_SIZE_def)

lemma offset_page_phys:
  assumes "i < RAM_PAGES"
  shows "address_to_allocation_offset m (page_phys i) = Ok (Some i)"
proof -
  have "unat (page_phys i - ENCRYPTED_DRAM_BASE) = i * PAGE_SIZE"
    using page_phys_in_dram(1) [OF assms] unat_page_phys [OF assms] dram_bounds(1)
    by (simp add: unat_sub)
  then show ?thesis
    using page_phys_in_dram [OF assms] by (simp add: address_to_allocation_offset_def PAGE_SIZE_def)
qed

section \<open>Process exit, the zeroer and boot\<close>

lemma release_all_at_spec:
  assumes L: "bitvec_laws B" and "mm_inv B m" "distinct is" "\<forall>i\<in>set is. i < length (allocations m)"
  shows "\<exists>m'. release_all_at B p m is = (Ok (), m') \<and> mm_inv B m' \<and>
    length (allocations m') = length (allocations m) \<and> extra_regions m' = extra_regions m \<and>
    (\<forall>i<length (allocations m). allocations m' ! i =
       (if i \<in> set is \<and> allocations m ! i = Some p then None else allocations m ! i)) \<and>
    zeroed_pages B m' = zeroed_pages B m \<and>
    dirty_pages B m' = dirty_pages B m \<union> {i \<in> set is. i < RAM_PAGES \<and> allocations m ! i = Some p}"
  using assms(2-)
proof (induction "is" arbitrary: m)
  case (Cons i rest)
  show ?case
  proof (cases "allocations m ! i = Some p")
    case False
    then show ?thesis
      using Cons.IH [OF Cons.prems(1)] Cons.prems(2,3) by auto
  next
    case own: True
    have i: "i < length (allocations m)" "allocations m ! i \<noteq> None" "i \<notin> set rest" using Cons.prems own by auto
    let ?m = "m\<lparr>allocations := (allocations m)[i := None]\<rparr>"
    obtain m1 where m1: "(if i < RAM_PAGES
          then add_free_pages (?m\<lparr>free_pages_dirty := bv_set B (free_pages_dirty ?m) i True\<rparr>) 1
          else (Ok (), ?m)) = (Ok (), m1)"
        "allocations m1 = (allocations m)[i := None]" "extra_regions m1 = extra_regions m" "mm_inv B m1"
        "zeroed_pages B m1 = zeroed_pages B m"
        "dirty_pages B m1 = (if i < RAM_PAGES then insert i (dirty_pages B m) else dirty_pages B m)"
    proof (cases "i < RAM_PAGES")
      case True
      let ?d = "?m\<lparr>free_pages_dirty := bv_set B (free_pages_dirty ?m) i True\<rparr>"
      have "num_free_pages ?d + 1 \<le> RAM_PAGES" using owned_count(1) [OF Cons.prems(1) True i(1,2)] by simp
      then obtain m1 where m1: "add_free_pages ?d 1 = (Ok (), m1)" "allocations m1 = allocations ?d"
          "extra_regions m1 = extra_regions ?d" "free_pages_dirty m1 = free_pages_dirty ?d"
          "next_dirty_page_hint m1 = next_dirty_page_hint ?d" "free_pages_zeroed m1 = free_pages_zeroed ?d"
          "next_zeroed_page_hint m1 = next_zeroed_page_hint ?d" "num_free_pages m1 = num_free_pages ?d + 1"
        by (rule add_free_pages_cases)
      show ?thesis
        using that [of m1] give_page [OF L Cons.prems(1) True i(1,2), of m1] m1 True by simp
    next
      case False
      have "unowned ?m = unowned m" using False by (auto simp: unowned_def nth_list_update)
      then have "mm_inv B ?m" using Cons.prems(1) by (simp add: mm_inv_def zeroed_pages_def dirty_pages_def)
      then show ?thesis using that [of ?m] False by (simp add: zeroed_pages_def dirty_pages_def)
    qed
    have "\<forall>j\<in>set rest. j < length (allocations m1)" "distinct rest" using Cons.prems m1(2) by auto
    from Cons.IH [OF m1(4) this(2,1)] obtain m2 where m2: "release_all_at B p m1 rest = (Ok (), m2)"
        "mm_inv B m2" "length (allocations m2) = length (allocations m1)" "extra_regions m2 = extra_regions m1"
        "\<forall>j<length (allocations m1). allocations m2 ! j =
           (if j \<in> set rest \<and> allocations m1 ! j = Some p then None else allocations m1 ! j)"
        "zeroed_pages B m2 = zeroed_pages B m1"
        "dirty_pages B m2 = dirty_pages B m1 \<union> {j \<in> set rest. j < RAM_PAGES \<and> allocations m1 ! j = Some p}"
      by blast
    have "release_all_at B p m (i # rest) = (Ok (), m2)"
      using own m1(1) m2(1) by (simp add: Let_def del: One_nat_def)
    moreover have "allocations m2 ! j = (if j \<in> set (i # rest) \<and> allocations m ! j = Some p then None else allocations m ! j)"
      if "j < length (allocations m)" for j
      using m2(5) that m1(2) i own by (auto simp: nth_list_update)
    moreover have "dirty_pages B m2 = dirty_pages B m \<union> {j \<in> set (i # rest). j < RAM_PAGES \<and> allocations m ! j = Some p}"
    proof -
      have "allocations m1 ! j = allocations m ! j" if "j \<in> set rest" for j
        using that i(3) m1(2) by (metis nth_list_update_neq)
      then show ?thesis using m2(7) m1(6) own by auto
    qed
    ultimately show ?thesis using m1 m2 by simp
  qed
qed auto

lemma takeWhile_upt:
  assumes "k \<le> length (takeWhile P [0 ..< n])" "j < k"
  shows "P j" "j < n"
proof -
  have "j < length (takeWhile P [0 ..< n])" using assms by simp
  then have "j < n" "takeWhile P [0 ..< n] ! j = [0 ..< n] ! j" "P (takeWhile P [0 ..< n] ! j)"
    using length_takeWhile_le [of P "[0 ..< n]"] takeWhile_nth [of j P "[0 ..< n]"]
      set_takeWhileD [OF nth_mem, of j P "[0 ..< n]"] by auto
  then show "P j" "j < n" by auto
qed

lemma leading_ones_run:
  assumes L: "bitvec_laws B" and "a \<le> RAM_PAGES" "k \<le> bv_leading_ones B bits a RAM_PAGES" "j \<in> {a ..< a + k}"
  shows "bv_get B bits j" "j < RAM_PAGES"
proof -
  have "k \<le> length (takeWhile (\<lambda>k. bv_get B bits (a + k)) [0 ..< RAM_PAGES - a])"
    using assms(3) unfolding bitvecD(5) [OF L assms(2) order_refl] .
  moreover have "j - a < k" using assms(4) by auto
  ultimately have "bv_get B bits (a + (j - a))" "j - a < RAM_PAGES - a" by (rule takeWhile_upt)+
  then show "bv_get B bits j" "j < RAM_PAGES" using assms(4) by auto
qed

lemma leading_ones_le:
  assumes "bitvec_laws B" "a \<le> RAM_PAGES"
  shows "bv_leading_ones B bits a RAM_PAGES \<le> RAM_PAGES - a"
  unfolding bitvecD(5) [OF assms order_refl]
  using length_takeWhile_le [of "\<lambda>k. bv_get B bits (a + k)" "[0 ..< RAM_PAGES - a]"] by simp

lemma leading_ones_pos:
  assumes "bitvec_laws B" "a < RAM_PAGES" "bv_get B bits a"
  shows "0 < bv_leading_ones B bits a RAM_PAGES"
proof -
  have "[0 ..< RAM_PAGES - a] = 0 # [1 ..< RAM_PAGES - a]" using assms(2) by (simp add: upt_rec)
  then show ?thesis
    using assms(3) bitvecD(5) [OF assms(1) less_imp_le [OF assms(2)] order_refl, of bits] by simp
qed

lemma take_dirty_pages_cases:
  assumes L: "bitvec_laws B" and inv: "mm_inv B m"
  obtains (none) m' where "take_dirty_pages B m = (Ok None, m')" "mm_inv B m'" "dirty_pages B m = {}"
      "dirty_pages B m' = {}" "zeroed_pages B m' = zeroed_pages B m" "allocations m' = allocations m"
  | (some) i n m' where "take_dirty_pages B m = (Ok (Some (page_phys i, n)), m')"
      "0 < n" "n \<le> MAX_ZERO_PAGES" "i + n \<le> RAM_PAGES" "{i ..< i + n} \<subseteq> dirty_pages B m"
      "dirty_pages B m' = dirty_pages B m - {i ..< i + n}" "zeroed_pages B m' = zeroed_pages B m"
      "allocations m' = allocations m" "mm_inv B m'"
proof -
  define start where "start = (case next_dirty_page_hint m of None \<Rightarrow> 0 | Some h \<Rightarrow> h)"
  define found where "found = (case bv_first_one B (free_pages_dirty m) start RAM_PAGES of
      Some i \<Rightarrow> Some (start + i) | None \<Rightarrow> bv_first_one B (free_pages_dirty m) 0 start)"
  have start: "start \<le> RAM_PAGES"
    using mm_invD(5) [OF inv] by (auto simp: start_def split: option.splits)
  show thesis
  proof (cases found)
    case None
    then have n: "bv_first_one B (free_pages_dirty m) start RAM_PAGES = None"
        "bv_first_one B (free_pages_dirty m) 0 start = None"
      by (auto simp: found_def split: option.splits)
    have "\<not> bv_get B (free_pages_dirty m) j" if "j < RAM_PAGES" for j
      using first_one_None [OF L start order_refl n(1), of j] first_one_None [OF L le0 start n(2), of j] that
      by (cases "j < start") auto
    then have "dirty_pages B m = {}" by (auto simp: dirty_pages_def)
    then show thesis
      using none [of "m\<lparr>next_dirty_page_hint := None\<rparr>"] None start inv
      by (auto simp: take_dirty_pages_def start_def [symmetric] found_def [symmetric] Let_def
          mm_inv_def dirty_pages_def zeroed_pages_def unowned_def)
  next
    case (Some i)
    have i: "i < RAM_PAGES" "bv_get B (free_pages_dirty m) i"
      using Some first_one_page [OF L start order_refl, of "free_pages_dirty m"]
        first_one_page [OF L le0 start, of "free_pages_dirty m"]
      by (fastforce simp: found_def add.commute split: option.splits)+
    define n where "n = min (bv_leading_ones B (free_pages_dirty m) i RAM_PAGES) MAX_ZERO_PAGES"
    let ?m = "m\<lparr>free_pages_dirty := bv_fill B (free_pages_dirty m) i (i + n) False,
        next_dirty_page_hint := Some ((i + n) mod RAM_PAGES)\<rparr>"
    have n: "0 < n" "n \<le> MAX_ZERO_PAGES" "i + n \<le> RAM_PAGES"
      using leading_ones_pos [OF L i] leading_ones_le [OF L, of i "free_pages_dirty m"] i(1)
      unfolding n_def by (simp add: MAX_ZERO_PAGES_def PAGE_SIZE_def, simp, linarith)
    have run: "{i ..< i + n} \<subseteq> dirty_pages B m"
      using leading_ones_run [OF L less_imp_le [OF i(1)], of n "free_pages_dirty m"]
      by (auto simp: n_def dirty_pages_def)
    have sets: "dirty_pages B ?m = dirty_pages B m - {i ..< i + n}" "zeroed_pages B ?m = zeroed_pages B m"
      using page_sets_fill(1) [OF L le_add1 n(3)] by (simp_all add: dirty_pages_def zeroed_pages_def)
    have "unowned ?m = unowned m" by (simp add: unowned_def)
    then have "mm_inv B ?m"
      using inv sets RAM_PAGES_pos unfolding mm_inv_def by auto
    then show thesis
      using some [of i n ?m] Some start n run sets
      by (simp add: take_dirty_pages_def start_def [symmetric] found_def [symmetric] Let_def n_def [symmetric])
  qed
qed

lemma set_pages_to_zeroed_run:
  assumes L: "bitvec_laws B" and inv: "mm_inv B m" and n: "0 < n" "i + n \<le> RAM_PAGES"
    and run: "{i ..< i + n} \<subseteq> unowned m - free_pages B m"
  shows "\<exists>m'. set_pages_to_zeroed B m (page_phys i) n = (Ok (), m') \<and> mm_inv B m' \<and>
    zeroed_pages B m' = zeroed_pages B m \<union> {i ..< i + n} \<and> dirty_pages B m' = dirty_pages B m \<and>
    allocations m' = allocations m"
proof -
  let ?m = "m\<lparr>free_pages_zeroed := bv_fill B (free_pages_zeroed m) i (i + n) True\<rparr>"
  have sets: "zeroed_pages B ?m = zeroed_pages B m \<union> {i ..< i + n}" "dirty_pages B ?m = dirty_pages B m"
    using page_sets_fill(2) [OF L le_add1 n(2)] by (simp_all add: dirty_pages_def zeroed_pages_def)
  have "unowned ?m = unowned m" by (simp add: unowned_def)
  then have "mm_inv B ?m" using inv run sets unfolding mm_inv_def by auto
  moreover have "set_pages_to_zeroed B m (page_phys i) n = (Ok (), ?m)"
    using n by (simp add: set_pages_to_zeroed_def offset_page_phys)
  ultimately show ?thesis using sets by auto
qed

lemma mark_free_spec:
  assumes L: "bitvec_laws B"
  shows "distinct is \<Longrightarrow> \<forall>i\<in>set is. i < RAM_PAGES \<Longrightarrow>
    allocations (mark_free B m is) = allocations m \<and>
    free_pages_zeroed (mark_free B m is) = free_pages_zeroed m \<and>
    next_zeroed_page_hint (mark_free B m is) = next_zeroed_page_hint m \<and>
    next_dirty_page_hint (mark_free B m is) = next_dirty_page_hint m \<and>
    dirty_pages B (mark_free B m is) = dirty_pages B m \<union> {i \<in> set is. allocations m ! i = None} \<and>
    num_free_pages (mark_free B m is) = num_free_pages m + card {i \<in> set is. allocations m ! i = None}"
proof (induction "is" arbitrary: m)
  case (Cons i rest)
  show ?case
  proof (cases "allocations m ! i = None")
    case True
    let ?m = "m\<lparr>free_pages_dirty := bv_set B (free_pages_dirty m) i True, num_free_pages := num_free_pages m + 1\<rparr>"
    have d: "dirty_pages B ?m = insert i (dirty_pages B m)"
      using page_sets_set(2) [OF L, of i] Cons.prems(2) by (simp add: dirty_pages_def)
    have c: "{j. (j = i \<or> j \<in> set rest) \<and> allocations m ! j = None} = insert i {j \<in> set rest. allocations m ! j = None}"
      using True by auto
    show ?thesis using Cons.IH [of ?m] Cons.prems True d unfolding set_simps by (simp add: c)
  next
    case False
    then obtain q where q: "allocations m ! i = Some q" by blast
    then have c: "{j. (j = i \<or> j \<in> set rest) \<and> allocations m ! j = None} = {j \<in> set rest. allocations m ! j = None}"
      by auto
    show ?thesis using Cons.IH [of m] Cons.prems q by (simp add: c)
  qed
qed simp

lemma init_from_bootstrap_inv:
  assumes L: "bitvec_laws B"
  shows "\<exists>m. init_from_bootstrap B (default_hack B) allocs (length allocs) = (Ok (), m) \<and>
    mm_inv B m \<and> allocations m = allocs \<and> free_pages B m = unowned m"
proof -
  define m0 where "m0 = (default_hack B)\<lparr>allocations := allocs\<rparr>"
  define ixs where "ixs = [0 ..< min (length allocs) RAM_PAGES]"
  define m where "m = mark_free B m0 ixs"
  have m0: "allocations m0 = allocs" "free_pages_zeroed m0 = bv_zero B" "next_zeroed_page_hint m0 = 0"
      "next_dirty_page_hint m0 = None" "dirty_pages B m0 = {}" "num_free_pages m0 = 0"
    using bitvecD(1) [OF L] by (simp_all add: m0_def default_hack_def dirty_pages_def)
  have "distinct ixs" "\<forall>i\<in>set ixs. i < RAM_PAGES" by (simp_all add: ixs_def)
  note S = mark_free_spec [OF L this, of m0, folded m_def, unfolded m0]
  have z: "zeroed_pages B m = {}" using bitvecD(1) [OF L] S by (simp add: zeroed_pages_def)
  have u: "unowned m = {i \<in> set ixs. allocs ! i = None}" using S by (auto simp: unowned_def ixs_def)
  have "mm_inv B m" using S z u by (simp add: mm_inv_def)
  moreover have "init_from_bootstrap B (default_hack B) allocs (length allocs) = (Ok (), m)"
    by (simp add: init_from_bootstrap_def Let_def m_def m0_def ixs_def)
  ultimately show ?thesis using S z u by simp
qed

end
