(* ===== verification/Page_Pool.thy ===== *)
theory Page_Pool
  imports Kernel_Prelude
begin

text \<open>
  The contract of a page allocator, as its clients (page tables, process
  creation) rely on it: an allocation takes a page nobody owns, gives it to the
  requester and touches no other page.  The lemmas are about sequences of
  allocations by any number of requesters.
\<close>

fun alloc_all :: "('s \<Rightarrow> 'p \<Rightarrow> 'a option \<times> 's) \<Rightarrow> 's \<Rightarrow> 'p list \<Rightarrow> 'a list \<times> 's" where
  "alloc_all alloc s [] = ([], s)"
| "alloc_all alloc s (p # ps) =
    (case alloc s p of
       (None, s1) \<Rightarrow> alloc_all alloc s1 ps
     | (Some a, s1) \<Rightarrow> (case alloc_all alloc s1 ps of (as, s2) \<Rightarrow> (a # as, s2)))"

locale page_pool =
  fixes inv :: "'s \<Rightarrow> bool"
    and owner :: "'s \<Rightarrow> 'a \<Rightarrow> 'p option"
    and alloc :: "'s \<Rightarrow> 'p \<Rightarrow> 'a option \<times> 's"
  assumes alloc_fresh:
      "inv s \<Longrightarrow> alloc s p = (Some a, s') \<Longrightarrow>
        inv s' \<and> owner s a = None \<and> owner s' = (owner s)(a := Some p)"
    and alloc_none: "inv s \<Longrightarrow> alloc s p = (None, s') \<Longrightarrow> s' = s"
begin

lemma alloc_all_spec:
  "inv s \<Longrightarrow> alloc_all alloc s ps = (as, s') \<Longrightarrow>
     inv s' \<and> distinct as \<and> (\<forall>a\<in>set as. owner s a = None \<and> owner s' a \<noteq> None) \<and>
     (\<forall>a. a \<notin> set as \<longrightarrow> owner s' a = owner s a)"
proof (induction ps arbitrary: s as)
  case (Cons p ps)
  obtain r t where r: "alloc s p = (r, t)" by fastforce
  show ?case
  proof (cases r)
    case None
    then show ?thesis using Cons r alloc_none by fastforce
  next
    case (Some a)
    then obtain bs where bs: "alloc_all alloc t ps = (bs, s')" "as = a # bs"
      using Cons.prems(2) r by (auto split: prod.splits)
    have a: "inv t" "owner s a = None" "owner t = (owner s)(a := Some p)"
      using alloc_fresh Cons.prems(1) r Some by blast+
    note IH = Cons.IH [OF a(1) bs(1)]
    have "a \<notin> set bs" using IH a(3) by auto
    then show ?thesis using IH a bs(2) by (auto simp: fun_upd_apply split: if_splits)
  qed
qed simp

lemma allocated_distinct:
  "inv s \<Longrightarrow> alloc_all alloc s ps = (as, s') \<Longrightarrow> distinct as"
  using alloc_all_spec by blast

lemma allocated_fresh:
  "inv s \<Longrightarrow> alloc_all alloc s ps = (as, s') \<Longrightarrow> a \<in> set as \<Longrightarrow> owner s a = None"
  using alloc_all_spec by blast

lemma others_kept:
  "inv s \<Longrightarrow> alloc_all alloc s ps = (as, s') \<Longrightarrow> owner s a \<noteq> None \<Longrightarrow> owner s' a = owner s a"
  using alloc_all_spec [of s ps as s'] by (cases "a \<in> set as") auto

end

end
