(* ===== verification/Allocator_States.thy ===== *)
theory Allocator_States
  imports Page_Allocator Page_Pool
begin

text \<open>
  The page allocator as its clients see it: the owner of each page, the contract of
  a page pool, and the states reachable by any interleaving of boot, allocation,
  claiming, moving, releasing, process exit and the two halves of the page zeroer.
\<close>

section \<open>Allocation as a whole\<close>

definition owner_of :: "'b memory_manager \<Rightarrow> nat \<Rightarrow> pid option" where
  "owner_of m i = (if i < length (allocations m) then allocations m ! i else None)"

lemma alloc_range_cases:
  assumes L: "bitvec_laws B" and inv: "mm_inv B m" and n: "0 < n" "n \<le> RAM_PAGES"
  obtains (full) "\<And>i. \<not> free_run B m n i" "alloc_range B m n p = (Err OutOfMemory, m)"
  | (run) i z m' where "alloc_range B m n p = (Ok (page_phys i, z), m')" "free_run B m n i"
      "z \<longrightarrow> {i ..< i + n} \<subseteq> zeroed_pages B m" "mm_inv B m'"
      "allocations m' = fill_range (allocations m) i (i + n) (Some p)"
      "num_free_pages m' = num_free_pages m - n"
      "free_pages B m' = free_pages B m - {i ..< i + n}"
proof (cases "n = 1")
  case True
  have one: "free_run B m 1 i \<longleftrightarrow> i \<in> free_pages B m" for i
    by (auto simp: free_run_def zeroed_pages_def dirty_pages_def)
  show thesis
  proof (cases "free_pages B m = {}")
    case empty: True
    then have "\<And>i. \<not> free_run B m n i" using one True by blast
    then show thesis using full alloc_single_page_full [OF L inv empty] True by (simp add: alloc_range_def)
  next
    case False
    obtain i z m' where r: "alloc_single_page B m p = (Ok (page_phys i, z), m')" "i \<in> free_pages B m"
        "z \<longleftrightarrow> i \<in> zeroed_pages B m" "allocations m' = (allocations m)[i := Some p]"
        "num_free_pages m' = num_free_pages m - 1" "mm_inv B m'"
        "free_pages B m' = free_pages B m - {i}"
      using alloc_single_page_free [OF L inv False, of p] by (metis Un_Diff)
    have "allocations m' = fill_range (allocations m) i (i + n) (Some p)"
      using r(4) True by (auto intro!: nth_equalityI simp: nth_fill_range nth_list_update)
    then show thesis
      using run [of i z m'] r one [of i] True by (simp add: alloc_range_def)
  qed
next
  case False
  show thesis
  proof (cases "\<exists>j. free_run B m n j")
    case True
    then obtain j where "free_run B m n j" ..
    from alloc_range_aligned_run [OF L inv n this, of p] show thesis
      using run False unfolding alloc_range_def by (auto simp: Un_Diff)
  next
    case none: False
    then show thesis
      using full alloc_range_aligned_full [OF L n, of m p] False by (simp add: alloc_range_def)
  qed
qed

lemma owner_fill:
  assumes "allocations m' = fill_range (allocations m) i (i + n) (Some p)" "i + n \<le> length (allocations m)"
  shows "owner_of m' j = (if j \<in> {i ..< i + n} then Some p else owner_of m j)"
  using assms by (auto simp: owner_of_def nth_fill_range)

section \<open>The allocator as a pool of pages\<close>

definition page_index :: "usize \<Rightarrow> nat" where
  "page_index pa = unat (pa - ENCRYPTED_DRAM_BASE) div PAGE_SIZE"

lemma page_index_phys: "i < RAM_PAGES \<Longrightarrow> page_index (page_phys i) = i"
  using offset_page_phys [of i undefined] page_phys_in_dram [of i]
  by (simp add: address_to_allocation_offset_def page_index_def)

definition pool_inv :: "'b bitvec \<times> 'b memory_manager \<Rightarrow> bool" where
  "pool_inv s \<longleftrightarrow> bitvec_laws (fst s) \<and> mm_inv (fst s) (snd s)"

definition pool_owner :: "'b bitvec \<times> 'b memory_manager \<Rightarrow> nat \<Rightarrow> pid option" where
  "pool_owner s = owner_of (snd s)"

definition pool_alloc ::
  "'b bitvec \<times> 'b memory_manager \<Rightarrow> pid \<Rightarrow> nat option \<times> ('b bitvec \<times> 'b memory_manager)" where
  "pool_alloc s p =
    (case alloc_range (fst s) (snd s) 1 p of
       (Ok (pa, z), m') \<Rightarrow> (Some (page_index pa), (fst s, m'))
     | (_, m') \<Rightarrow> (None, (fst s, m')))"

lemma pool_alloc_cases:
  assumes "pool_inv s"
  obtains (full) "pool_alloc s p = (None, s)"
  | (page) i s' where "pool_alloc s p = (Some i, s')" "pool_inv s'" "i < RAM_PAGES"
      "pool_owner s i = None" "pool_owner s' = (pool_owner s)(i := Some p)"
proof -
  obtain B m where s: "s = (B, m)" by fastforce
  have L: "bitvec_laws B" and inv: "mm_inv B m" using assms s by (simp_all add: pool_inv_def)
  have one: "0 < (1::nat)" "1 \<le> RAM_PAGES" using RAM_PAGES_pos by auto
  show thesis
    using L inv one
  proof (cases rule: alloc_range_cases [where p = p])
    case full
    then show thesis using that(1) s by (simp add: pool_alloc_def del: One_nat_def)
  next
    case (run i z m')
    have i: "i < RAM_PAGES" "i \<in> unowned m"
      using run(2) mm_invD(2) [OF inv, of i] by (auto simp: free_run_def)
    have "owner_of m' = (owner_of m)(i := Some p)"
      using owner_fill [OF run(5)] i(2) by (auto simp: fun_eq_iff unowned_def)
    moreover have "owner_of m i = None" using i(2) by (simp add: unowned_def owner_of_def)
    ultimately show thesis
      using that(2) [of i "(B, m')"] run(1,4) L s page_index_phys [OF i(1)] i(1)
      by (simp add: pool_alloc_def pool_inv_def pool_owner_def del: One_nat_def)
  qed
qed

interpretation mm_pool: page_pool pool_inv pool_owner pool_alloc
proof
  fix s p a s'
  assume inv: "pool_inv s" and "pool_alloc s p = (Some a, s')"
  then show "pool_inv s' \<and> pool_owner s a = None \<and> pool_owner s' = (pool_owner s)(a := Some p)"
    using pool_alloc_cases [OF inv, of p] by (metis fst_conv option.distinct(1) option.inject snd_conv)
next
  fix s p s'
  assume inv: "pool_inv s" and "pool_alloc s p = (None, s')"
  then show "s' = s"
    using pool_alloc_cases [OF inv, of p] by (metis fst_conv option.distinct(1) snd_conv)
qed

section \<open>Reachable allocator states\<close>

text \<open>
  The state of the allocator and the pages the zeroer has taken and not yet given
  back.  Any request may come between the two halves of zeroing.
\<close>

inductive mm_reachable ::
  "'b bitvec \<Rightarrow> (pid \<Rightarrow> usize \<Rightarrow> unit kresult) \<Rightarrow> 'b memory_manager \<Rightarrow> nat set \<Rightarrow> bool"
  for B allowed where
  boot: "init_from_bootstrap B (default_hack B) allocs (length allocs) = (Ok (), m) \<Longrightarrow>
     mm_reachable B allowed m {}"
| alloc: "mm_reachable B allowed m F \<Longrightarrow> alloc_range B m n p = (r, m') \<Longrightarrow> 0 < n \<Longrightarrow> n \<le> RAM_PAGES \<Longrightarrow>
     mm_reachable B allowed m' F"
| claim: "mm_reachable B allowed m F \<Longrightarrow> claim_release_move B allowed m addr p action = (r, m') \<Longrightarrow>
     mm_reachable B allowed m' F"
| exit: "mm_reachable B allowed m F \<Longrightarrow> release_all_memory_for_process B m p = (r, m') \<Longrightarrow>
     mm_reachable B allowed m' F"
| take_dirty: "mm_reachable B allowed m F \<Longrightarrow> take_dirty_pages B m = (Ok (Some (page_phys i, n)), m') \<Longrightarrow>
     i < RAM_PAGES \<Longrightarrow> mm_reachable B allowed m' (F \<union> {i ..< i + n})"
| put_zeroed: "mm_reachable B allowed m F \<Longrightarrow> {i ..< i + n} \<subseteq> F \<Longrightarrow> 0 < n \<Longrightarrow> i + n \<le> RAM_PAGES \<Longrightarrow>
     set_pages_to_zeroed B m (page_phys i) n = (r, m') \<Longrightarrow> mm_reachable B allowed m' (F - {i ..< i + n})"

text \<open>The pages being zeroed have no owner and are not offered.\<close>

definition zeroing_ok :: "'b bitvec \<Rightarrow> 'b memory_manager \<Rightarrow> nat set \<Rightarrow> bool" where
  "zeroing_ok B m F \<longleftrightarrow> F \<subseteq> unowned m \<and> F \<inter> free_pages B m = {}"

lemma release_all_spec:
  assumes "bitvec_laws B" "mm_inv B m"
  shows "\<exists>m'. release_all_memory_for_process B m p = (Ok (), m') \<and> mm_inv B m' \<and>
    length (allocations m') = length (allocations m) \<and>
    (\<forall>i. owner_of m' i = (if owner_of m i = Some p then None else owner_of m i)) \<and>
    zeroed_pages B m' = zeroed_pages B m \<and>
    dirty_pages B m' = dirty_pages B m \<union> {i. i < RAM_PAGES \<and> owner_of m i = Some p}"
proof -
  have ixs: "distinct [0 ..< length (allocations m)]" "\<forall>i\<in>set [0 ..< length (allocations m)]. i < length (allocations m)"
    by auto
  from release_all_at_spec [OF assms ixs, of p] obtain m' where m':
      "release_all_at B p m [0 ..< length (allocations m)] = (Ok (), m')" "mm_inv B m'"
      "length (allocations m') = length (allocations m)"
      "\<forall>i<length (allocations m). allocations m' ! i =
        (if i \<in> set [0 ..< length (allocations m)] \<and> allocations m ! i = Some p then None else allocations m ! i)"
      "zeroed_pages B m' = zeroed_pages B m"
      "dirty_pages B m' = dirty_pages B m \<union>
        {i \<in> set [0 ..< length (allocations m)]. i < RAM_PAGES \<and> allocations m ! i = Some p}"
    by blast
  have "owner_of m' i = (if owner_of m i = Some p then None else owner_of m i)" for i
    using m'(3,4) by (simp add: owner_of_def)
  moreover have "{i \<in> set [0 ..< length (allocations m)]. i < RAM_PAGES \<and> allocations m ! i = Some p} =
      {i. i < RAM_PAGES \<and> owner_of m i = Some p}"
    by (auto simp: owner_of_def split: if_splits)
  ultimately show ?thesis using m' by (auto simp: release_all_memory_for_process_def)
qed

lemma claim_release_move_inv:
  assumes L: "bitvec_laws B" and inv: "mm_inv B m" and F: "zeroing_ok B m F"
    and step: "claim_release_move B allowed m addr p action = (r, m')"
  shows "mm_inv B m' \<and> zeroing_ok B m' F"
proof (cases "m' = m")
  case False
  obtain off where off: "off < length (allocations m)"
    and at: "(r, m') = (case action of Claim \<Rightarrow> claim_page_at B m off p
      | MoveFrom q \<Rightarrow> move_page_at m off p q | Release \<Rightarrow> release_page_at B m off p)"
    using step False unfolding claim_release_move_def sbind_def
    by (fastforce simp: not_le split: if_splits outcome.splits option.splits)
  show ?thesis
  proof (cases action)
    case (MoveFrom q)
    then have "m' = snd (move_page_at m off p q)" using arg_cong [OF at, of snd] by simp
    then show ?thesis using move_page_at_inv [OF inv off, of p q] F by (simp add: zeroing_ok_def)
  next
    case Release
    then have rel: "release_page_at B m off p = (r, m')" using at by simp
    then have own: "allocations m ! off = Some p"
      using False by (auto simp: release_page_at_def split: option.splits if_splits)
    obtain m1 where m1: "release_page_at B m off p = (Ok (), m1)" "mm_inv B m1"
        "allocations m1 = (allocations m)[off := None]" "zeroed_pages B m1 = zeroed_pages B m"
        "dirty_pages B m1 = (if off < RAM_PAGES then insert off (dirty_pages B m) else dirty_pages B m)"
      using release_page_at_owned [OF L inv off own] by blast
    have "unowned m \<subseteq> unowned m1" using off m1(3) by (auto simp: unowned_def nth_list_update)
    moreover have "off \<notin> F" using F own by (auto simp: zeroing_ok_def unowned_def)
    ultimately have "zeroing_ok B m1 F" using F m1(4,5) by (auto simp: zeroing_ok_def)
    then show ?thesis using rel m1 by simp
  next
    case Claim
    then have cl: "claim_page_at B m off p = (r, m')" using at by simp
    show ?thesis
    proof (cases "off < RAM_PAGES")
      case True
      then have free: "off \<in> free_pages B m" using claim_page_at_taken [of off B m p] cl False by auto
      obtain m1 where m1: "claim_page_at B m off p = (Ok (), m1)" "mm_inv B m1"
          "allocations m1 = (allocations m)[off := Some p]"
          "zeroed_pages B m1 = zeroed_pages B m - {off}" "dirty_pages B m1 = dirty_pages B m - {off}"
        using claim_page_at_free [OF L inv off free] by blast
      have "zeroing_ok B m1 F"
        using F free m1(4,5) unowned_set [OF off m1(3)] by (auto simp: zeroing_ok_def)
      then show ?thesis using cl m1 by simp
    next
      case out: False
      then show ?thesis using claim_page_at_region [OF inv out, of p] cl F by (simp add: zeroing_ok_def)
    qed
  qed
qed (use inv F in simp)

lemma mm_reachable_inv:
  assumes L: "bitvec_laws B"
  shows "mm_reachable B allowed m F \<Longrightarrow> mm_inv B m \<and> zeroing_ok B m F"
proof (induction rule: mm_reachable.induct)
  case (boot allocs m)
  then show ?case using init_from_bootstrap_inv [OF L, of allocs] by (auto simp: zeroing_ok_def)
next
  case (alloc m F n p r m')
  then have inv: "mm_inv B m" and F: "zeroing_ok B m F" by auto
  show ?case
    using L inv alloc.hyps(3,4)
  proof (cases rule: alloc_range_cases [where p = p])
    case full
    then show ?thesis using alloc inv F by simp
  next
    case (run i z m1)
    have "unowned m1 = unowned m - {i ..< i + n}"
      using run(5) by (auto simp: unowned_def nth_fill_range split: if_splits)
    moreover have "{i ..< i + n} \<subseteq> free_pages B m" using run(2) by (simp add: free_run_def)
    ultimately have "zeroing_ok B m1 F" using F run(7) unfolding zeroing_ok_def by blast
    then show ?thesis using run(1,4) alloc.hyps(2) by simp
  qed
next
  case (claim m F addr p action r m')
  then show ?case using claim_release_move_inv [OF L] by blast
next
  case (exit m F p r m')
  then obtain m1 where m1: "release_all_memory_for_process B m p = (Ok (), m1)" "mm_inv B m1"
      "length (allocations m1) = length (allocations m)"
      "\<forall>i. owner_of m1 i = (if owner_of m i = Some p then None else owner_of m i)"
      "zeroed_pages B m1 = zeroed_pages B m"
      "dirty_pages B m1 = dirty_pages B m \<union> {i. i < RAM_PAGES \<and> owner_of m i = Some p}"
    using release_all_spec [OF L, of m p] by blast
  have "unowned m \<subseteq> unowned m1"
    using m1(3,4) unfolding unowned_def owner_of_def by (auto split: if_splits)
  moreover have "i \<notin> F" if "i < RAM_PAGES" "owner_of m i = Some p" for i
    using exit that by (auto simp: zeroing_ok_def unowned_def owner_of_def)
  ultimately have "zeroing_ok B m1 F" using exit m1(5,6) unfolding zeroing_ok_def by auto
  then show ?case using exit.hyps m1(1,2) by simp
next
  case (take_dirty m F i n m')
  then have inv: "mm_inv B m" by simp
  from L inv show ?case
  proof (cases rule: take_dirty_pages_cases)
    case (some j k m1)
    have "j < RAM_PAGES" using some(2,4) by simp
    then have "j = i" "k = n" "m1 = m'" using take_dirty some(1) page_phys_inject [of j i] by auto
    moreover have "{j ..< j + k} \<subseteq> unowned m" using some(5) mm_invD(2) [OF inv] by blast
    ultimately show ?thesis
      using some take_dirty mm_invD(1) [OF inv] unfolding zeroing_ok_def unowned_def by auto
  qed (use take_dirty in simp)
next
  case (put_zeroed m F i n r m')
  then have run: "{i ..< i + n} \<subseteq> unowned m - free_pages B m" by (auto simp: zeroing_ok_def)
  from set_pages_to_zeroed_run [OF L _ put_zeroed.hyps(3,4) this] put_zeroed
  obtain m1 where m1: "set_pages_to_zeroed B m (page_phys i) n = (Ok (), m1)" "mm_inv B m1"
      "zeroed_pages B m1 = zeroed_pages B m \<union> {i ..< i + n}" "dirty_pages B m1 = dirty_pages B m"
      "allocations m1 = allocations m"
    by blast
  then show ?case using put_zeroed by (auto simp: zeroing_ok_def unowned_def)
qed

section \<open>Properties\<close>

text \<open>Bitmaps as functions: an instance of the interface of the bitvec crate.\<close>

definition fun_bits :: "(nat \<Rightarrow> bool) bitvec" where
  "fun_bits =
    \<lparr>bv_zero = (\<lambda>_. False), bv_get = (\<lambda>f i. f i), bv_set = (\<lambda>f i v. f(i := v)),
     bv_fill = (\<lambda>f a b v j. if a \<le> j \<and> j < b then v else f j),
     bv_first_one = (\<lambda>f a b. find (\<lambda>k. f (a + k)) [0 ..< b - a]),
     bv_leading_ones = (\<lambda>f a b. length (takeWhile (\<lambda>k. f (a + k)) [0 ..< b - a])),
     bv_iter_ones = (\<lambda>f a b. filter (\<lambda>k. f (a + k)) [0 ..< b - a]),
     bv_all = (\<lambda>f a b. list_all (\<lambda>k. f (a + k)) [0 ..< b - a])\<rparr>"

lemma fun_bits_laws: "bitvec_laws fun_bits"
  by (simp add: bitvec_laws_def fun_bits_def)

definition allow_all_pages :: "pid \<Rightarrow> usize \<Rightarrow> unit kresult" where
  "allow_all_pages p addr = Ok ()"

text \<open>A machine with sixteen pages of RAM, the first owned by the kernel.\<close>

definition boot_pages :: "pid option list" where
  "boot_pages = Some (nz_lit 1) # replicate 15 None"

definition booted :: "(nat \<Rightarrow> bool) memory_manager" where
  "booted = snd (init_from_bootstrap fun_bits (default_hack fun_bits) boot_pages (length boot_pages))"

lemma booted_reachable: "mm_reachable fun_bits allowed booted {}"
  and booted_allocations: "allocations booted = boot_pages"
  and booted_free: "free_pages fun_bits booted = {1 ..< 16}"
proof -
  obtain m where m: "init_from_bootstrap fun_bits (default_hack fun_bits) boot_pages (length boot_pages) = (Ok (), m)"
      "allocations m = boot_pages" "free_pages fun_bits m = unowned m"
    using init_from_bootstrap_inv [OF fun_bits_laws, of boot_pages] by blast
  then have b: "booted = m" by (simp add: booted_def)
  show "mm_reachable fun_bits allowed booted {}" using mm_reachable.boot [OF m(1)] b by simp
  show "allocations booted = boot_pages" using m b by simp
  have "unowned m = {1 ..< 16}"
    using m(2) by (auto simp: unowned_def boot_pages_def RAM_PAGES_value nth_Cons' split: if_splits)
  then show "free_pages fun_bits booted = {1 ..< 16}" using m b by simp
qed

text \<open>
  Property C6: the outcome of every request for \<open>n\<close> pages in every reachable state.  For no page
  at all, and for more than \<open>RAM_PAGES\<close>, the allocator panics.  Otherwise the request gives the
  process a run of \<open>n\<close> pages of RAM none of which had an owner or was being zeroed, changes
  the owner of no other page, reports pages as zeroed only if they are, and counts
  them; or it fails with \<open>OutOfMemory\<close>, leaves everything as it was, and no run of \<open>n\<close> free
  pages exists.
\<close>

theorem alloc_range_safe:
  assumes "bitvec_laws B" "mm_reachable B allowed m F" "alloc_range B m n p = (r, m')"
  shows "if n = 0 \<or> RAM_PAGES < n then r = Panic
    else (\<exists>i z. r = Ok (page_phys i, z) \<and> i + n \<le> RAM_PAGES \<and>
        (\<forall>j\<in>{i ..< i + n}. owner_of m j = None \<and> j \<notin> F) \<and>
        (\<forall>j. owner_of m' j = (if j \<in> {i ..< i + n} then Some p else owner_of m j)) \<and>
        (z \<longrightarrow> {i ..< i + n} \<subseteq> zeroed_pages B m) \<and> num_free_pages m' + n = num_free_pages m) \<or>
      (r = Err OutOfMemory \<and> m' = m \<and> (\<forall>i. \<not> free_run B m n i))"
proof (cases "n = 0 \<or> RAM_PAGES < n")
  case True
  then show ?thesis using assms(3) RAM_PAGES_pos by (auto simp: alloc_range_def alloc_range_aligned_def)
next
  case False
  then have n: "0 < n" "n \<le> RAM_PAGES" by simp_all
  have inv: "mm_inv B m" and F: "zeroing_ok B m F" using mm_reachable_inv [OF assms(1,2)] by auto
  show ?thesis
    using assms(1) inv n
  proof (cases rule: alloc_range_cases [where p = p])
    case full
    then show ?thesis using assms(3) False by simp
  next
    case (run i z m1)
    have free: "{i ..< i + n} \<subseteq> free_pages B m" "i + n \<le> RAM_PAGES" using run(2) by (simp_all add: free_run_def)
    then have "owner_of m j = None \<and> j \<notin> F" if "j \<in> {i ..< i + n}" for j
      using that mm_invD(2) [OF inv, of j] F by (auto simp: zeroing_ok_def unowned_def owner_of_def)
    moreover note own = run_owned [OF inv run(2) n(1)]
    moreover have "num_free_pages m1 + n = num_free_pages m" using run(6) own(2) by simp
    moreover have "r = Ok (page_phys i, z)" "m' = m1" using run(1) assms(3) by simp_all
    ultimately show ?thesis
      unfolding if_not_P [OF False] using run(3) free(2) owner_fill [OF run(5) own(1)] by blast
  qed
qed

theorem alloc_range_safe_witness:
  "bitvec_laws fun_bits \<and> mm_reachable fun_bits allow_all_pages booted {} \<and>
   (\<exists>i z m'. alloc_range fun_bits booted 2 (nz_lit 7) = (Ok (page_phys i, z), m') \<and>
     (\<forall>j. owner_of m' j = (if j \<in> {i ..< i + 2} then Some (nz_lit 7) else owner_of booted j)))"
proof -
  note R = booted_reachable [of allow_all_pages]
  have n: "\<not> ((2::nat) = 0 \<or> RAM_PAGES < 2)" by (simp add: RAM_PAGES_value)
  obtain r m' where r: "alloc_range fun_bits booted 2 (nz_lit 7) = (r, m')" by fastforce
  have fr: "free_run fun_bits booted 2 1"
  proof -
    have "{1 ..< 1 + 2} \<subseteq> {1 ..< 16 :: nat}" by auto
    then show ?thesis unfolding free_run_def booted_free by (simp add: RAM_PAGES_value)
  qed
  from alloc_range_safe [OF fun_bits_laws R r, unfolded if_not_P [OF n]] fr obtain i z where
      "r = Ok (page_phys i, z)" "\<forall>j. owner_of m' j = (if j \<in> {i ..< i + 2} then Some (nz_lit 7) else owner_of booted j)"
    by blast
  then show ?thesis using r R fun_bits_laws by blast
qed



text \<open>
  Property C9: the bookkeeping of the allocator in every reachable state, with any
  interleaving of allocation, claiming, moving, releasing, process exit and
  zeroing.  No page is both dirty and zeroed; a page offered by a bitmap or being
  zeroed has no owner; a page being zeroed is not offered; \<open>num_free_pages\<close> is the
  number of pages of RAM without an owner.
\<close>

theorem allocator_invariant:
  assumes "bitvec_laws B" "mm_reachable B allowed m F"
  shows "zeroed_pages B m \<inter> dirty_pages B m = {} \<and>
    (\<forall>i \<in> free_pages B m \<union> F. i < length (allocations m) \<and> owner_of m i = None) \<and>
    F \<inter> free_pages B m = {} \<and>
    num_free_pages m = card {i. i < RAM_PAGES \<and> i < length (allocations m) \<and> owner_of m i = None}"
proof -
  have inv: "mm_inv B m" and F: "zeroing_ok B m F" using mm_reachable_inv [OF assms] by auto
  have "{i. i < RAM_PAGES \<and> i < length (allocations m) \<and> owner_of m i = None} = unowned m"
    by (auto simp: unowned_def owner_of_def)
  moreover have "i < length (allocations m) \<and> owner_of m i = None" if "i \<in> unowned m" for i
    using that by (simp add: unowned_def owner_of_def)
  ultimately show ?thesis using inv F unfolding mm_inv_def zeroing_ok_def by auto
qed

theorem allocator_invariant_witness:
  "bitvec_laws fun_bits \<and> mm_reachable fun_bits allow_all_pages booted {} \<and>
   num_free_pages booted = card {i. i < RAM_PAGES \<and> i < length (allocations booted) \<and> owner_of booted i = None}"
  using allocator_invariant [OF fun_bits_laws booted_reachable [of allow_all_pages]]
    fun_bits_laws booted_reachable [of allow_all_pages] by simp

text \<open>
  Pages handed out one by one, to whatever processes ask, are pairwise
  different, had no owner before, and the pages that had an owner keep it.
\<close>

theorem pages_handed_out_once:
  assumes "bitvec_laws B" "mm_reachable B allowed m F"
    and "alloc_all pool_alloc (B, m) ps = (pages, (B', m'))"
  shows "distinct pages \<and> (\<forall>i\<in>set pages. owner_of m i = None) \<and>
    (\<forall>i. owner_of m i \<noteq> None \<longrightarrow> owner_of m' i = owner_of m i)"
proof -
  have inv: "pool_inv (B, m)" using mm_reachable_inv [OF assms(1,2)] assms(1) by (simp add: pool_inv_def)
  note P = mm_pool.allocated_distinct [OF inv assms(3)] mm_pool.allocated_fresh [OF inv assms(3)]
    mm_pool.others_kept [OF inv assms(3)]
  show ?thesis
    using P(1) P(2) [unfolded pool_owner_def] P(3) [unfolded pool_owner_def] by simp
qed

theorem pages_handed_out_once_witness:
  "bitvec_laws fun_bits \<and> mm_reachable fun_bits allow_all_pages booted {} \<and>
   (\<exists>pages s. alloc_all pool_alloc (fun_bits, booted) [nz_lit 2, nz_lit 3, nz_lit 2] = (pages, s) \<and>
     distinct pages \<and> (\<forall>i\<in>set pages. owner_of booted i = None))"
proof -
  note R = booted_reachable [of allow_all_pages]
  obtain pages B' m' where e: "alloc_all pool_alloc (fun_bits, booted) [nz_lit 2, nz_lit 3, nz_lit 2] = (pages, (B', m'))"
    by (metis surj_pair)
  from pages_handed_out_once [OF fun_bits_laws R e] e R fun_bits_laws show ?thesis by blast
qed

text \<open>
  Property C27: when a process exits, every page it owned is free again and dirty,
  the pages of all other processes keep their owners, and the number of free pages
  grows by the number of its pages of RAM.  The release never panics.
\<close>

theorem process_exit_frees_exactly:
  assumes "bitvec_laws B" "mm_reachable B allowed m F" "release_all_memory_for_process B m p = (r, m')"
  shows "r = Ok () \<and> (\<forall>i. owner_of m' i = (if owner_of m i = Some p then None else owner_of m i)) \<and>
    {i. i < RAM_PAGES \<and> owner_of m i = Some p} \<subseteq> dirty_pages B m' \<and>
    num_free_pages m' = num_free_pages m + card {i. i < RAM_PAGES \<and> owner_of m i = Some p}"
proof -
  have inv: "mm_inv B m" using mm_reachable_inv [OF assms(1,2)] by simp
  let ?S = "{i. i < RAM_PAGES \<and> owner_of m i = Some p}"
  obtain m1 where m1: "release_all_memory_for_process B m p = (Ok (), m1)" "mm_inv B m1"
      "length (allocations m1) = length (allocations m)"
      "\<forall>i. owner_of m1 i = (if owner_of m i = Some p then None else owner_of m i)"
      "dirty_pages B m1 = dirty_pages B m \<union> ?S"
    using release_all_spec [OF assms(1) inv, of p] by blast
  have u: "i \<in> unowned k \<longleftrightarrow> i < RAM_PAGES \<and> i < length (allocations k) \<and> owner_of k i = None"
    for i and k :: "'a memory_manager"
    by (auto simp: unowned_def owner_of_def)
  have len: "i < length (allocations m)" if "owner_of m i = Some p" for i
    using that by (simp add: owner_of_def split: if_splits)
  have "unowned m1 = unowned m \<union> ?S" using m1(3,4) len by (auto simp: u split: if_splits)
  moreover have "unowned m \<inter> ?S = {}" by (auto simp: u)
  ultimately have "card (unowned m1) = card (unowned m) + card ?S"
    by (simp add: card_Un_disjoint)
  then show ?thesis using m1 mm_invD(3) [OF inv] mm_invD(3) [OF m1(2)] assms(3) by auto
qed

theorem process_exit_frees_exactly_witness:
  "bitvec_laws fun_bits \<and> mm_reachable fun_bits allow_all_pages booted {} \<and>
   (\<exists>m'. release_all_memory_for_process fun_bits booted (nz_lit 1) = (Ok (), m') \<and> owner_of m' 0 = None)"
proof -
  note R = booted_reachable [of allow_all_pages]
  obtain r m' where r: "release_all_memory_for_process fun_bits booted (nz_lit 1) = (r, m')" by fastforce
  have "owner_of booted 0 = Some (nz_lit 1)" by (simp add: owner_of_def booted_allocations boot_pages_def)
  then show ?thesis using process_exit_frees_exactly [OF fun_bits_laws R r] r R fun_bits_laws by auto
qed

lemma page_phys_aligned:
  assumes "i < RAM_PAGES"
  shows "page_phys i AND of_nat (PAGE_SIZE - 1) = 0"
proof -
  have m14: "of_nat (PAGE_SIZE - 1) = (mask 14 :: usize)" by (simp add: PAGE_SIZE_def mask_eq_exp_minus_1)
  have "(page_phys i :: usize) = push_bit 14 (of_nat (0x10000 + i))"
    by (simp add: page_phys_def PAGE_SIZE_def ENCRYPTED_DRAM_BASE_def PLAINTEXT_DRAM_BASE_def
        push_bit_eq_mult algebra_simps)
  then show ?thesis unfolding m14 by (simp add: take_bit_eq_mask [symmetric] take_bit_push_bit)
qed

text \<open>
  Property C28: ownership protects a page of RAM.  While a process owns it, another
  process can neither claim nor release it; both calls report \<open>MemoryInUse\<close> (or
  are refused by the permission check) and change nothing.
\<close>

theorem owned_page_protected:
  assumes "owner_of m i = Some q" "q \<noteq> p" "i < RAM_PAGES" "allowed p (page_phys i) = Ok ()"
  shows "claim_page B allowed m (page_phys i) p = (Err MemoryInUse, m) \<and>
    release_page B allowed m (page_phys i) p = (Err MemoryInUse, m)"
proof -
  have i: "i < length (allocations m)" "allocations m ! i = Some q"
    using assms(1) by (auto simp: owner_of_def split: if_splits)
  then show ?thesis
    using assms page_phys_aligned [OF assms(3)] offset_page_phys [OF assms(3), of m]
    by (simp add: claim_page_def release_page_def claim_release_move_def claim_page_at_def
        release_page_at_def shared_peripheral_def SHARED_PERIPHERALS_def)
qed

theorem owned_page_protected_witness:
  "claim_page fun_bits allow_all_pages booted (page_phys 0) (nz_lit 5) = (Err MemoryInUse, booted) \<and>
   release_page fun_bits allow_all_pages booted (page_phys 0) (nz_lit 5) = (Err MemoryInUse, booted)"
proof (rule owned_page_protected)
  show "owner_of booted 0 = Some (nz_lit 1)" by (simp add: owner_of_def booted_allocations boot_pages_def)
  show "(nz_lit 1 :: pid) \<noteq> nz_lit 5" by (simp add: nz_lit_inject)
qed (simp_all add: RAM_PAGES_value allow_all_pages_def)

text \<open>
  Property C39: claiming an address that lies in the address range of RAM but beyond
  the pages the machine has (the tracker is only as long as the RAM found at boot,
  less the frame buffer) panics the kernel instead of reporting an error.
\<close>

theorem claim_beyond_tracker_panics:
  assumes "length (allocations m) \<le> i" "i < RAM_PAGES" "allowed p (page_phys i) = Ok ()"
  shows "claim_page B allowed m (page_phys i) p = (Panic, m)"
  using assms(1,3) page_phys_aligned [OF assms(2)] offset_page_phys [OF assms(2), of m]
  by (simp add: claim_page_def claim_release_move_def shared_peripheral_def SHARED_PERIPHERALS_def)

theorem claim_beyond_tracker_panics_witness:
  "claim_page fun_bits allow_all_pages booted (page_phys 16) (nz_lit 5) = (Panic, booted)"
  by (rule claim_beyond_tracker_panics)
    (simp_all add: RAM_PAGES_value booted_allocations boot_pages_def allow_all_pages_def)

end
