(* ===== verification/Page_Tables.thy ===== *)
theory Page_Tables
  imports Allocator_States
begin

text \<open>
  The AArch64 translation tables of \<open>xous/kernel/src/arch/aarch64/mem.rs\<close>: three levels
  of 2048 64-bit entries, read and written through the linear map of physical memory
  in the kernel half.  \<open>ram\<close> gives the 64-bit word at a kernel virtual address; the
  pages of the tables come from the page allocator \<open>mm\<close>.  TLB and cache maintenance
  have no effect on the tables and are left out.
\<close>

section \<open>Table geometry and descriptors\<close>

definition PAGE_SHIFT :: nat where "PAGE_SHIFT = 14"
definition TABLE_ENTRIES :: usize where "TABLE_ENTRIES = 2048"
definition TABLE_INDEX_BITS :: nat where "TABLE_INDEX_BITS = 11"

definition PTE_VALID :: u64 where "PTE_VALID = push_bit 0 1"
definition PTE_TABLE :: u64 where "PTE_TABLE = push_bit 1 1"
definition PTE_ATTR_IDX_SHIFT :: nat where "PTE_ATTR_IDX_SHIFT = 2"
definition PTE_ATTR_DEVICE :: u64 where "PTE_ATTR_DEVICE = push_bit PTE_ATTR_IDX_SHIFT 0"
definition PTE_ATTR_NORMAL :: u64 where "PTE_ATTR_NORMAL = push_bit PTE_ATTR_IDX_SHIFT 1"
definition PTE_AP_RW_EL1 :: u64 where "PTE_AP_RW_EL1 = push_bit 6 0"
definition PTE_AP_RW_ALL :: u64 where "PTE_AP_RW_ALL = push_bit 6 1"
definition PTE_AP_RO_EL1 :: u64 where "PTE_AP_RO_EL1 = push_bit 6 2"
definition PTE_AP_RO_ALL :: u64 where "PTE_AP_RO_ALL = push_bit 6 3"
definition PTE_SH_ISH :: u64 where "PTE_SH_ISH = push_bit 8 3"
definition PTE_AF :: u64 where "PTE_AF = push_bit 10 1"
definition PTE_NG :: u64 where "PTE_NG = push_bit 11 1"
definition PTE_PXN :: u64 where "PTE_PXN = push_bit 53 1"
definition PTE_UXN :: u64 where "PTE_UXN = push_bit 54 1"
definition PTE_ADDR_MASK :: u64 where "PTE_ADDR_MASK = 0x0000FFFFFFFFC000"

definition l1_index :: "usize \<Rightarrow> usize" where
  "l1_index va = drop_bit (PAGE_SHIFT + 2 * TABLE_INDEX_BITS) va AND (TABLE_ENTRIES - 1)"

definition l2_index :: "usize \<Rightarrow> usize" where
  "l2_index va = drop_bit (PAGE_SHIFT + TABLE_INDEX_BITS) va AND (TABLE_ENTRIES - 1)"

definition l3_index :: "usize \<Rightarrow> usize" where
  "l3_index va = drop_bit PAGE_SHIFT va AND (TABLE_ENTRIES - 1)"

definition flags_to_pte :: "memory_flags \<Rightarrow> bool \<Rightarrow> u64" where
  "flags_to_pte flags user =
    (let pte = PTE_VALID OR PTE_TABLE OR PTE_AF OR PTE_SH_ISH;
         pte = (if flags_is_set flags FLAG_DEV then pte OR PTE_ATTR_DEVICE else pte OR PTE_ATTR_NORMAL)
     in if user then
          let pte = pte OR PTE_NG;
              writable = flags_is_set flags FLAG_W;
              executable = flags_is_set flags FLAG_X
          in if writable \<and> executable then pte OR PTE_AP_RW_ALL OR (PTE_UXN OR PTE_PXN)
             else if writable then pte OR PTE_AP_RW_ALL OR (PTE_UXN OR PTE_PXN)
             else if executable then pte OR PTE_AP_RO_ALL OR PTE_PXN
             else pte OR PTE_AP_RO_ALL OR (PTE_UXN OR PTE_PXN)
        else
          let pte = (if flags_is_set flags FLAG_W then pte OR PTE_AP_RW_EL1 else pte OR PTE_AP_RO_EL1)
          in if flags_is_set flags FLAG_X then pte OR PTE_UXN else pte OR (PTE_UXN OR PTE_PXN))"

section \<open>Machine state\<close>

record 'b vm =
  mm :: "'b memory_manager"
  ram :: "usize \<Rightarrow> u64"

record memory_mapping =
  ttbr0 :: usize
  mapping_pid :: usize
  aslr_slide :: usize

record mmu_registers =
  ttbr0_el1 :: u64
  contextidr_el1 :: u64

definition current_mapping :: "mmu_registers \<Rightarrow> memory_mapping" where
  "current_mapping regs =
    \<lparr>ttbr0 = ttbr0_el1 regs AND PTE_ADDR_MASK, mapping_pid = contextidr_el1 regs, aslr_slide = 0\<rparr>"

definition get_pid :: "memory_mapping \<Rightarrow> pid" where
  "get_pid mp = (case nz_new (ucast (mapping_pid mp)) of Some p \<Rightarrow> p | None \<Rightarrow> nz_lit 1)"

definition activate :: "memory_mapping \<Rightarrow> mmu_registers" where
  "activate mp =
    \<lparr>ttbr0_el1 = ttbr0 mp OR push_bit 48 (mapping_pid mp), contextidr_el1 = mapping_pid mp\<rparr>"

text \<open>\<open>table.add(index)\<close> on a \<open>*mut u64\<close>, and \<open>write_bytes(va, 0, PAGE_SIZE)\<close>.\<close>

definition ptr_add :: "usize \<Rightarrow> usize \<Rightarrow> usize" where
  "ptr_add table index = table + 8 * index"

definition zero_page :: "(usize \<Rightarrow> u64) \<Rightarrow> usize \<Rightarrow> usize \<Rightarrow> u64" where
  "zero_page r va = (\<lambda>a. if unat (a - va) < PAGE_SIZE then 0 else r a)"

text \<open>A call of the page allocator with its error replaced by \<open>OutOfMemory\<close>.\<close>

definition alloc_table_page :: "'b bitvec \<Rightarrow> pid \<Rightarrow> 'b vm \<Rightarrow> usize kresult \<times> 'b vm" where
  "alloc_table_page B p v =
    (case alloc_range B (mm v) 1 p of
       (Ok (addr, _), m) \<Rightarrow> (Ok addr, v\<lparr>mm := m\<rparr>)
     | (Err _, m) \<Rightarrow> (Err OutOfMemory, v\<lparr>mm := m\<rparr>)
     | (Panic, m) \<Rightarrow> (Panic, v\<lparr>mm := m\<rparr>))"

section \<open>Operations\<close>

definition mapping_allocate ::
  "'b bitvec \<Rightarrow> pid \<Rightarrow> memory_mapping \<Rightarrow> 'b vm \<Rightarrow> memory_mapping kresult \<times> 'b vm" where
  "mapping_allocate B p mp v =
    sbind (alloc_table_page B p v) (\<lambda>l1_phys v.
      (Ok (mp\<lparr>ttbr0 := l1_phys, mapping_pid := ucast (nz_get p)\<rparr>),
       v\<lparr>ram := zero_page (ram v) (phys_to_virt l1_phys)\<rparr>))"

definition ensure_table ::
  "'b bitvec \<Rightarrow> memory_mapping \<Rightarrow> usize \<Rightarrow> usize \<Rightarrow> 'b vm \<Rightarrow> usize kresult \<times> 'b vm" where
  "ensure_table B mp table index v =
    (let entry = ram v (ptr_add table index) in
     if entry AND PTE_VALID \<noteq> 0 \<and> entry AND PTE_TABLE \<noteq> 0
     then (Ok (phys_to_virt (entry AND PTE_ADDR_MASK)), v)
     else
       sbind (alloc_table_page B (get_pid mp) v) (\<lambda>new_table_pa v.
         let new_table_va = phys_to_virt new_table_pa;
             r = zero_page (ram v) new_table_va;
             desc = (new_table_pa AND PTE_ADDR_MASK) OR PTE_VALID OR PTE_TABLE
         in (Ok new_table_va, v\<lparr>ram := r(ptr_add table index := desc)\<rparr>)))"

definition map_page ::
  "'b bitvec \<Rightarrow> memory_mapping \<Rightarrow> usize \<Rightarrow> usize \<Rightarrow> memory_flags \<Rightarrow> bool \<Rightarrow> 'b vm \<Rightarrow>
    unit kresult \<times> 'b vm" where
  "map_page B mp phys va flags map_user v =
    (let pte_flags = flags_to_pte flags map_user;
         l1_table = phys_to_virt (ttbr0 mp)
     in sbind (ensure_table B mp l1_table (l1_index va) v) (\<lambda>l2_table v.
        sbind (ensure_table B mp l2_table (l2_index va) v) (\<lambda>l3_table v.
        let entry = (phys AND PTE_ADDR_MASK) OR pte_flags
        in (Ok (), v\<lparr>ram := (ram v)(ptr_add l3_table (l3_index va) := entry)\<rparr>))))"

definition unmap_page :: "memory_mapping \<Rightarrow> usize \<Rightarrow> 'b vm \<Rightarrow> unit kresult \<times> 'b vm" where
  "unmap_page mp va v =
    (let l1_table = phys_to_virt (ttbr0 mp);
         l1_entry = ram v (ptr_add l1_table (l1_index va))
     in if l1_entry AND PTE_VALID = 0 then (Err BadAddress, v)
        else
          let l2_table = phys_to_virt (l1_entry AND PTE_ADDR_MASK);
              l2_entry = ram v (ptr_add l2_table (l2_index va))
          in if l2_entry AND PTE_VALID = 0 then (Err BadAddress, v)
             else
               let l3_table = phys_to_virt (l2_entry AND PTE_ADDR_MASK)
               in (Ok (), v\<lparr>ram := (ram v)(ptr_add l3_table (l3_index va) := 0)\<rparr>))"

definition virt_to_phys :: "'b vm \<Rightarrow> memory_mapping \<Rightarrow> usize \<Rightarrow> usize kresult" where
  "virt_to_phys v mp va =
    (let l1_table = phys_to_virt (ttbr0 mp);
         l1_entry = ram v (ptr_add l1_table (l1_index va))
     in if l1_entry AND PTE_VALID = 0 then Err BadAddress
        else
          let l2_table = phys_to_virt (l1_entry AND PTE_ADDR_MASK);
              l2_entry = ram v (ptr_add l2_table (l2_index va))
          in if l2_entry AND PTE_VALID = 0 then Err BadAddress
             else
               let l3_table = phys_to_virt (l2_entry AND PTE_ADDR_MASK);
                   l3_entry = ram v (ptr_add l3_table (l3_index va))
               in if l3_entry AND PTE_VALID = 0 then Err BadAddress
                  else Ok ((l3_entry AND PTE_ADDR_MASK) OR (va AND of_nat (PAGE_SIZE - 1))))"

definition move_page_between ::
  "'b bitvec \<Rightarrow> memory_mapping \<Rightarrow> usize \<Rightarrow> memory_mapping \<Rightarrow> usize \<Rightarrow> 'b vm \<Rightarrow> unit kresult \<times> 'b vm" where
  "move_page_between B src src_addr dest dest_addr v =
    sbind (virt_to_phys v src src_addr, v) (\<lambda>phys v.
    sbind (unmap_page src src_addr v) (\<lambda>_ v.
    map_page B dest phys dest_addr FLAG_W True v))"

definition lend_page ::
  "'b bitvec \<Rightarrow> memory_mapping \<Rightarrow> usize \<Rightarrow> memory_mapping \<Rightarrow> usize \<Rightarrow> bool \<Rightarrow> 'b vm \<Rightarrow> unit kresult \<times> 'b vm" where
  "lend_page B src src_addr dest dest_addr mutable v =
    sbind (virt_to_phys v src src_addr, v) (\<lambda>phys v.
      map_page B dest phys dest_addr (if mutable then FLAG_W else flags_empty) True v)"

definition return_page ::
  "memory_mapping \<Rightarrow> usize \<Rightarrow> memory_mapping \<Rightarrow> usize \<Rightarrow> 'b vm \<Rightarrow> unit kresult \<times> 'b vm" where
  "return_page src src_addr dest dest_addr v =
    sbind (unmap_page src src_addr v) (\<lambda>_ v. (Ok (), v))"

definition address_available :: "'b vm \<Rightarrow> memory_mapping \<Rightarrow> usize \<Rightarrow> bool" where
  "address_available v mp va \<longleftrightarrow> \<not> is_ok (virt_to_phys v mp va)"

definition address_user_accessible :: "'b vm \<Rightarrow> memory_mapping \<Rightarrow> usize \<Rightarrow> bool" where
  "address_user_accessible v mp va \<longleftrightarrow> \<not> va \<ge> USER_AREA_END \<and> is_ok (virt_to_phys v mp va)"

definition ensure_page_exists ::
  "'b bitvec \<Rightarrow> memory_mapping \<Rightarrow> usize \<Rightarrow> 'b vm \<Rightarrow> unit kresult \<times> 'b vm" where
  "ensure_page_exists B mp va v =
    (if is_ok (virt_to_phys v mp va) then (Ok (), v)
     else (case alloc_range B (mm v) 1 (get_pid mp) of
         (Ok (phys, zeroed), m) \<Rightarrow>
           let v1 = v\<lparr>mm := m\<rparr>;
               v2 = (if \<not> zeroed then v1\<lparr>ram := zero_page (ram v1) (phys_to_virt phys)\<rparr> else v1)
           in map_page B mp phys va FLAG_W True v2
       | (Err e, m) \<Rightarrow> (Err e, v\<lparr>mm := m\<rparr>)
       | (Panic, m) \<Rightarrow> (Panic, v\<lparr>mm := m\<rparr>)))"

section \<open>Cells of aligned tables\<close>

lemma page_aligned_iff: "take_bit 14 (t :: usize) = 0 \<longleftrightarrow> unat t mod 16384 = 0"
proof -
  have "unat (take_bit 14 t) = unat t mod 16384"
    by (simp only: unsigned_take_bit_eq) (simp add: take_bit_eq_mod)
  then show ?thesis by (metis unat_eq_zero)
qed

lemma phys_to_virt_aligned:
  assumes "take_bit 14 t = 0"
  shows "take_bit 14 (phys_to_virt t) = 0"
proof -
  have "unat (phys_to_virt t) mod 16384 = (unat t + unat KERNEL_VA_OFFSET) mod 2 ^ 64 mod 16384"
    by (simp add: phys_to_virt_def unat_word_ariths(1))
  also have "\<dots> = (unat t + unat KERNEL_VA_OFFSET) mod 16384"
    by (rule mod_mod_cancel) simp
  also have "\<dots> = 0"
    using assms unfolding page_aligned_iff KERNEL_VA_OFFSET_def by (simp add: mod_add_eq [symmetric] del: mod_add_eq)
  finally show ?thesis unfolding page_aligned_iff .
qed

lemma phys_to_virt_inject [simp]: "phys_to_virt s = phys_to_virt t \<longleftrightarrow> s = t"
  by (simp add: phys_to_virt_def)

text \<open>An entry of an aligned table lies in the page of the table.\<close>

lemma unat_table_entry:
  assumes "take_bit 14 table = 0" "i < TABLE_ENTRIES"
  shows "unat (ptr_add table i) = unat table + 8 * unat i" "8 * unat i < 16384"
proof -
  have i: "unat i < 2048" using assms(2) by (simp add: TABLE_ENTRIES_def word_less_nat_alt)
  have 8: "unat (8 * i) = 8 * unat i" using i by (simp add: unat_word_ariths(2))
  obtain k where k: "unat table = 16384 * k" using assms(1) unfolding page_aligned_iff by (metis dvd_eq_mod_eq_0 dvdE)
  have "unat table < 2 ^ 64" using unat_bound [of table] by simp
  then have "16384 * k + 16384 \<le> 2 ^ 64" using k by simp
  then have "unat table + 8 * unat i < 2 ^ LENGTH(64)" using i k by simp
  then show "unat (ptr_add table i) = unat table + 8 * unat i"
    using 8 unat_add_lem [of table "8 * i"] by (simp add: ptr_add_def)
  show "8 * unat i < 16384" using i by simp
qed

lemma table_entry_inject:
  assumes "take_bit 14 s = 0" "take_bit 14 t = 0" "i < TABLE_ENTRIES" "j < TABLE_ENTRIES"
  shows "ptr_add s i = ptr_add t j \<longleftrightarrow> s = t \<and> i = j"
proof
  assume "ptr_add s i = ptr_add t j"
  then have e: "unat s + 8 * unat i = unat t + 8 * unat j"
    using unat_table_entry(1) assms by metis
  have m: "unat s mod 16384 = 0" "unat t mod 16384 = 0" using assms(1,2) by (simp_all add: page_aligned_iff)
  have "(unat s + 8 * unat i) mod 16384 = 8 * unat i" "(unat t + 8 * unat j) mod 16384 = 8 * unat j"
    using m unat_table_entry(2) assms by (metis add.left_neutral mod_add_left_eq mod_less)+
  then have "8 * unat i = 8 * unat j" using e by simp
  then show "s = t \<and> i = j" using e by (simp add: word_unat_eq_iff)
qed simp

lemma table_entry_in_page:
  assumes "take_bit 14 s = 0" "take_bit 14 t = 0" "i < TABLE_ENTRIES"
  shows "unat (ptr_add t i - s) < PAGE_SIZE \<longleftrightarrow> t = s"
proof
  assume lt: "unat (ptr_add t i - s) < PAGE_SIZE"
  define d where "d = ptr_add t i - s"
  have "ptr_add t i = s + d" by (simp add: d_def)
  obtain k where k: "unat s = 16384 * k" using assms(1) unfolding page_aligned_iff by (metis dvd_eq_mod_eq_0 dvdE)
  have "unat s < 2 ^ 64" using unat_bound [of s] by simp
  then have "16384 * k + 16384 \<le> 2 ^ 64" using k by simp
  moreover have d: "unat d < 16384" using lt by (simp add: d_def PAGE_SIZE_def)
  ultimately have "unat s + unat d < 2 ^ LENGTH(64)" using k by simp
  then have "unat (ptr_add t i) = unat s + unat d"
    using unat_add_lem [of s d] \<open>ptr_add t i = s + d\<close> by simp
  then have e: "unat t + 8 * unat i = unat s + unat d" using unat_table_entry(1) [OF assms(2,3)] by simp
  have m: "unat s mod 16384 = 0" "unat t mod 16384 = 0" using assms(1,2) by (simp_all add: page_aligned_iff)
  have "(unat t + 8 * unat i) mod 16384 = 8 * unat i" "(unat s + unat d) mod 16384 = unat d"
    using m unat_table_entry(2) [OF assms(2,3)] d by (metis add.left_neutral mod_add_left_eq mod_less)+
  then have "8 * unat i = unat d" using e by simp
  then show "t = s" using e by (simp add: word_unat_eq_iff)
next
  assume "t = s"
  moreover have "unat (8 * i) = 8 * unat i"
    using assms(3) by (simp add: TABLE_ENTRIES_def word_less_nat_alt unat_word_ariths(2))
  ultimately show "unat (ptr_add t i - s) < PAGE_SIZE"
    using unat_table_entry(2) [OF assms(2,3)] by (simp add: ptr_add_def PAGE_SIZE_def)
qed

section \<open>Reading and writing entries\<close>

text \<open>The entry of the table at physical address \<open>t\<close>.\<close>

definition pte :: "(usize \<Rightarrow> u64) \<Rightarrow> usize \<Rightarrow> usize \<Rightarrow> u64" where
  "pte r t i = r (ptr_add (phys_to_virt t) i)"

lemma pte_write:
  assumes "take_bit 14 s = 0" "take_bit 14 t = 0" "i < TABLE_ENTRIES" "j < TABLE_ENTRIES"
  shows "pte (r(ptr_add (phys_to_virt s) i := e)) t j = (if t = s \<and> j = i then e else pte r t j)"
  using table_entry_inject [OF phys_to_virt_aligned phys_to_virt_aligned, OF assms] by (auto simp: pte_def)

lemma pte_zero:
  assumes "take_bit 14 s = 0" "take_bit 14 t = 0" "j < TABLE_ENTRIES"
  shows "pte (zero_page r (phys_to_virt s)) t j = (if t = s then 0 else pte r t j)"
  using table_entry_in_page [OF phys_to_virt_aligned phys_to_virt_aligned, OF assms]
  by (auto simp: pte_def zero_page_def)

section \<open>Bits of descriptors\<close>

lemma PTE_VALID_iff [simp]: "e AND PTE_VALID = 0 \<longleftrightarrow> \<not> bit e 0"
  using and_exp_eq_0_iff [of e 0] by (simp add: PTE_VALID_def)

lemma PTE_TABLE_iff [simp]: "e AND PTE_TABLE = 0 \<longleftrightarrow> \<not> bit e 1"
  using and_exp_eq_0_iff [of e 1] by (simp add: PTE_TABLE_def push_bit_eq_mult)

lemma bit_addr_mask: "bit PTE_ADDR_MASK n \<longleftrightarrow> 14 \<le> n \<and> n < 48"
proof -
  have m: "PTE_ADDR_MASK = push_bit 14 (mask 34)"
    by (simp add: PTE_ADDR_MASK_def mask_eq_exp_minus_1 push_bit_eq_mult)
  show ?thesis unfolding m by (auto simp: bit_push_bit_iff bit_mask_iff)
qed

lemma addr_mask_aligned [simp]: "take_bit 14 (e AND PTE_ADDR_MASK) = 0"
  by (rule bit_eqI) (auto simp: bit_take_bit_iff bit_and_iff bit_addr_mask)

text \<open>Attribute bits lie outside the address field.\<close>

definition attr_bits :: "u64 \<Rightarrow> bool" where
  "attr_bits w \<longleftrightarrow> w AND PTE_ADDR_MASK = 0"

lemma descriptor_addr:
  assumes "attr_bits w"
  shows "((pa AND PTE_ADDR_MASK) OR w) AND PTE_ADDR_MASK = pa AND PTE_ADDR_MASK"
  using assms unfolding attr_bits_def
  by (simp add: bit.conj_disj_distrib2 and.assoc)

lemma l_index_less [simp]: "l1_index va < TABLE_ENTRIES" "l2_index va < TABLE_ENTRIES" "l3_index va < TABLE_ENTRIES"
proof -
  have "w AND (TABLE_ENTRIES - 1) < TABLE_ENTRIES" for w :: usize
  proof -
    have "w AND 2047 \<le> 2047" by (simp add: word_and_le1)
    then show ?thesis unfolding TABLE_ENTRIES_def by (simp add: order_le_less_trans)
  qed
  then show "l1_index va < TABLE_ENTRIES" "l2_index va < TABLE_ENTRIES" "l3_index va < TABLE_ENTRIES"
    by (simp_all only: l1_index_def l2_index_def l3_index_def)
qed

lemma bit_l_index:
  "bit (l1_index va) n \<longleftrightarrow> n < 11 \<and> bit va (36 + n)"
  "bit (l2_index va) n \<longleftrightarrow> n < 11 \<and> bit va (25 + n)"
  "bit (l3_index va) n \<longleftrightarrow> n < 11 \<and> bit va (14 + n)"
proof -
  have "TABLE_ENTRIES - 1 = mask 11" by (simp add: TABLE_ENTRIES_def mask_eq_exp_minus_1)
  then show "bit (l1_index va) n \<longleftrightarrow> n < 11 \<and> bit va (36 + n)"
    "bit (l2_index va) n \<longleftrightarrow> n < 11 \<and> bit va (25 + n)"
    "bit (l3_index va) n \<longleftrightarrow> n < 11 \<and> bit va (14 + n)"
    by (auto simp: l1_index_def l2_index_def l3_index_def PAGE_SHIFT_def TABLE_INDEX_BITS_def
        bit_and_iff bit_drop_bit_eq bit_mask_iff)
qed

text \<open>The page a 47-bit virtual address lies in; the three indices identify it.\<close>

definition vpage :: "usize \<Rightarrow> usize" where
  "vpage va = take_bit 33 (drop_bit 14 va)"

lemma vpage_indices:
  "vpage va = vpage vb \<longleftrightarrow> l1_index va = l1_index vb \<and> l2_index va = l2_index vb \<and> l3_index va = l3_index vb"
proof
  assume e: "vpage va = vpage vb"
  have b: "bit va (14 + n) = bit vb (14 + n)" if "n < 33" for n
    using that arg_cong [OF e, of "\<lambda>w. bit w n"] by (simp add: vpage_def bit_take_bit_iff bit_drop_bit_eq)
  have "bit va (36 + n) = bit vb (36 + n)" "bit va (25 + n) = bit vb (25 + n)" if "n < 11" for n
    using that b [of "22 + n"] b [of "11 + n"] by (simp_all add: add.assoc [symmetric])
  then show "l1_index va = l1_index vb \<and> l2_index va = l2_index vb \<and> l3_index va = l3_index vb"
    using b by (auto intro!: bit_eqI simp: bit_l_index)
next
  assume e: "l1_index va = l1_index vb \<and> l2_index va = l2_index vb \<and> l3_index va = l3_index vb"
  show "vpage va = vpage vb"
  proof (rule bit_eqI)
    fix n
    have b: "bit va (36 + k) = bit vb (36 + k)" "bit va (25 + k) = bit vb (25 + k)"
        "bit va (14 + k) = bit vb (14 + k)" if "k < 11" for k
      using that e bit_l_index by metis+
    have "bit va (14 + n) = bit vb (14 + n)" if "n < 33"
    proof -
      consider "n < 11" | "11 \<le> n" "n < 22" | "22 \<le> n" using that by linarith
      then show ?thesis
        using b(3) [of n] b(2) [of "n - 11"] b(1) [of "n - 22"] that by cases simp_all
    qed
    then show "bit (vpage va) n = bit (vpage vb) n"
      by (auto simp: vpage_def bit_take_bit_iff bit_drop_bit_eq)
  qed
qed

section \<open>The tables of an address space\<close>

text \<open>
  The tables of an address space form a tree: \<open>Root\<close> is the level-1 table, \<open>Mid i\<close>
  the level-2 table in its entry \<open>i\<close>, \<open>Leaf i j\<close> the level-3 table below that.
\<close>

datatype table_path = Root | Mid usize | Leaf usize usize

fun path_ok :: "table_path \<Rightarrow> bool" where
  "path_ok Root = True"
| "path_ok (Mid i) = (i < TABLE_ENTRIES)"
| "path_ok (Leaf i j) = (i < TABLE_ENTRIES \<and> j < TABLE_ENTRIES)"

fun upper_path :: "table_path \<Rightarrow> bool" where
  "upper_path (Leaf _ _) = False"
| "upper_path _ = True"

fun child :: "table_path \<Rightarrow> usize \<Rightarrow> table_path" where
  "child Root i = Mid i"
| "child (Mid i) j = Leaf i j"
| "child (Leaf i j) k = Leaf i j"

definition next_table :: "u64 \<Rightarrow> usize option" where
  "next_table e = (if bit e 0 then Some (e AND PTE_ADDR_MASK) else None)"

fun table_at :: "(usize \<Rightarrow> u64) \<Rightarrow> usize \<Rightarrow> table_path \<Rightarrow> usize option" where
  "table_at r root Root = Some root"
| "table_at r root (Mid i) = next_table (pte r root i)"
| "table_at r root (Leaf i j) =
    (case next_table (pte r root i) of None \<Rightarrow> None | Some t \<Rightarrow> next_table (pte r t j))"

text \<open>The level-3 entry that translates an address, if the page is mapped.\<close>

definition translation :: "(usize \<Rightarrow> u64) \<Rightarrow> usize \<Rightarrow> usize \<Rightarrow> u64 option" where
  "translation r root va =
    (case table_at r root (Leaf (l1_index va) (l2_index va)) of
       None \<Rightarrow> None
     | Some t \<Rightarrow> (let e = pte r t (l3_index va) in if bit e 0 then Some e else None))"

lemma table_at_child:
  "upper_path p \<Longrightarrow> table_at r root p = Some t \<Longrightarrow> table_at r root (child p k) = next_table (pte r t k)"
  by (cases p) auto

lemma path_ok_child [simp]: "upper_path p \<Longrightarrow> path_ok (child p k) \<longleftrightarrow> path_ok p \<and> k < TABLE_ENTRIES"
  by (cases p) auto

lemma child_inject: "upper_path p \<Longrightarrow> upper_path q \<Longrightarrow> child p k = child q l \<longleftrightarrow> p = q \<and> k = l"
  by (cases p; cases q) auto

lemma path_cases:
  obtains (root) "q = Root" | (child) p k where "q = child p k" "upper_path p"
proof (cases q)
  case Root
  then show thesis by (rule that(1))
next
  case (Mid i)
  then show thesis using that(2) [of Root i] by simp
next
  case (Leaf i j)
  then show thesis using that(2) [of "Mid i" j] by simp
qed

lemma table_at_Some_child:
  assumes "upper_path p" "table_at r root (child p k) = Some s"
  obtains t where "table_at r root p = Some t" "next_table (pte r t k) = Some s"
  using assms by (cases p) (auto split: option.splits)

lemma table_at_cong:
  assumes "path_ok q"
    and "\<And>p t k. upper_path p \<Longrightarrow> path_ok p \<Longrightarrow> k < TABLE_ENTRIES \<Longrightarrow> table_at r root p = Some t \<Longrightarrow>
      pte r' t k = pte r t k"
  shows "table_at r' root q = table_at r root q"
  using assms(1) assms(2) [of Root] assms(2) [of "Mid i" for i]
  by (cases q) (auto split: option.splits)

section \<open>Invariant\<close>

text \<open>
  Of a set of address spaces: every table is a page of RAM owned by the process of
  its address space, no table is used twice, and valid entries above level 3 are
  table descriptors.
\<close>

definition tables_inv :: "'b vm \<Rightarrow> memory_mapping set \<Rightarrow> bool" where
  "tables_inv v maps \<longleftrightarrow>
    (\<forall>mp\<in>maps. \<forall>p t. path_ok p \<longrightarrow> table_at (ram v) (ttbr0 mp) p = Some t \<longrightarrow>
       (\<exists>i<RAM_PAGES. t = page_phys i \<and> owner_of (mm v) i = Some (get_pid mp))) \<and>
    (\<forall>mp\<in>maps. \<forall>mq\<in>maps. \<forall>p q t. path_ok p \<longrightarrow> path_ok q \<longrightarrow>
       table_at (ram v) (ttbr0 mp) p = Some t \<longrightarrow> table_at (ram v) (ttbr0 mq) q = Some t \<longrightarrow> mp = mq \<and> p = q) \<and>
    (\<forall>mp\<in>maps. \<forall>p t k. upper_path p \<longrightarrow> path_ok p \<longrightarrow> k < TABLE_ENTRIES \<longrightarrow>
       table_at (ram v) (ttbr0 mp) p = Some t \<longrightarrow> bit (pte (ram v) t k) 0 \<longrightarrow> bit (pte (ram v) t k) 1)"

definition vm_inv :: "'b bitvec \<Rightarrow> 'b vm \<Rightarrow> memory_mapping set \<Rightarrow> bool" where
  "vm_inv B v maps \<longleftrightarrow> mm_inv B (mm v) \<and> tables_inv v maps"

lemma tables_owned:
  assumes "tables_inv v maps" "mp \<in> maps" "path_ok p" "table_at (ram v) (ttbr0 mp) p = Some t"
  obtains i where "i < RAM_PAGES" "t = page_phys i" "owner_of (mm v) i = Some (get_pid mp)"
  using assms unfolding tables_inv_def by blast

lemma tables_unique:
  assumes "tables_inv v maps" "mp \<in> maps" "mq \<in> maps" "path_ok p" "path_ok q"
    "table_at (ram v) (ttbr0 mp) p = Some t" "table_at (ram v) (ttbr0 mq) q = Some t"
  shows "mp = mq \<and> p = q"
  using assms unfolding tables_inv_def by blast

lemma tables_descriptor:
  assumes "tables_inv v maps" "mp \<in> maps" "upper_path p" "path_ok p" "k < TABLE_ENTRIES"
    "table_at (ram v) (ttbr0 mp) p = Some t" "bit (pte (ram v) t k) 0"
  shows "bit (pte (ram v) t k) 1"
  using assms unfolding tables_inv_def by blast

lemma page_phys_page:
  assumes "i < RAM_PAGES"
  shows "take_bit 14 (page_phys i) = 0" "page_phys i AND PTE_ADDR_MASK = page_phys i"
proof -
  have m14: "of_nat (PAGE_SIZE - 1) = (mask 14 :: usize)" by (simp add: PAGE_SIZE_def mask_eq_exp_minus_1)
  show a: "take_bit 14 (page_phys i) = 0"
    using page_phys_aligned [OF assms] unfolding m14 by (simp add: take_bit_eq_mask)
  have "unat (page_phys i) < 2 ^ 48"
    using unat_page_phys [OF assms] assms by (simp add: RAM_PAGES_value PAGE_SIZE_def)
  then have lt: "take_bit 48 (page_phys i) = page_phys i"
    by (metis take_bit_nat_eq_self unsigned_take_bit_eq word_unat_eq_iff)
  show "page_phys i AND PTE_ADDR_MASK = page_phys i"
  proof (rule bit_eqI)
    fix n
    have "bit (page_phys i) n \<Longrightarrow> n < 48" using lt by (metis bit_take_bit_iff)
    moreover have "bit (page_phys i) n \<Longrightarrow> 14 \<le> n" using a by (metis bit_take_bit_iff bit_0_eq bot_apply bot_bool_def not_le)
    ultimately show "bit (page_phys i AND PTE_ADDR_MASK) n = bit (page_phys i) n"
      by (auto simp: bit_and_iff bit_addr_mask)
  qed
qed

lemma tables_aligned:
  assumes "tables_inv v maps" "mp \<in> maps" "path_ok p" "table_at (ram v) (ttbr0 mp) p = Some t"
  shows "take_bit 14 t = 0"
  using tables_owned [OF assms] page_phys_page(1) by metis

section \<open>Writing an entry of a level-3 table\<close>

lemma leaf_write:
  fixes v :: "'b vm"
  assumes inv: "tables_inv v maps" and mp: "mp \<in> maps" "table_at (ram v) (ttbr0 mp) (Leaf i j) = Some t"
    and ij: "i < TABLE_ENTRIES" "j < TABLE_ENTRIES" "k < TABLE_ENTRIES"
    and v': "v' = v\<lparr>ram := (ram v)(ptr_add (phys_to_virt t) k := e)\<rparr>"
  shows "mq \<in> maps \<Longrightarrow> path_ok q \<Longrightarrow> table_at (ram v') (ttbr0 mq) q = table_at (ram v) (ttbr0 mq) q"
    and "tables_inv v' maps"
    and "mq \<in> maps \<Longrightarrow> translation (ram v') (ttbr0 mq) va =
      (if mq = mp \<and> l1_index va = i \<and> l2_index va = j \<and> l3_index va = k
       then (if bit e 0 then Some e else None) else translation (ram v) (ttbr0 mq) va)"
proof -
  have ok: "path_ok (Leaf i j)" using ij by simp
  note at = tables_aligned [OF inv mp(1) ok mp(2)]
  have w: "pte (ram v') s l = (if s = t \<and> l = k then e else pte (ram v) s l)"
    if "take_bit 14 s = 0" "l < TABLE_ENTRIES" for s l
    using pte_write [OF at that(1) ij(3) that(2)] by (simp add: v')
  have same: "table_at (ram v') (ttbr0 mq) q = table_at (ram v) (ttbr0 mq) q" if mq: "mq \<in> maps" "path_ok q" for mq q
  proof (rule table_at_cong [OF mq(2)])
    fix p s l assume p: "upper_path p" "path_ok p" "l < TABLE_ENTRIES" "table_at (ram v) (ttbr0 mq) p = Some s"
    have "s \<noteq> t"
      using tables_unique [OF inv mq(1) mp(1) p(2) ok _ mp(2)] p by auto
    then show "pte (ram v') s l = pte (ram v) s l"
      using w [OF tables_aligned [OF inv mq(1) p(2,4)] p(3)] by simp
  qed
  then show "mq \<in> maps \<Longrightarrow> path_ok q \<Longrightarrow> table_at (ram v') (ttbr0 mq) q = table_at (ram v) (ttbr0 mq) q" .
  have upper: "pte (ram v') s l = pte (ram v) s l"
    if "mq \<in> maps" "upper_path p" "path_ok p" "l < TABLE_ENTRIES" "table_at (ram v) (ttbr0 mq) p = Some s" for mq p s l
  proof -
    have "s \<noteq> t" using tables_unique [OF inv that(1) mp(1) that(3) ok _ mp(2)] that by auto
    then show ?thesis using w [OF tables_aligned [OF inv that(1,3,5)] that(4)] by simp
  qed
  have m: "mm v' = mm v" by (simp add: v')
  show "tables_inv v' maps"
    unfolding tables_inv_def m
  proof (intro conjI ballI allI impI)
    fix mq p s assume "mq \<in> maps" "path_ok p" "table_at (ram v') (ttbr0 mq) p = Some s"
    then show "\<exists>i<RAM_PAGES. s = page_phys i \<and> owner_of (mm v) i = Some (get_pid mq)"
      using same tables_owned [OF inv] by metis
  next
    fix mq mr p q s
    assume "mq \<in> maps" "mr \<in> maps" "path_ok p" "path_ok q"
      "table_at (ram v') (ttbr0 mq) p = Some s" "table_at (ram v') (ttbr0 mr) q = Some s"
    then show "mq = mr" "p = q" using same tables_unique [OF inv] by metis+
  next
    fix mq p s l
    assume a: "mq \<in> maps" "upper_path p" "path_ok p" "l < TABLE_ENTRIES"
      "table_at (ram v') (ttbr0 mq) p = Some s" "bit (pte (ram v') s l) 0"
    then show "bit (pte (ram v') s l) 1"
      using upper [OF a(1-4)] same [OF a(1,3)] tables_descriptor [OF inv a(1-4)] by metis
  qed
  show "mq \<in> maps \<Longrightarrow> translation (ram v') (ttbr0 mq) va =
      (if mq = mp \<and> l1_index va = i \<and> l2_index va = j \<and> l3_index va = k
       then (if bit e 0 then Some e else None) else translation (ram v) (ttbr0 mq) va)"
  proof -
    assume mq: "mq \<in> maps"
    let ?q = "Leaf (l1_index va) (l2_index va)"
    have q: "path_ok ?q" by simp
    show ?thesis
    proof (cases "table_at (ram v) (ttbr0 mq) ?q")
      case None
      then have "\<not> (mq = mp \<and> l1_index va = i \<and> l2_index va = j)" using mp(2) by auto
      then show ?thesis using None same [OF mq q] by (auto simp: translation_def simp del: table_at.simps)
    next
      case (Some s)
      note sw = w [OF tables_aligned [OF inv mq q Some], of "l3_index va"]
      have "s = t \<longleftrightarrow> mq = mp \<and> l1_index va = i \<and> l2_index va = j"
        using tables_unique [OF inv mq mp(1) q ok, of s] Some mp(2) by auto
      then show ?thesis using Some same [OF mq q] sw by (simp add: translation_def del: table_at.simps)
    qed
  qed
qed

section \<open>Linking a new table\<close>

text \<open>The effect on the entries of zeroing page \<open>n\<close> and linking it into entry \<open>k\<close> of the table at \<open>p\<close>.\<close>

definition linked ::
  "(usize \<Rightarrow> u64) \<Rightarrow> (usize \<Rightarrow> u64) \<Rightarrow> memory_mapping set \<Rightarrow> memory_mapping \<Rightarrow> table_path \<Rightarrow> usize \<Rightarrow> usize \<Rightarrow> bool" where
  "linked r r' maps mp p k n \<longleftrightarrow>
    mp \<in> maps \<and> upper_path p \<and> path_ok p \<and> k < TABLE_ENTRIES \<and> table_at r (ttbr0 mp) p \<noteq> None \<and>
    table_at r (ttbr0 mp) (child p k) = None \<and>
    (\<forall>mq\<in>maps. \<forall>q. path_ok q \<longrightarrow> table_at r (ttbr0 mq) q \<noteq> Some n) \<and>
    (\<exists>desc. next_table desc = Some n \<and> bit desc 1 \<and>
      (\<forall>mq\<in>maps. \<forall>q s l. path_ok q \<longrightarrow> l < TABLE_ENTRIES \<longrightarrow> table_at r (ttbr0 mq) q = Some s \<longrightarrow>
        pte r' s l = (if mq = mp \<and> q = p \<and> l = k then desc else pte r s l))) \<and>
    (\<forall>l<TABLE_ENTRIES. pte r' n l = 0)"

lemma table_descriptor:
  assumes "n AND PTE_ADDR_MASK = n"
  shows "bit ((n AND PTE_ADDR_MASK) OR PTE_VALID OR PTE_TABLE) 1"
    "next_table ((n AND PTE_ADDR_MASK) OR PTE_VALID OR PTE_TABLE) = Some n"
proof -
  let ?desc = "(n AND PTE_ADDR_MASK) OR PTE_VALID OR PTE_TABLE"
  have "attr_bits (PTE_VALID OR PTE_TABLE)"
    by (simp add: attr_bits_def PTE_VALID_def PTE_TABLE_def PTE_ADDR_MASK_def push_bit_eq_mult)
  from descriptor_addr [OF this, of n] have "?desc AND PTE_ADDR_MASK = n" by (simp add: assms or.assoc)
  moreover show "bit ?desc 1"
    by (simp add: bit_or_iff PTE_VALID_def PTE_TABLE_def bit_push_bit_iff)
  moreover have "bit ?desc 0"
    by (simp add: bit_or_iff PTE_VALID_def PTE_TABLE_def bit_push_bit_iff)
  ultimately show "next_table ?desc = Some n" by (simp add: next_table_def)
qed

lemma linkedI:
  fixes v :: "'b vm"
  assumes inv: "tables_inv v maps" and mp: "mp \<in> maps" "upper_path p" "path_ok p" "table_at (ram v) (ttbr0 mp) p = Some t"
    and k: "k < TABLE_ENTRIES" "\<not> bit (pte (ram v) t k) 0"
    and n: "n = page_phys x" "x < RAM_PAGES" "owner_of (mm v) x = None"
    and r': "r' = (zero_page (ram v) (phys_to_virt n))
        (ptr_add (phys_to_virt t) k := (n AND PTE_ADDR_MASK) OR PTE_VALID OR PTE_TABLE)"
  shows "linked (ram v) r' maps mp p k n"
proof -
  define desc where "desc = (n AND PTE_ADDR_MASK) OR PTE_VALID OR PTE_TABLE"
  have na: "take_bit 14 n = 0" "n AND PTE_ADDR_MASK = n" using page_phys_page [OF n(2)] n(1) by simp_all
  note ta = tables_aligned [OF inv mp(1,3,4)]
  have fresh: "s \<noteq> n" if mq: "mq \<in> maps" "path_ok q" "table_at (ram v) (ttbr0 mq) q = Some s" for mq q s
  proof -
    obtain y where "y < RAM_PAGES" "s = page_phys y" "owner_of (mm v) y \<noteq> None"
      using tables_owned [OF inv mq] by (metis option.discI)
    then show ?thesis using n page_phys_inject by metis
  qed
  have "t \<noteq> n" using fresh [OF mp(1,3,4)] .
  have w: "pte r' s l = (if s = t \<and> l = k then desc else if s = n then 0 else pte (ram v) s l)"
    if "take_bit 14 s = 0" "l < TABLE_ENTRIES" for s l
    unfolding r' by (simp only: pte_write [OF ta that(1) k(1) that(2)] pte_zero [OF na(1) that] desc_def)
  have old: "pte r' s l = (if mq = mp \<and> q = p \<and> l = k then desc else pte (ram v) s l)"
    if "mq \<in> maps" "path_ok q" "l < TABLE_ENTRIES" "table_at (ram v) (ttbr0 mq) q = Some s" for mq q s l
  proof -
    have "s = t \<longleftrightarrow> mq = mp \<and> q = p"
      using tables_unique [OF inv that(1) mp(1) that(2) mp(3) that(4)] mp(4) that(4) by auto
    then show ?thesis using w [OF tables_aligned [OF inv that(1,2,4)] that(3)] fresh [OF that(1,2,4)] by simp
  qed
  have "\<forall>l<TABLE_ENTRIES. pte r' n l = 0" using w [OF na(1)] \<open>t \<noteq> n\<close> by simp
  moreover have "table_at (ram v) (ttbr0 mp) (child p k) = None"
    using table_at_child [OF mp(2,4)] k(2) by (simp add: next_table_def)
  moreover have "\<forall>mq\<in>maps. \<forall>q. path_ok q \<longrightarrow> table_at (ram v) (ttbr0 mq) q \<noteq> Some n" using fresh by blast
  ultimately show ?thesis
    unfolding linked_def using mp k(1) table_descriptor [OF na(2)] old unfolding desc_def by blast
qed

lemma linked_tables:
  assumes L: "linked r r' maps mp p k n" and mq: "mq \<in> maps" "path_ok q"
  shows "table_at r' (ttbr0 mq) q = (if mq = mp \<and> q = child p k then Some n else table_at r (ttbr0 mq) q)"
proof -
  obtain desc where p: "upper_path p" "path_ok p" "k < TABLE_ENTRIES" "table_at r (ttbr0 mp) p \<noteq> None"
      "table_at r (ttbr0 mp) (child p k) = None"
    and desc: "next_table desc = Some n"
    and old: "\<And>mq q s l. mq \<in> maps \<Longrightarrow> path_ok q \<Longrightarrow> l < TABLE_ENTRIES \<Longrightarrow> table_at r (ttbr0 mq) q = Some s \<Longrightarrow>
        pte r' s l = (if mq = mp \<and> q = p \<and> l = k then desc else pte r s l)"
    and new: "\<And>l. l < TABLE_ENTRIES \<Longrightarrow> pte r' n l = 0"
    using L unfolding linked_def by blast
  have next': "table_at r' (ttbr0 mq) (child q l) = (if mq = mp \<and> child q l = child p k then Some n
      else table_at r (ttbr0 mq) (child q l))"
    if q: "path_ok q" "upper_path q" "l < TABLE_ENTRIES" "table_at r' (ttbr0 mq) q = Some s"
      "table_at r (ttbr0 mq) q = Some s" for q l s
    using table_at_child [OF q(2,4), of l] table_at_child [OF q(2,5), of l] old [OF mq(1) q(1,3,5)] desc
      child_inject [OF q(2) p(1), of l k] by (simp del: table_at.simps)
  have root: "Root \<noteq> child p k" by (cases p) auto
  have mid: "table_at r' (ttbr0 mq) (Mid i) =
      (if mq = mp \<and> Mid i = child p k then Some n else table_at r (ttbr0 mq) (Mid i))" if "i < TABLE_ENTRIES" for i
    using next' [of Root i "ttbr0 mq"] that by simp
  show ?thesis
  proof (cases q)
    case Root
    then show ?thesis using root by simp
  next
    case (Mid i)
    then show ?thesis using mid mq(2) by (simp del: table_at.simps)
  next
    case (Leaf i j)
    then have ij: "i < TABLE_ENTRIES" "j < TABLE_ENTRIES" using mq(2) by auto
    have c: "child (Mid i) j = q" by (simp add: Leaf)
    consider (new) "mq = mp" "Mid i = child p k"
      | (none) "\<not> (mq = mp \<and> Mid i = child p k)" "table_at r (ttbr0 mq) (Mid i) = None"
      | (some) s where "\<not> (mq = mp \<and> Mid i = child p k)" "table_at r (ttbr0 mq) (Mid i) = Some s"
      by (cases "table_at r (ttbr0 mq) (Mid i)") blast+
    then show ?thesis
    proof cases
      case new1: new
      have "table_at r' (ttbr0 mq) (Mid i) = Some n" using mid [OF ij(1)] new1 by (simp del: table_at.simps)
      then have "table_at r' (ttbr0 mq) q = next_table (pte r' n j)"
        using table_at_child [of "Mid i"] c by (metis upper_path.simps(3))
      moreover have "table_at r (ttbr0 mq) (Mid i) = None" using p(5) new1 by (simp del: table_at.simps)
      then have "table_at r (ttbr0 mq) q = None"
        using table_at_Some_child [of "Mid i" r "ttbr0 mq" j] c by (cases "table_at r (ttbr0 mq) q") auto
      moreover have "q \<noteq> child p k" using Leaf new1(2) by (metis table_path.distinct(5))
      ultimately show ?thesis using new [OF ij(2)] by (simp add: next_table_def)
    next
      case none
      then have "table_at r' (ttbr0 mq) (Mid i) = None" using mid [OF ij(1)] by (simp del: table_at.simps)
      then have "table_at r' (ttbr0 mq) q = None" "table_at r (ttbr0 mq) q = None"
        using none(2) Leaf by (simp_all split: option.splits)
      moreover have "\<not> (mq = mp \<and> q = child p k)"
      proof
        assume "mq = mp \<and> q = child p k"
        then have "p = Mid i" using child_inject [of "Mid i" p j k] p(1) c by simp
        then show False using p(4) none(2) \<open>mq = mp \<and> q = child p k\<close> by (simp del: table_at.simps)
      qed
      ultimately show ?thesis by (simp only: if_False)
    next
      case (some s)
      then have "table_at r' (ttbr0 mq) (Mid i) = Some s" using mid [OF ij(1)] by (simp only: if_False)
      then show ?thesis using next' [of "Mid i" j s] ij some(2) c by (simp del: table_at.simps)
    qed
  qed
qed

lemma linked_translation:
  assumes L: "linked r r' maps mp p k n" and mq: "mq \<in> maps"
  shows "translation r' (ttbr0 mq) va = translation r (ttbr0 mq) va"
proof -
  let ?q = "Leaf (l1_index va) (l2_index va)"
  have q: "path_ok ?q" by simp
  note T = linked_tables [OF L mq q]
  have "?q \<noteq> p" using L by (auto simp: linked_def)
  then have old: "pte r' s (l3_index va) = pte r s (l3_index va)" if "table_at r (ttbr0 mq) ?q = Some s" for s
    using L that mq q unfolding linked_def by (metis l_index_less(3))
  have new: "pte r' n (l3_index va) = 0" "table_at r (ttbr0 mp) (child p k) = None"
    using L l_index_less(3) unfolding linked_def by blast+
  show ?thesis
  proof (cases "mq = mp \<and> ?q = child p k")
    case True
    then show ?thesis using T new by (simp add: translation_def del: table_at.simps)
  next
    case False
    then have "table_at r' (ttbr0 mq) ?q = table_at r (ttbr0 mq) ?q" by (simp only: T if_False)
    then show ?thesis
      using old by (cases "table_at r (ttbr0 mq) ?q") (simp_all add: translation_def del: table_at.simps)
  qed
qed

lemma linked_inv:
  fixes v :: "'b vm"
  assumes inv: "tables_inv v maps" and L: "linked (ram v) r' maps mp p k n"
    and n: "n = page_phys x" "x < RAM_PAGES" "owner_of (mm v) x = None"
    and m': "\<And>y. owner_of m' y = (if y = x then Some (get_pid mp) else owner_of (mm v) y)"
  shows "tables_inv (v\<lparr>mm := m', ram := r'\<rparr>) maps"
  unfolding tables_inv_def
proof (intro conjI ballI allI impI)
  note tab = linked_tables [OF L]
  {
    fix mq q s assume "mq \<in> maps" "path_ok q" "table_at (ram (v\<lparr>mm := m', ram := r'\<rparr>)) (ttbr0 mq) q = Some s"
    then have q: "mq \<in> maps" "path_ok q" "table_at r' (ttbr0 mq) q = Some s" by simp_all
    show "\<exists>i<RAM_PAGES. s = page_phys i \<and> owner_of (mm (v\<lparr>mm := m', ram := r'\<rparr>)) i = Some (get_pid mq)"
    proof (cases "mq = mp \<and> q = child p k")
      case True
      then show ?thesis using tab [OF q(1,2)] q(3) n m' by auto
    next
      case False
      then have "table_at (ram v) (ttbr0 mq) q = Some s" using tab [OF q(1,2)] q(3) by (auto split: if_splits)
      then obtain i where "i < RAM_PAGES" "s = page_phys i" "owner_of (mm v) i = Some (get_pid mq)"
        using tables_owned [OF inv q(1,2)] by blast
      moreover from this have "i \<noteq> x" using n(3) by auto
      ultimately show ?thesis using m' by auto
    qed
  next
    fix mq mr q q' s
    assume "mq \<in> maps" "mr \<in> maps" "path_ok q" "path_ok q'"
      "table_at (ram (v\<lparr>mm := m', ram := r'\<rparr>)) (ttbr0 mq) q = Some s"
      "table_at (ram (v\<lparr>mm := m', ram := r'\<rparr>)) (ttbr0 mr) q' = Some s"
    then have a: "mq \<in> maps" "mr \<in> maps" "path_ok q" "path_ok q'"
      "table_at r' (ttbr0 mq) q = Some s" "table_at r' (ttbr0 mr) q' = Some s" by simp_all
    have "table_at (ram v) (ttbr0 mq) q \<noteq> Some n" "table_at (ram v) (ttbr0 mr) q' \<noteq> Some n"
      using L a(1-4) unfolding linked_def by blast+
    then have "mq = mr \<and> q = q'"
      using a(5,6) tables_unique [OF inv a(1-4)] unfolding tab [OF a(1,3)] tab [OF a(2,4)]
      by (metis option.inject)
    then show "mq = mr" "q = q'" by auto
  next
    fix mq q s l
    assume "mq \<in> maps" "upper_path q" "path_ok q" "l < TABLE_ENTRIES"
      "table_at (ram (v\<lparr>mm := m', ram := r'\<rparr>)) (ttbr0 mq) q = Some s" "bit (pte (ram (v\<lparr>mm := m', ram := r'\<rparr>)) s l) 0"
    then have a: "mq \<in> maps" "upper_path q" "path_ok q" "l < TABLE_ENTRIES"
      "table_at r' (ttbr0 mq) q = Some s" "bit (pte r' s l) 0" by simp_all
    have "bit (pte r' s l) 1"
    proof (cases "table_at (ram v) (ttbr0 mq) q = Some s")
      case True
      then obtain desc where "bit desc 1" "pte r' s l = (if mq = mp \<and> q = p \<and> l = k then desc else pte (ram v) s l)"
        using L a(1,3,4) unfolding linked_def by blast
      then show ?thesis
        using tables_descriptor [OF inv a(1-4) True] a(6) by (auto split: if_splits)
    next
      case False
      then have "s = n" using tab [OF a(1,3)] a(5) by (auto split: if_splits)
      then show ?thesis using L a(4,6) unfolding linked_def by auto
    qed
    then show "bit (pte (ram (v\<lparr>mm := m', ram := r'\<rparr>)) s l) 1" by simp
  }
qed

section \<open>What an operation may touch\<close>

text \<open>
  Pages keep their owners, pages that get an owner go to \<open>p\<close>, and words of memory change
  only in pages \<open>p\<close> owns afterwards.
\<close>

definition vm_extends :: "pid \<Rightarrow> 'b vm \<Rightarrow> 'b vm \<Rightarrow> bool" where
  "vm_extends p v v' \<longleftrightarrow>
    (\<forall>i. owner_of (mm v) i \<noteq> None \<longrightarrow> owner_of (mm v') i = owner_of (mm v) i) \<and>
    (\<forall>i. owner_of (mm v) i = None \<longrightarrow> owner_of (mm v') i \<in> {None, Some p}) \<and>
    (\<forall>a. ram v' a \<noteq> ram v a \<longrightarrow>
      (\<exists>i<RAM_PAGES. unat (a - phys_to_virt (page_phys i)) < PAGE_SIZE \<and> owner_of (mm v') i = Some p))"

lemma vm_extends_refl [simp]: "vm_extends p v v"
  by (simp add: vm_extends_def)

lemma vm_extends_trans:
  assumes "vm_extends p u v" "vm_extends p v w"
  shows "vm_extends p u w"
proof -
  have "\<exists>i<RAM_PAGES. unat (a - phys_to_virt (page_phys i)) < PAGE_SIZE \<and> owner_of (mm w) i = Some p"
    if "ram w a \<noteq> ram u a" for a
  proof (cases "ram w a = ram v a")
    case True
    then have "ram v a \<noteq> ram u a" using that by simp
    then obtain i where "i < RAM_PAGES" "unat (a - phys_to_virt (page_phys i)) < PAGE_SIZE" "owner_of (mm v) i = Some p"
      using assms(1) unfolding vm_extends_def by blast
    then show ?thesis using assms(2) unfolding vm_extends_def by (metis option.discI)
  next
    case False
    then show ?thesis using assms(2) unfolding vm_extends_def by blast
  qed
  moreover have "owner_of (mm w) i = owner_of (mm u) i" if "owner_of (mm u) i \<noteq> None" for i
    using that assms unfolding vm_extends_def by metis
  moreover have "owner_of (mm w) i \<in> {None, Some p}" if "owner_of (mm u) i = None" for i
    using that assms unfolding vm_extends_def by (metis insert_iff singletonD)
  ultimately show ?thesis unfolding vm_extends_def by blast
qed

lemma vm_extends_write:
  assumes "i < RAM_PAGES" "owner_of (mm v) i = Some p" "k < TABLE_ENTRIES"
  shows "vm_extends p v (v\<lparr>ram := (ram v)(ptr_add (phys_to_virt (page_phys i)) k := e)\<rparr>)"
proof -
  have "unat (ptr_add (phys_to_virt (page_phys i)) k - phys_to_virt (page_phys i)) < PAGE_SIZE"
    using table_entry_in_page [OF phys_to_virt_aligned phys_to_virt_aligned, OF page_phys_page(1) page_phys_page(1)]
      assms(1,3) by blast
  then show ?thesis using assms(1,2) by (auto simp: vm_extends_def)
qed

section \<open>Allocating a table\<close>

lemma finite_free_pages: "finite (free_pages B m)"
  by (rule finite_subset [of _ "{..<RAM_PAGES}"]) (auto simp: zeroed_pages_def dirty_pages_def)

lemma alloc_page_cases:
  assumes B: "bitvec_laws B" and m: "mm_inv B m"
  obtains (oom) "alloc_range B m 1 p = (Err OutOfMemory, m)" "free_pages B m = {}"
  | (page) i z m' where "alloc_range B m 1 p = (Ok (page_phys i, z), m')" "i < RAM_PAGES"
      "owner_of m i = None" "mm_inv B m'"
      "\<And>j. owner_of m' j = (if j = i then Some p else owner_of m j)"
      "card (free_pages B m) \<le> card (free_pages B m') + 1"
proof -
  have n: "0 < (1::nat)" "1 \<le> RAM_PAGES" by (simp_all add: RAM_PAGES_value)
  have one: "free_run B m 1 i \<longleftrightarrow> i \<in> free_pages B m" for i
    by (auto simp: free_run_def zeroed_pages_def dirty_pages_def)
  show thesis
    using B m n
  proof (cases rule: alloc_range_cases [where p = p])
    case full
    have "free_pages B m = {}" using full(1) one by blast
    then show thesis using oom full(2) by simp
  next
    case (run i z m')
    have i: "i < RAM_PAGES" "i \<in> free_pages B m" using run(2) by (auto simp: free_run_def)
    have "owner_of m i = None"
      using i(2) mm_invD(2) [OF m, of i] by (auto simp: unowned_def owner_of_def)
    moreover have "owner_of m' j = (if j = i then Some p else owner_of m j)" for j
      using owner_fill [OF run(5) run_owned(1) [OF m run(2) n(1)], of j] by auto
    moreover have "free_pages B m' = free_pages B m - {i}" using run(7) by simp
    then have "card (free_pages B m) \<le> card (free_pages B m') + 1"
      using i(2) finite_free_pages [of B m] by (simp add: card_Diff_singleton)
    ultimately show thesis using page [of i z m'] run(1,4) i(1) by simp
  qed
qed

lemma alloc_table_page_cases:
  assumes "bitvec_laws B" "mm_inv B (mm v)"
  obtains (oom) "alloc_table_page B p v = (Err OutOfMemory, v)" "free_pages B (mm v) = {}"
  | (page) i m' where "alloc_table_page B p v = (Ok (page_phys i), v\<lparr>mm := m'\<rparr>)" "i < RAM_PAGES"
      "owner_of (mm v) i = None" "mm_inv B m'"
      "\<And>j. owner_of m' j = (if j = i then Some p else owner_of (mm v) j)"
      "card (free_pages B (mm v)) \<le> card (free_pages B m') + 1"
  using assms
proof (cases rule: alloc_page_cases [where p = p])
  case oom
  then show thesis using that(1) by (simp add: alloc_table_page_def)
next
  case (page i z m')
  then show thesis using that(2) [of i m'] by (simp add: alloc_table_page_def)
qed

lemma zero_new_page_extends:
  assumes "i < RAM_PAGES" "owner_of (mm v) i = None"
    "\<And>j. owner_of m' j = (if j = i then Some p else owner_of (mm v) j)"
  shows "vm_extends p v (v\<lparr>mm := m', ram := zero_page (ram v) (phys_to_virt (page_phys i))\<rparr>)"
  using assms by (auto simp: vm_extends_def zero_page_def)

lemma ensure_table_cases:
  assumes B: "bitvec_laws B" and inv: "vm_inv B v maps"
    and mp: "mp \<in> maps" "upper_path p" "path_ok p" "table_at (ram v) (ttbr0 mp) p = Some t" and k: "k < TABLE_ENTRIES"
  obtains (oom) "ensure_table B mp (phys_to_virt t) k v = (Err OutOfMemory, v)" "free_pages B (mm v) = {}"
  | (ok) s v' where "ensure_table B mp (phys_to_virt t) k v = (Ok (phys_to_virt s), v')" "vm_inv B v' maps"
      "table_at (ram v') (ttbr0 mp) (child p k) = Some s" "vm_extends (get_pid mp) v v'"
      "\<And>mq va. mq \<in> maps \<Longrightarrow> translation (ram v') (ttbr0 mq) va = translation (ram v) (ttbr0 mq) va"
      "card (free_pages B (mm v)) \<le> card (free_pages B (mm v')) + 1"
proof -
  have m: "mm_inv B (mm v)" and T: "tables_inv v maps" using inv by (simp_all add: vm_inv_def)
  let ?e = "pte (ram v) t k"
  show thesis
  proof (cases "bit ?e 0")
    case True
    then have "bit ?e 1" using tables_descriptor [OF T mp(1-3) k mp(4)] by simp
    then have "ensure_table B mp (phys_to_virt t) k v = (Ok (phys_to_virt (?e AND PTE_ADDR_MASK)), v)"
      using True by (simp add: ensure_table_def pte_def [symmetric])
    moreover have "table_at (ram v) (ttbr0 mp) (child p k) = Some (?e AND PTE_ADDR_MASK)"
      using table_at_child [OF mp(2,4), of k] True by (simp add: next_table_def)
    ultimately show thesis using ok inv by simp
  next
    case False
    show thesis
      using B m
    proof (cases rule: alloc_table_page_cases [where p = "get_pid mp"])
      case oom
      then show thesis using that(1) False by (simp add: ensure_table_def pte_def [symmetric])
    next
      case (page i m')
      let ?n = "page_phys i"
      define r' where "r' = (zero_page (ram v) (phys_to_virt ?n))
        (ptr_add (phys_to_virt t) k := (?n AND PTE_ADDR_MASK) OR PTE_VALID OR PTE_TABLE)"
      note L = linkedI [OF T mp k False refl page(2,3) r'_def]
      have e: "ensure_table B mp (phys_to_virt t) k v = (Ok (phys_to_virt ?n), v\<lparr>mm := m', ram := r'\<rparr>)"
        using page(1) False by (simp add: ensure_table_def pte_def [symmetric] Let_def r'_def)
      define v1 where "v1 = v\<lparr>mm := m', ram := zero_page (ram v) (phys_to_virt ?n)\<rparr>"
      obtain x where x: "x < RAM_PAGES" "t = page_phys x" "owner_of (mm v) x = Some (get_pid mp)"
        using tables_owned [OF T mp(1,3,4)] .
      have "x \<noteq> i" using x(3) page(3) by auto
      then have "owner_of (mm v1) x = Some (get_pid mp)" using x(3) page(5) by (simp add: v1_def)
      from vm_extends_write [OF x(1) this k] have "vm_extends (get_pid mp) v1 (v\<lparr>mm := m', ram := r'\<rparr>)"
        by (simp add: v1_def r'_def x(2))
      then have "vm_extends (get_pid mp) v (v\<lparr>mm := m', ram := r'\<rparr>)"
        using zero_new_page_extends [OF page(2,3,5)] vm_extends_trans unfolding v1_def by blast
      moreover have "vm_inv B (v\<lparr>mm := m', ram := r'\<rparr>) maps"
        using linked_inv [OF T L refl page(2,3,5)] page(4) by (simp add: vm_inv_def)
      moreover have "table_at r' (ttbr0 mp) (child p k) = Some ?n"
        using linked_tables [OF L mp(1), of "child p k"] mp(2,3) k by (simp del: table_at.simps)
      ultimately show thesis using ok [OF e] linked_translation [OF L] page(6) by simp
    qed
  qed
qed

section \<open>Mapping and unmapping a page\<close>

lemma flags_to_pte_valid: "bit (flags_to_pte flags user) 0"
  by (simp add: flags_to_pte_def Let_def bit_or_iff PTE_VALID_def)

lemma flags_to_pte_attr: "attr_bits (flags_to_pte flags user)"
  by (simp add: flags_to_pte_def Let_def attr_bits_def bit.conj_disj_distrib2 PTE_VALID_def PTE_TABLE_def
      PTE_AF_def PTE_SH_ISH_def PTE_ATTR_DEVICE_def PTE_ATTR_NORMAL_def PTE_ATTR_IDX_SHIFT_def PTE_NG_def
      PTE_AP_RW_ALL_def PTE_AP_RO_ALL_def PTE_AP_RW_EL1_def PTE_AP_RO_EL1_def PTE_UXN_def PTE_PXN_def
      PTE_ADDR_MASK_def push_bit_eq_mult)

text \<open>The level-3 entry written by \<open>map_page\<close>.\<close>

definition page_entry :: "usize \<Rightarrow> memory_flags \<Rightarrow> bool \<Rightarrow> u64" where
  "page_entry phys flags user = (phys AND PTE_ADDR_MASK) OR flags_to_pte flags user"

lemma page_entry_simps [simp]:
  "bit (page_entry phys flags user) 0"
  "page_entry phys flags user AND PTE_ADDR_MASK = phys AND PTE_ADDR_MASK"
  using descriptor_addr [OF flags_to_pte_attr] by (simp_all add: page_entry_def bit_or_iff flags_to_pte_valid)

lemma map_page_cases:
  assumes B: "bitvec_laws B" and inv: "vm_inv B v maps" and mp: "mp \<in> maps"
  obtains (oom) v' where "map_page B mp phys va flags user v = (Err OutOfMemory, v')" "vm_inv B v' maps"
      "vm_extends (get_pid mp) v v'" "card (free_pages B (mm v)) < 2"
      "\<And>mq vb. mq \<in> maps \<Longrightarrow> translation (ram v') (ttbr0 mq) vb = translation (ram v) (ttbr0 mq) vb"
  | (ok) v' where "map_page B mp phys va flags user v = (Ok (), v')" "vm_inv B v' maps"
      "vm_extends (get_pid mp) v v'"
      "\<And>mq vb. mq \<in> maps \<Longrightarrow> translation (ram v') (ttbr0 mq) vb =
        (if mq = mp \<and> vpage vb = vpage va then Some (page_entry phys flags user) else translation (ram v) (ttbr0 mq) vb)"
      "card (free_pages B (mm v)) \<le> card (free_pages B (mm v')) + 2"
proof -
  have root: "upper_path Root" "path_ok Root" "table_at (ram v) (ttbr0 mp) Root = Some (ttbr0 mp)" by simp_all
  note idx = l_index_less(1) [of va] l_index_less(2) [of va] l_index_less(3) [of va]
  show thesis
    using B inv mp root idx(1)
  proof (cases rule: ensure_table_cases)
    case oom
    then show thesis using that(1) [of v] inv by (simp add: map_page_def)
  next
    case one: (ok s2 v1)
    have mid: "upper_path (Mid (l1_index va))" "path_ok (Mid (l1_index va))"
        "table_at (ram v1) (ttbr0 mp) (Mid (l1_index va)) = Some s2" using one(3) by simp_all
    show thesis
      using B one(2) mp mid idx(2)
    proof (cases rule: ensure_table_cases)
      case oom
      then have "card (free_pages B (mm v)) < 2" using one(6) by simp
      then show thesis using that(1) [of v1] one oom by (simp add: map_page_def)
    next
      case two: (ok s3 v2)
      define v3 where "v3 = v2\<lparr>ram := (ram v2)(ptr_add (phys_to_virt s3) (l3_index va) := page_entry phys flags user)\<rparr>"
      have e: "map_page B mp phys va flags user v = (Ok (), v3)"
        using one(1) two(1) by (simp add: map_page_def v3_def page_entry_def)
      have T: "tables_inv v2 maps" "mm_inv B (mm v2)" using two(2) by (simp_all add: vm_inv_def)
      have leaf: "table_at (ram v2) (ttbr0 mp) (Leaf (l1_index va) (l2_index va)) = Some s3"
        "path_ok (Leaf (l1_index va) (l2_index va))" using two(3) by simp_all
      note W = leaf_write [OF T(1) mp leaf(1) idx v3_def]
      obtain x where x: "x < RAM_PAGES" "s3 = page_phys x" "owner_of (mm v2) x = Some (get_pid mp)"
        using tables_owned [OF T(1) mp leaf(2,1)] .
      have "vm_extends (get_pid mp) v2 v3"
        using vm_extends_write [OF x(1,3) idx(3)] by (simp add: v3_def x(2))
      then have ext: "vm_extends (get_pid mp) v v3" using one(4) two(4) vm_extends_trans by blast
      have "vm_inv B v3 maps" using W(2) T(2) by (simp add: vm_inv_def v3_def)
      moreover have "translation (ram v3) (ttbr0 mq) vb =
        (if mq = mp \<and> vpage vb = vpage va then Some (page_entry phys flags user) else translation (ram v) (ttbr0 mq) vb)"
        if "mq \<in> maps" for mq vb
        using W(3) [OF that, of vb] one(5) [OF that, of vb] two(5) [OF that, of vb] vpage_indices [of vb va] by simp
      moreover have "card (free_pages B (mm v)) \<le> card (free_pages B (mm v3)) + 2"
        using one(6) two(6) by (simp add: v3_def)
      ultimately show thesis using that(2) [OF e] ext by simp
    qed
  qed
qed

lemma unmap_page_cases:
  assumes inv: "vm_inv B v maps" and mp: "mp \<in> maps"
  obtains (unmapped) "unmap_page mp va v = (Err BadAddress, v)" "translation (ram v) (ttbr0 mp) va = None"
  | (ok) v' where "unmap_page mp va v = (Ok (), v')" "vm_inv B v' maps" "vm_extends (get_pid mp) v v'" "mm v' = mm v"
      "\<And>mq vb. mq \<in> maps \<Longrightarrow> translation (ram v') (ttbr0 mq) vb =
        (if mq = mp \<and> vpage vb = vpage va then None else translation (ram v) (ttbr0 mq) vb)"
proof -
  have T: "tables_inv v maps" "mm_inv B (mm v)" using inv by (simp_all add: vm_inv_def)
  let ?q = "Leaf (l1_index va) (l2_index va)"
  note idx = l_index_less(1) [of va] l_index_less(2) [of va] l_index_less(3) [of va]
  have q: "path_ok ?q" by simp
  show thesis
  proof (cases "table_at (ram v) (ttbr0 mp) ?q")
    case None
    then have "unmap_page mp va v = (Err BadAddress, v)"
      by (auto simp: unmap_page_def Let_def pte_def [symmetric] next_table_def split: option.splits if_splits)
    then show thesis using unmapped None by (simp add: translation_def del: table_at.simps)
  next
    case (Some s)
    define v' where "v' = v\<lparr>ram := (ram v)(ptr_add (phys_to_virt s) (l3_index va) := 0)\<rparr>"
    have e: "unmap_page mp va v = (Ok (), v')"
      using Some by (auto simp: unmap_page_def Let_def pte_def [symmetric] next_table_def v'_def split: option.splits if_splits)
    note W = leaf_write [OF T(1) mp Some idx v'_def]
    obtain x where x: "x < RAM_PAGES" "s = page_phys x" "owner_of (mm v) x = Some (get_pid mp)"
      using tables_owned [OF T(1) mp q Some] .
    have "vm_extends (get_pid mp) v v'"
      using vm_extends_write [OF x(1,3) idx(3)] by (simp add: v'_def x(2))
    moreover have "vm_inv B v' maps" using W(2) T(2) by (simp add: vm_inv_def v'_def)
    moreover have "translation (ram v') (ttbr0 mq) vb =
        (if mq = mp \<and> vpage vb = vpage va then None else translation (ram v) (ttbr0 mq) vb)" if "mq \<in> maps" for mq vb
      using W(3) [OF that, of vb] vpage_indices [of vb va] by simp
    ultimately show thesis using ok [OF e] by (simp add: v'_def)
  qed
qed

lemma virt_to_phys_translation:
  "virt_to_phys v mp va =
    (case translation (ram v) (ttbr0 mp) va of
       None \<Rightarrow> Err BadAddress
     | Some e \<Rightarrow> Ok ((e AND PTE_ADDR_MASK) OR (va AND of_nat (PAGE_SIZE - 1))))"
  by (auto simp: virt_to_phys_def translation_def Let_def pte_def [symmetric] next_table_def)

end
