(* ===== verification/Processes.thy ===== *)
theory Processes
  imports Thread_Contexts Message_Permissions Page_Tables
begin

text \<open>
  The kernel's process record, \<open>Process\<close> of \<open>xous/kernel/src/process.rs\<close>: thread states
  and priorities, memory and syscall permissions, event handlers, the connection
  table, notification bits and the per-thread futures and mailboxes.  Operations that
  also call the scheduler work on the pair of the process and the scheduler.
\<close>

section \<open>Data\<close>

definition MEMORY_PERMISSION_COUNT :: nat where "MEMORY_PERMISSION_COUNT = 8"
definition MAX_CONNECTIONS :: nat where "MAX_CONNECTIONS = 32"
definition MAX_PROCESS_NAME_LEN :: nat where "MAX_PROCESS_NAME_LEN = 64"

datatype thread_state =
    TFree
  | TReady
  | RetryConnect u32
  | RetryQueueFull nat
  | WaitEvent usize

datatype kernel_future =
    FReceiveMessage nat
  | FWaitBlocking
  | FWaitProcessExit pid
  | FWaitJoin nat
  | FWaitFutex usize
  | FWaitDisplay

definition EVENT_SERVER_MSG :: usize where "EVENT_SERVER_MSG = 0x1"
definition EVENT_KERNEL :: usize where "EVENT_KERNEL = 0x2"

fun suspension_mask :: "kernel_future \<Rightarrow> usize" where
  "suspension_mask (FReceiveMessage _) = EVENT_SERVER_MSG"
| "suspension_mask FWaitBlocking = EVENT_KERNEL"
| "suspension_mask (FWaitProcessExit _) = EVENT_KERNEL"
| "suspension_mask (FWaitJoin _) = EVENT_KERNEL"
| "suspension_mask (FWaitFutex _) = EVENT_KERNEL"
| "suspension_mask FWaitDisplay = EVENT_KERNEL"

datatype connection_slot =
    SlotFree
  | Tombstone usize
  | Connected u8 usize message_permissions

record event_handler =
  eh_sid :: sid
  eh_message_id :: usize

record process =
  p_mapping :: memory_mapping
  p_pid :: pid
  p_ppid :: "pid option"
  p_name :: "u8 list option"
  p_threads :: "thread_state list"
  p_priorities :: "thread_priority list"
  p_event_handlers :: "event_handler option list"
  p_app_id :: app_id
  p_memory_permissions :: "(usize \<times> usize) list"
  p_syscall_permissions :: u64
  p_connections :: "connection_slot list"
  p_allocation_hint :: usize
  p_next_mirror_address :: usize
  p_aslr_slide :: usize
  p_notification_bits :: usize
  p_kernel_futures :: "kernel_future option list"
  p_result_mailbox :: "xous_result option list"

definition process_new :: "memory_mapping \<Rightarrow> pid \<Rightarrow> pid \<Rightarrow> app_id \<Rightarrow> process" where
  "process_new mapping pid ppid app =
    \<lparr>p_mapping = mapping, p_pid = pid, p_ppid = Some ppid, p_name = None,
     p_threads = replicate MAX_THREAD_COUNT TFree,
     p_priorities = replicate MAX_THREAD_COUNT AppDefault,
     p_event_handlers = replicate NUM_SYSTEM_EVENTS None,
     p_app_id = app,
     p_memory_permissions = replicate MEMORY_PERMISSION_COUNT (0, 0), p_syscall_permissions = 0,
     p_connections = replicate MAX_CONNECTIONS SlotFree,
     p_allocation_hint = MMAP_AREA_VIRT, p_next_mirror_address = MEMORY_MIRROR_AREA_VIRT,
     p_aslr_slide = 0, p_notification_bits = 0,
     p_kernel_futures = replicate MAX_THREAD_COUNT None,
     p_result_mailbox = replicate MAX_THREAD_COUNT None\<rparr>"

section \<open>Thread states\<close>

text \<open>The array accesses \<open>self.threads[tid]\<close> and \<open>self.thread_priorities[tid]\<close>.\<close>

definition thread_state_of :: "process \<Rightarrow> nat \<Rightarrow> thread_state kresult" where
  "thread_state_of p tid = (if tid < length (p_threads p) then Ok (p_threads p ! tid) else Panic)"

definition thread_priority_of :: "process \<Rightarrow> nat \<Rightarrow> thread_priority kresult" where
  "thread_priority_of p tid = (if tid < length (p_priorities p) then Ok (p_priorities p ! tid) else Panic)"

type_synonym proc_sched = "process \<times> scheduler"

text \<open>A call of the scheduler from a method of the process.\<close>

definition sched_call :: "(scheduler \<Rightarrow> scheduler kresult) \<Rightarrow> proc_sched \<Rightarrow> unit kresult \<times> proc_sched" where
  "sched_call f ps =
    (case f (snd ps) of
       Ok s \<Rightarrow> (Ok (), (fst ps, s)) | Err e \<Rightarrow> (Err e, ps) | Panic \<Rightarrow> (Panic, ps))"

definition set_thread_state :: "nat \<Rightarrow> thread_state \<Rightarrow> proc_sched \<Rightarrow> unit kresult \<times> proc_sched" where
  "set_thread_state tid st ps =
    sbind (thread_priority_of (fst ps) tid, ps) (\<lambda>prio ps.
    sbind (thread_state_of (fst ps) tid, ps) (\<lambda>old ps.
    sbind (if old = TReady \<and> st \<noteq> TReady
           then sched_call (\<lambda>s. park_thread s (p_pid (fst ps), tid) prio) ps else (Ok (), ps)) (\<lambda>_ ps.
    sbind (if old \<noteq> TReady \<and> st = TReady
           then sched_call (\<lambda>s. ready_thread s (p_pid (fst ps), tid) prio) ps else (Ok (), ps)) (\<lambda>_ ps.
    (Ok (), ((fst ps)\<lparr>p_threads := (p_threads (fst ps))[tid := st]\<rparr>, snd ps))))))"

definition set_thread_priority :: "nat \<Rightarrow> thread_priority \<Rightarrow> proc_sched \<Rightarrow> unit kresult \<times> proc_sched" where
  "set_thread_priority tid priority ps =
    sbind (thread_priority_of (fst ps) tid, ps) (\<lambda>current_priority ps.
    if current_priority = priority then (Ok (), ps)
    else
      sbind (thread_state_of (fst ps) tid, ps) (\<lambda>st ps.
      sbind (if st = TReady
             then sbind (sched_call (\<lambda>s. park_thread s (p_pid (fst ps), tid) current_priority) ps)
               (\<lambda>_ ps. sched_call (\<lambda>s. ready_thread s (p_pid (fst ps), tid) priority) ps)
             else (Ok (), ps)) (\<lambda>_ ps.
      (Ok (), ((fst ps)\<lparr>p_priorities := (p_priorities (fst ps))[tid := priority]\<rparr>, snd ps)))))"

section \<open>Name\<close>

text \<open>The bytes before the first zero.\<close>

definition name_bytes :: "u8 list \<Rightarrow> u8 list" where
  "name_bytes bs = takeWhile (\<lambda>b. b \<noteq> 0) bs"

definition process_name :: "process \<Rightarrow> u8 list option" where
  "process_name p =
    (case p_name p of
       None \<Rightarrow> None
     | Some bs \<Rightarrow>
         (case from_utf8 (name_bytes bs) of
            None \<Rightarrow> None
          | Some n \<Rightarrow> if n \<noteq> [] then Some n else None))"

definition set_name :: "u8 list \<Rightarrow> process \<Rightarrow> unit kresult \<times> process" where
  "set_name bs p =
    (if length bs > MAX_PROCESS_NAME_LEN then (Err InvalidString, p)
     else if process_name p \<noteq> None then (Err InternalError, p)
     else (Ok (), p\<lparr>p_name := Some (bs @ replicate (MAX_PROCESS_NAME_LEN - length bs) 0)\<rparr>))"

section \<open>Permissions\<close>

definition range_has :: "usize \<times> usize \<Rightarrow> usize \<Rightarrow> bool" where
  "range_has r a \<longleftrightarrow> fst r \<le> a \<and> a < snd r"

fun check_regions :: "(usize \<times> usize) list \<Rightarrow> usize \<Rightarrow> unit kresult" where
  "check_regions [] addr = Err AccessDenied"
| "check_regions (r # rs) addr =
    (if range_has r addr then Ok ()
     else if snd r = 0 then Err AccessDenied
     else check_regions rs addr)"

definition check_memory_permission :: "process \<Rightarrow> usize \<Rightarrow> unit kresult" where
  "check_memory_permission p addr =
    (if nz_get (p_pid p) = 1 \<or> is_address_in_plaintext_dram addr \<or> is_address_encrypted addr then Ok ()
     else check_regions (p_memory_permissions p) addr)"

fun add_region :: "usize \<times> usize \<Rightarrow> (usize \<times> usize) list \<Rightarrow> (usize \<times> usize) list option" where
  "add_region new [] = None"
| "add_region new (r # rs) =
    (if snd r = 0 then Some (new # rs) else map_option ((#) r) (add_region new rs))"

definition add_memory_permission :: "usize \<times> usize \<Rightarrow> process \<Rightarrow> unit kresult \<times> process" where
  "add_memory_permission r p =
    (case add_region r (p_memory_permissions p) of
       None \<Rightarrow> (Err OutOfMemory, p)
     | Some rs \<Rightarrow> (Ok (), p\<lparr>p_memory_permissions := rs\<rparr>))"

definition set_event_handler :: "system_event \<Rightarrow> sid \<Rightarrow> usize \<Rightarrow> process \<Rightarrow> unit kresult \<times> process" where
  "set_event_handler event s mid p =
    (let i = unat (system_event_as_usize event) in
     if i \<ge> length (p_event_handlers p) then (Panic, p)
     else if p_event_handlers p ! i \<noteq> None then (Err AccessDenied, p)
     else (Ok (), p\<lparr>p_event_handlers := (p_event_handlers p)[i := Some \<lparr>eh_sid = s, eh_message_id = mid\<rparr>]\<rparr>))"

definition get_event_handler :: "process \<Rightarrow> system_event \<Rightarrow> (sid \<times> usize) option kresult" where
  "get_event_handler p event =
    (let i = unat (system_event_as_usize event) in
     if i \<ge> length (p_event_handlers p) then Panic
     else Ok (map_option (\<lambda>e. (eh_sid e, eh_message_id e)) (p_event_handlers p ! i)))"

section \<open>Futures and mailboxes\<close>

definition set_kernel_future :: "nat \<Rightarrow> kernel_future \<Rightarrow> process \<Rightarrow> process" where
  "set_kernel_future tid f p =
    (if tid < MAX_THREAD_COUNT then p\<lparr>p_kernel_futures := (p_kernel_futures p)[tid := Some f]\<rparr> else p)"

definition take_kernel_future :: "nat \<Rightarrow> process \<Rightarrow> kernel_future option \<times> process" where
  "take_kernel_future tid p =
    (if tid < MAX_THREAD_COUNT
     then (p_kernel_futures p ! tid, p\<lparr>p_kernel_futures := (p_kernel_futures p)[tid := None]\<rparr>)
     else (None, p))"

definition kernel_future_of :: "process \<Rightarrow> nat \<Rightarrow> kernel_future option" where
  "kernel_future_of p tid = (if tid < MAX_THREAD_COUNT then p_kernel_futures p ! tid else None)"

definition has_kernel_future :: "process \<Rightarrow> nat \<Rightarrow> bool" where
  "has_kernel_future p tid \<longleftrightarrow> tid < MAX_THREAD_COUNT \<and> p_kernel_futures p ! tid \<noteq> None"

definition set_mailbox :: "nat \<Rightarrow> xous_result \<Rightarrow> process \<Rightarrow> process" where
  "set_mailbox tid r p =
    (if tid < MAX_THREAD_COUNT then p\<lparr>p_result_mailbox := (p_result_mailbox p)[tid := Some r]\<rparr> else p)"

definition take_mailbox :: "nat \<Rightarrow> process \<Rightarrow> xous_result option \<times> process" where
  "take_mailbox tid p =
    (if tid < MAX_THREAD_COUNT
     then (p_result_mailbox p ! tid, p\<lparr>p_result_mailbox := (p_result_mailbox p)[tid := None]\<rparr>)
     else (None, p))"

section \<open>Notifications\<close>

definition take_notification_bits :: "process \<Rightarrow> usize \<times> process" where
  "take_notification_bits p = (p_notification_bits p, p\<lparr>p_notification_bits := 0\<rparr>)"

definition take_notification_bits_masked :: "usize \<Rightarrow> process \<Rightarrow> usize \<times> process" where
  "take_notification_bits_masked msk p =
    (p_notification_bits p AND msk, p\<lparr>p_notification_bits := p_notification_bits p AND NOT msk\<rparr>)"

fun post_loop :: "nat list \<Rightarrow> proc_sched \<Rightarrow> (nat \<times> usize) option kresult \<times> proc_sched" where
  "post_loop [] ps = (Ok None, ps)"
| "post_loop (tid # tids) ps =
    (case thread_state_of (fst ps) tid of
       Ok (WaitEvent msk) \<Rightarrow>
         let fired = p_notification_bits (fst ps) AND msk in
         if fired \<noteq> 0 then
           sbind (set_thread_state tid TReady
             ((fst ps)\<lparr>p_notification_bits := p_notification_bits (fst ps) AND NOT fired\<rparr>, snd ps))
             (\<lambda>_ ps. (Ok (Some (tid, fired)), ps))
         else post_loop tids ps
     | Panic \<Rightarrow> (Panic, ps)
     | _ \<Rightarrow> post_loop tids ps)"

definition post_notification_bits :: "usize \<Rightarrow> proc_sched \<Rightarrow> (nat \<times> usize) option kresult \<times> proc_sched" where
  "post_notification_bits bits ps =
    post_loop [1 ..< MAX_THREAD_COUNT]
      ((fst ps)\<lparr>p_notification_bits := p_notification_bits (fst ps) OR bits\<rparr>, snd ps)"

fun wake_loop :: "thread_state \<Rightarrow> usize \<Rightarrow> nat list \<Rightarrow> proc_sched \<Rightarrow> unit kresult \<times> proc_sched" where
  "wake_loop st n [] ps = (Ok (), ps)"
| "wake_loop st n (tid # tids) ps =
    (case thread_state_of (fst ps) tid of
       Ok s \<Rightarrow>
         if s = st then
           sbind (set_thread_state tid TReady ps) (\<lambda>_ ps.
             if n - 1 = 0 then (Ok (), ps) else wake_loop st (n - 1) tids ps)
         else wake_loop st n tids ps
     | Err e \<Rightarrow> (Err e, ps)
     | Panic \<Rightarrow> (Panic, ps))"

definition wake_process_threads :: "thread_state \<Rightarrow> usize \<Rightarrow> proc_sched \<Rightarrow> unit kresult \<times> proc_sched" where
  "wake_process_threads st n ps =
    (if n = 0 then (Ok (), ps) else wake_loop st n [1 ..< MAX_THREAD_COUNT - 1] ps)"

section \<open>Connections\<close>

text \<open>A connection id is the index of the slot plus two.\<close>

definition cid_of :: "nat \<Rightarrow> cid" where
  "cid_of i = of_nat i + 2"

fun slot_sidx :: "connection_slot \<Rightarrow> u8 option" where
  "slot_sidx (Connected sidx _ _) = Some sidx"
| "slot_sidx _ = None"

definition find_slot :: "(connection_slot \<Rightarrow> bool) \<Rightarrow> process \<Rightarrow> nat option" where
  "find_slot P p = find (\<lambda>i. P (p_connections p ! i)) [0 ..< length (p_connections p)]"

definition tombstone_connection_by_sidx :: "nat \<Rightarrow> process \<Rightarrow> cid option \<times> process" where
  "tombstone_connection_by_sidx dead p =
    (case find_slot (\<lambda>c. slot_sidx c = Some (of_nat dead)) p of
       None \<Rightarrow> (None, p)
     | Some i \<Rightarrow>
         (case p_connections p ! i of
            Connected _ n _ \<Rightarrow> (Some (cid_of i), p\<lparr>p_connections := (p_connections p)[i := Tombstone n]\<rparr>)
          | _ \<Rightarrow> (None, p)))"

definition add_connection :: "nat \<Rightarrow> message_permissions \<Rightarrow> process \<Rightarrow> cid kresult \<times> process" where
  "add_connection sidx perms p =
    (case find_slot (\<lambda>c. slot_sidx c = Some (of_nat sidx)) p of
       Some i \<Rightarrow>
         (case p_connections p ! i of
            Connected s n old \<Rightarrow>
              if n = - 1 then (Panic, p)
              else (Ok (cid_of i), p\<lparr>p_connections := (p_connections p)[i := Connected s (n + 1) old]\<rparr>)
          | _ \<Rightarrow> (Panic, p))
     | None \<Rightarrow>
         (case find_slot (\<lambda>c. c = SlotFree) p of
            Some i \<Rightarrow>
              (Ok (cid_of i), p\<lparr>p_connections := (p_connections p)[i := Connected (of_nat sidx) 1 perms]\<rparr>)
          | None \<Rightarrow> (Err OutOfMemory, p)))"

definition connection :: "process \<Rightarrow> cid \<Rightarrow> connection_slot kresult" where
  "connection p c =
    (if c < 2 then Err ServerNotFound
     else if unat c - 2 < length (p_connections p) then Ok (p_connections p ! (unat c - 2))
     else Err ServerNotFound)"

definition number_of_connections :: "process \<Rightarrow> nat" where
  "number_of_connections p = length (filter (\<lambda>c. c \<noteq> SlotFree) (p_connections p))"

text \<open>The match of \<open>disconnect_from_server\<close> on the slot.\<close>

definition disconnect_slot :: "cid \<Rightarrow> process \<Rightarrow> unit kresult \<times> process" where
  "disconnect_slot c p =
    sbind (connection p c, p) (\<lambda>slot p.
      let i = unat c - 2 in
      case slot of
        SlotFree \<Rightarrow> (Err ServerNotFound, p)
      | Tombstone n \<Rightarrow>
          if n > 1 then (Ok (), p\<lparr>p_connections := (p_connections p)[i := Tombstone (n - 1)]\<rparr>)
          else (Ok (), p\<lparr>p_connections := (p_connections p)[i := SlotFree]\<rparr>)
      | Connected s n perms \<Rightarrow>
          if n > 1 then (Ok (), p\<lparr>p_connections := (p_connections p)[i := Connected s (n - 1) perms]\<rparr>)
          else (Ok (), p\<lparr>p_connections := (p_connections p)[i := SlotFree]\<rparr>))"

end
