(* ===== verification/Fifo_Contract.thy ===== *)
theory Fifo_Contract
  imports Kernel_Prelude
begin

text \<open>
  The contract of the kernel's queues, used by the server message queue and by
  the ring buffers of the display state: an invariant, the list of the queued
  elements in order, and what enqueueing and dequeueing do to that list.  The
  lemmas are the delivery order seen by a client of any of them.
\<close>

section \<open>Sequences of queue operations\<close>

fun enq_all :: "('s \<Rightarrow> 'a \<Rightarrow> 's option) \<Rightarrow> 's \<Rightarrow> 'a list \<Rightarrow> 's option" where
  "enq_all enq s [] = Some s"
| "enq_all enq s (x # xs) = (case enq s x of None \<Rightarrow> None | Some s' \<Rightarrow> enq_all enq s' xs)"

fun deq_n :: "('s \<Rightarrow> ('a \<times> 's) option) \<Rightarrow> nat \<Rightarrow> 's \<Rightarrow> 'a list \<times> 's" where
  "deq_n deq 0 s = ([], s)"
| "deq_n deq (Suc n) s =
    (case deq s of
       None \<Rightarrow> ([], s)
     | Some (x, s') \<Rightarrow> (case deq_n deq n s' of (xs, s'') \<Rightarrow> (x # xs, s'')))"

section \<open>The contract\<close>

locale fifo_queue =
  fixes inv :: "'s \<Rightarrow> bool"
    and abs :: "'s \<Rightarrow> 'a list"
    and enq :: "'s \<Rightarrow> 'a \<Rightarrow> 's option"
    and deq :: "'s \<Rightarrow> ('a \<times> 's) option"
  assumes enq_refines: "inv s \<Longrightarrow> enq s x = Some s' \<Longrightarrow> inv s' \<and> abs s' = abs s @ [x]"
    and deq_refines: "inv s \<Longrightarrow> deq s = Some (x, s') \<Longrightarrow> inv s' \<and> abs s = x # abs s'"
    and deq_empty: "inv s \<Longrightarrow> deq s = None \<longleftrightarrow> abs s = []"
begin

lemma enq_all_refines:
  "inv s \<Longrightarrow> enq_all enq s xs = Some s' \<Longrightarrow> inv s' \<and> abs s' = abs s @ xs"
proof (induction xs arbitrary: s)
  case (Cons x xs)
  then obtain t where "enq s x = Some t" "enq_all enq t xs = Some s'"
    by (auto split: option.splits)
  with Cons enq_refines show ?case by fastforce
qed simp

lemma deq_n_refines:
  "inv s \<Longrightarrow> fst (deq_n deq n s) = take n (abs s) \<and> abs (snd (deq_n deq n s)) = drop n (abs s)
     \<and> inv (snd (deq_n deq n s))"
proof (induction n arbitrary: s)
  case (Suc n)
  show ?case
  proof (cases "deq s")
    case None
    then show ?thesis using deq_empty [OF Suc.prems] Suc.prems by simp
  next
    case (Some y)
    then obtain x t where y: "deq s = Some (x, t)" by fastforce
    then have "inv t" "abs s = x # abs t" using deq_refines Suc.prems by blast+
    then show ?thesis using Suc.IH [of t] y by (auto split: prod.split)
  qed
qed simp

lemma delivered_in_order:
  assumes "inv s" "enq_all enq s xs = Some s'"
  shows "fst (deq_n deq (length (abs s) + length xs) s') = abs s @ xs"
  using enq_all_refines [OF assms] deq_n_refines [of s' "length (abs s) + length xs"] by simp

end

end
