(* ===== verification/Server_Queue.thy ===== *)
theory Server_Queue
  imports Messages Message_Permissions Fifo_Contract
begin

text \<open>
  The message queue of a server, \<open>xous/kernel/src/server.rs\<close>: the slots of the
  queue, the search for an empty slot, queueing, delivery by generation number,
  replies, and the bit set of parked server threads.  Slot indices, counts and
  thread ids are natural numbers (the code's \<open>usize\<close> indices never wrap: they
  are compared with the queue length); generations are 8-bit words that do wrap.

  The invariant \<open>server_inv\<close> ties the generation counters to the slots; the
  abstraction \<open>server_pending\<close> is the list of undelivered messages, oldest first.
  \<open>queue_message\<close> appends to it and \<open>take_next_message\<close> takes its head, whatever
  order the slots were reused in.
\<close>

section \<open>Senders\<close>

record sender_id =
  snd_sidx :: usize
  snd_idx :: usize
  snd_pid :: "pid option"

definition sender_id_from :: "usize \<Rightarrow> sender_id" where
  "sender_id_from item =
    \<lparr>snd_sidx = drop_bit 16 item AND 0xFF, snd_idx = item AND 0xFFFF,
     snd_pid = nz_new (ucast (drop_bit 24 item))\<rparr>"

definition sender_id_to :: "sender_id \<Rightarrow> usize" where
  "sender_id_to val =
    (push_bit 24 (case snd_pid val of None \<Rightarrow> 0 | Some p \<Rightarrow> ucast (nz_get p)) OR
     (push_bit 16 (snd_sidx val) AND 0x00FF0000)) OR (snd_idx val AND 0xFFFF)"

definition sender_of :: "usize \<Rightarrow> nat \<Rightarrow> pid option \<Rightarrow> sender" where
  "sender_of sidx idx p =
    sender_from_usize (sender_id_to \<lparr>snd_sidx = sidx, snd_idx = of_nat idx, snd_pid = p\<rparr>)"

section \<open>Slots\<close>

datatype waiting_message =
    WaitingNone
  | BorrowedMemory pid nat memory_address
  | WaitingScalarMessage pid nat
  | ScalarMessageTerminated
  | ForgetMemory memory_range

text \<open>
  The variants of \<open>QueuedMessage\<close> with their fields in the source's order
  (\<open>pid\<close>, \<open>tid\<close>, \<open>idx\<close>, \<open>msg_id\<close>, then the payload).
\<close>

datatype queued_message =
    Empty
  | QBlockingScalar pid u8 u8 usize usize usize usize usize
  | QScalar pid u8 usize usize usize usize usize
  | QSend pid u8 usize memory_address memory_size usize usize
  | QROLend pid u8 u8 usize memory_address memory_address memory_size usize usize
  | QRWLend pid u8 u8 usize memory_address memory_address memory_size usize usize
  | QROLendTerminated u8 usize memory_address memory_size usize usize
  | QRWLendTerminated u8 usize memory_address memory_size usize usize
  | QBlockingScalarTerminated u8 usize usize usize usize usize
  | WaitingReturnMemory pid u8 memory_address memory_address memory_size
  | WaitingForget memory_address memory_size
  | WaitingReturnScalar pid u8
  | WaitingReturnScalarTerminated

record server =
  srv_sid :: sid
  srv_pid :: pid
  queue_head :: nat
  queue_tail :: nat
  head_generation :: u8
  tail_generation :: u8
  empty_count :: nat
  queue_base :: usize
  queue :: "queued_message list"
  ready_threads :: usize
  default_permissions :: message_permissions

text \<open>
  \<open>Server::init\<close> views the backing page at address \<open>base\<close> as queue slots; \<open>slots\<close> is
  that view.
  The first component is the entry of the server table after the call.
\<close>

definition server_init ::
  "server option \<Rightarrow> pid \<Rightarrow> sid \<Rightarrow> usize \<Rightarrow> queued_message list \<Rightarrow> usize \<times> usize
   \<Rightarrow> unit kresult \<times> server option" where
  "server_init new p s base slots perms =
    (if new \<noteq> None then (Err MemoryInUse, new)
     else
       (case (if range_is_empty perms then (Ok (), permissions_default)
              else permissions_add permissions_default perms) of
          (Ok _, dp) \<Rightarrow>
            (Ok (), Some \<lparr>srv_sid = s, srv_pid = p, queue_head = 0, queue_tail = 0,
               head_generation = 0, tail_generation = 0, empty_count = length slots,
               queue_base = base, queue = slots, ready_threads = 0, default_permissions = dp\<rparr>)
        | (Err e, _) \<Rightarrow> (Err e, new)
        | (Panic, _) \<Rightarrow> (Panic, new)))"

definition is_queue_full :: "server \<Rightarrow> bool" where
  "is_queue_full s \<longleftrightarrow> empty_count s = 0"

section \<open>Process termination\<close>

fun discard_entry :: "pid \<Rightarrow> queued_message \<Rightarrow> queued_message" where
  "discard_entry p (QROLend mp t i mid ca sa bs off val) =
    (if mp = p then QROLendTerminated i mid sa bs off val
     else QROLend mp t i mid ca sa bs off val)"
| "discard_entry p (QRWLend mp t i mid ca sa bs off val) =
    (if mp = p then QRWLendTerminated i mid sa bs off val
     else QRWLend mp t i mid ca sa bs off val)"
| "discard_entry p (QBlockingScalar mp t i mid a1 a2 a3 a4) =
    (if mp = p then QBlockingScalarTerminated i mid a1 a2 a3 a4
     else QBlockingScalar mp t i mid a1 a2 a3 a4)"
| "discard_entry p (WaitingReturnMemory mp t sa ca bs) =
    (if mp = p then WaitingForget sa bs else WaitingReturnMemory mp t sa ca bs)"
| "discard_entry p (WaitingReturnScalar mp t) =
    (if mp = p then WaitingReturnScalarTerminated else WaitingReturnScalar mp t)"
| "discard_entry p q = q"

definition discard_messages_for_pid :: "server \<Rightarrow> pid \<Rightarrow> server" where
  "discard_messages_for_pid s p = s\<lparr>queue := map (discard_entry p) (queue s)\<rparr>"

section \<open>Replies\<close>

definition buf_matches :: "memory_range option \<Rightarrow> memory_address \<Rightarrow> memory_size \<Rightarrow> bool" where
  "buf_matches buf sa bs \<longleftrightarrow>
    (case buf of None \<Rightarrow> True
     | Some b \<Rightarrow> \<not> (nz_get sa \<noteq> as_ptr b \<or> nz_get bs \<noteq> memory_range_len b))"

definition next_slot :: "server \<Rightarrow> nat \<Rightarrow> nat" where
  "next_slot s i = (if i + 1 \<ge> length (queue s) then 0 else i + 1)"

definition take_waiting_message ::
  "server \<Rightarrow> nat \<Rightarrow> memory_range option \<Rightarrow> waiting_message kresult \<times> server" where
  "take_waiting_message s i buf =
    (if i \<ge> length (queue s) then (Err BadAddress, s)
     else
       let taken = (\<lambda>r. (Ok r, s\<lparr>queue := (queue s)[i := Empty], empty_count := empty_count s + 1,
                                  queue_tail := next_slot s i\<rparr>))
       in case queue s ! i of
            WaitingReturnMemory p t sa ca bs \<Rightarrow>
              if \<not> buf_matches buf sa bs then (Err BadAddress, s)
              else taken (BorrowedMemory p (unat t) ca)
          | WaitingForget sa bs \<Rightarrow>
              if \<not> buf_matches buf sa bs then (Err BadAddress, s)
              else taken (ForgetMemory \<lparr>mr_addr = sa, mr_size = bs\<rparr>)
          | WaitingReturnScalar p t \<Rightarrow> taken (WaitingScalarMessage p (unat t))
          | WaitingReturnScalarTerminated \<Rightarrow> taken ScalarMessageTerminated
          | _ \<Rightarrow> (Ok WaitingNone, s))"

section \<open>Delivery\<close>

text \<open>
  The match of \<open>take_next_message\<close> on a slot: the envelope and the token that
  replaces the message, or \<open>None\<close> for the arm that moves to the next slot.  A
  message whose sender has terminated is delivered with process id 255.
\<close>

definition memory_body :: "usize \<Rightarrow> memory_address \<Rightarrow> memory_size \<Rightarrow> usize \<Rightarrow> usize \<Rightarrow> memory_message" where
  "memory_body mid sa bs off val =
    \<lparr>mm_id = mid, mm_buf = \<lparr>mr_addr = sa, mr_size = bs\<rparr>,
     mm_offset = nz_new off, mm_valid = nz_new val\<rparr>"

definition scalar_body :: "usize \<Rightarrow> usize \<Rightarrow> usize \<Rightarrow> usize \<Rightarrow> usize \<Rightarrow> scalar_message" where
  "scalar_body mid a1 a2 a3 a4 =
    \<lparr>sm_id = mid, sm_arg1 = a1, sm_arg2 = a2, sm_arg3 = a3, sm_arg4 = a4\<rparr>"

fun take_arm :: "u8 \<Rightarrow> usize \<Rightarrow> nat \<Rightarrow> queued_message \<Rightarrow> (envelope \<times> queued_message) option" where
  "take_arm g sidx qi (QROLend p t i mid ca sa bs off val) =
    (if i = g then Some (\<lparr>env_sender = sender_of sidx qi (Some p),
        env_body = Borrow (memory_body mid sa bs off val)\<rparr>, WaitingReturnMemory p t sa ca bs) else None)"
| "take_arm g sidx qi (QRWLend p t i mid ca sa bs off val) =
    (if i = g then Some (\<lparr>env_sender = sender_of sidx qi (Some p),
        env_body = MutableBorrow (memory_body mid sa bs off val)\<rparr>, WaitingReturnMemory p t sa ca bs)
     else None)"
| "take_arm g sidx qi (QROLendTerminated i mid sa bs off val) =
    (if i = g then Some (\<lparr>env_sender = sender_of sidx qi (nz_new 255),
        env_body = Borrow (memory_body mid sa bs off val)\<rparr>, WaitingForget sa bs) else None)"
| "take_arm g sidx qi (QRWLendTerminated i mid sa bs off val) =
    (if i = g then Some (\<lparr>env_sender = sender_of sidx qi (nz_new 255),
        env_body = MutableBorrow (memory_body mid sa bs off val)\<rparr>, WaitingForget sa bs) else None)"
| "take_arm g sidx qi (QBlockingScalar p t i mid a1 a2 a3 a4) =
    (if i = g then Some (\<lparr>env_sender = sender_of sidx qi (Some p),
        env_body = BlockingScalar (scalar_body mid a1 a2 a3 a4)\<rparr>, WaitingReturnScalar p t) else None)"
| "take_arm g sidx qi (QSend p i mid sa bs off val) =
    (if i = g then Some (\<lparr>env_sender = sender_of sidx qi (Some p),
        env_body = Move (memory_body mid sa bs off val)\<rparr>, Empty) else None)"
| "take_arm g sidx qi (QScalar p i mid a1 a2 a3 a4) =
    (if i = g then Some (\<lparr>env_sender = sender_of sidx qi (Some p),
        env_body = Scalar (scalar_body mid a1 a2 a3 a4)\<rparr>, Empty) else None)"
| "take_arm g sidx qi (QBlockingScalarTerminated i mid a1 a2 a3 a4) =
    (if i = g then Some (\<lparr>env_sender = sender_of sidx qi (nz_new 255),
        env_body = BlockingScalar (scalar_body mid a1 a2 a3 a4)\<rparr>, WaitingReturnScalarTerminated)
     else None)"
| "take_arm g sidx qi _ = None"

text \<open>
  The loop: it starts at \<open>queue_tail\<close> and ends when it is back there.  The guard
  on \<open>queue_tail\<close> is the bounds check of the first iteration.
\<close>

function take_loop ::
  "server \<Rightarrow> usize \<Rightarrow> nat \<Rightarrow> (nat \<times> envelope \<times> queued_message) option kresult" where
  "take_loop s sidx qi =
    (if qi \<ge> length (queue s) \<or> queue_tail s \<ge> length (queue s) then Panic
     else (case take_arm (head_generation s) sidx qi (queue s ! qi) of
        Some (env, response) \<Rightarrow> Ok (Some (qi, env, response))
      | None \<Rightarrow>
          if next_slot s qi = queue_tail s then Ok None
          else take_loop s sidx (next_slot s qi)))"
  by pat_completeness auto
termination
  by (relation "measure (\<lambda>(s, _, qi).
        if qi < queue_tail s then queue_tail s - qi else queue_tail s + length (queue s) - qi)")
    (auto simp: next_slot_def)

declare take_loop.simps [simp del]

definition take_next_message ::
  "server \<Rightarrow> usize \<Rightarrow> envelope option kresult \<times> server" where
  "take_next_message s sidx =
    (if tail_generation s = head_generation s then (Ok None, s)
     else (case take_loop s sidx (queue_tail s) of
        Ok (Some (qi, env, response)) \<Rightarrow>
          (Ok (Some env),
           s\<lparr>queue_tail := next_slot s qi,
             empty_count := (if response = Empty then empty_count s + 1 else empty_count s),
             queue := (queue s)[qi := response],
             head_generation := head_generation s + 1\<rparr>)
      | Ok None \<Rightarrow> (Ok None, s)
      | Err e \<Rightarrow> (Err e, s)
      | Panic \<Rightarrow> (Panic, s)))"

section \<open>Queueing\<close>

text \<open>
  \<open>find_empty_slot\<close> scans from \<open>queue_head\<close> to the end, then from the start; a
  \<open>queue_head\<close> out of range would make the second half index out of bounds.
\<close>

definition find_empty_slot :: "server \<Rightarrow> nat kresult \<times> server" where
  "find_empty_slot s =
    (case find (\<lambda>qi. qi \<ge> length (queue s) \<or> queue s ! qi = Empty)
            ([queue_head s ..< length (queue s)] @ [0 ..< queue_head s]) of
       Some qi \<Rightarrow>
         if qi \<ge> length (queue s) then (Panic, s)
         else (Ok qi, s\<lparr>queue_head := next_slot s qi\<rparr>)
     | None \<Rightarrow> (Err ServerQueueFull, s))"

text \<open>The slot written for a message with generation \<open>i\<close>, or the error of its \<open>?\<close> operators.\<close>

fun queued_of ::
  "pid \<Rightarrow> nat \<Rightarrow> u8 \<Rightarrow> message \<Rightarrow> memory_address option \<Rightarrow> queued_message kresult" where
  "queued_of p t i (Scalar m) orig =
    Ok (QScalar p i (sm_id m) (sm_arg1 m) (sm_arg2 m) (sm_arg3 m) (sm_arg4 m))"
| "queued_of p t i (BlockingScalar m) orig =
    Ok (QBlockingScalar p (of_nat t) i (sm_id m) (sm_arg1 m) (sm_arg2 m) (sm_arg3 m) (sm_arg4 m))"
| "queued_of p t i (Move m) orig =
    obind (ok_or (nz_new (as_ptr (mm_buf m))) BadAddress) (\<lambda>sa.
    obind (ok_or (nz_new (memory_range_len (mm_buf m))) InvalidArguments) (\<lambda>bs.
    Ok (QSend p i (mm_id m) sa bs (opt_get (mm_offset m)) (opt_get (mm_valid m)))))"
| "queued_of p t i (MutableBorrow m) orig =
    obind (ok_or orig InvalidArguments) (\<lambda>ca.
    obind (ok_or (nz_new (as_ptr (mm_buf m))) BadAddress) (\<lambda>sa.
    obind (ok_or (nz_new (memory_range_len (mm_buf m))) InvalidArguments) (\<lambda>bs.
    Ok (QRWLend p (of_nat t) i (mm_id m) ca sa bs (opt_get (mm_offset m)) (opt_get (mm_valid m))))))"
| "queued_of p t i (Borrow m) orig =
    obind (ok_or orig InvalidArguments) (\<lambda>ca.
    obind (ok_or (nz_new (as_ptr (mm_buf m))) BadAddress) (\<lambda>sa.
    obind (ok_or (nz_new (memory_range_len (mm_buf m))) InvalidArguments) (\<lambda>bs.
    Ok (QROLend p (of_nat t) i (mm_id m) ca sa bs (opt_get (mm_offset m)) (opt_get (mm_valid m))))))"

text \<open>
  \<open>empty_count -= 1\<close> overflows (a panic of the checked build) at 0; the assertion on
  the generations comes after the slot and the counters are written.
\<close>

definition queue_message ::
  "server \<Rightarrow> pid \<Rightarrow> nat \<Rightarrow> message \<Rightarrow> memory_address option \<Rightarrow> nat kresult \<times> server" where
  "queue_message s p t msg orig =
    (case find_empty_slot s of
       (Ok qi, s1) \<Rightarrow>
         (case queued_of p t (tail_generation s1) msg orig of
            Ok q \<Rightarrow>
              (let s2 = s1\<lparr>queue := (queue s1)[qi := q]\<rparr> in
               if empty_count s2 = 0 then (Panic, s2)
               else
                 let s3 = s2\<lparr>empty_count := empty_count s2 - 1,
                             tail_generation := tail_generation s2 + 1\<rparr>
                 in if tail_generation s3 = head_generation s3 then (Panic, s3) else (Ok qi, s3))
          | Err e \<Rightarrow> (Err e, s1)
          | Panic \<Rightarrow> (Panic, s1))
     | (Err e, s1) \<Rightarrow> (Err e, s1)
     | (Panic, s1) \<Rightarrow> (Panic, s1))"

fun response_of ::
  "pid \<Rightarrow> nat \<Rightarrow> message \<Rightarrow> memory_address option \<Rightarrow> queued_message kresult" where
  "response_of p t (Scalar _) client = Ok (WaitingReturnScalar p (of_nat t))"
| "response_of p t (BlockingScalar _) client = Ok (WaitingReturnScalar p (of_nat t))"
| "response_of p t (Move m) client =
    obind (ok_or (nz_new (as_ptr (mm_buf m))) BadAddress) (\<lambda>sa.
    obind (ok_or (nz_new (memory_range_len (mm_buf m))) InvalidArguments) (\<lambda>bs.
    Ok (WaitingForget sa bs)))"
| "response_of p t (MutableBorrow m) client =
    obind (ok_or client InvalidArguments) (\<lambda>ca.
    obind (ok_or (nz_new (as_ptr (mm_buf m))) BadAddress) (\<lambda>sa.
    obind (ok_or (nz_new (memory_range_len (mm_buf m))) InvalidArguments) (\<lambda>bs.
    Ok (WaitingReturnMemory p (of_nat t) sa ca bs))))"
| "response_of p t (Borrow m) client =
    obind (ok_or client InvalidArguments) (\<lambda>ca.
    obind (ok_or (nz_new (as_ptr (mm_buf m))) BadAddress) (\<lambda>sa.
    obind (ok_or (nz_new (memory_range_len (mm_buf m))) InvalidArguments) (\<lambda>bs.
    Ok (WaitingReturnMemory p (of_nat t) sa ca bs))))"

definition queue_response ::
  "server \<Rightarrow> pid \<Rightarrow> nat \<Rightarrow> message \<Rightarrow> memory_address option \<Rightarrow> nat kresult \<times> server" where
  "queue_response s p t msg client =
    (case find_empty_slot s of
       (Ok qi, s1) \<Rightarrow>
         (case response_of p t msg client of
            Ok q \<Rightarrow>
              (let s2 = s1\<lparr>queue := (queue s1)[qi := q]\<rparr> in
               if empty_count s2 = 0 then (Panic, s2)
               else (Ok qi, s2\<lparr>empty_count := empty_count s2 - 1\<rparr>))
          | Err e \<Rightarrow> (Err e, s1)
          | Panic \<Rightarrow> (Panic, s1))
     | (Err e, s1) \<Rightarrow> (Err e, s1)
     | (Panic, s1) \<Rightarrow> (Panic, s1))"

section \<open>Parked threads\<close>

partial_function (option) thread_loop ::
  "usize \<Rightarrow> usize \<Rightarrow> nat \<Rightarrow> (nat kresult \<times> usize) option" where
  [code]: "thread_loop ready m n =
    (if ready AND m = m then Some (Ok n, ready AND NOT m)
     else
       let m' = word_rotl 1 m in
       if m' = 1 then Some (Panic, ready) else thread_loop ready m' (n + 1))"

text \<open>The outer option is the loop's own: \<open>None\<close> would be a loop that never ends.\<close>

definition take_available_thread :: "server \<Rightarrow> (nat option kresult \<times> server) option" where
  "take_available_thread s =
    (if ready_threads s = 0 then Some (Ok None, s)
     else (case thread_loop (ready_threads s) 1 0 of
        None \<Rightarrow> None
      | Some (Ok n, r) \<Rightarrow> Some (Ok (Some n), s\<lparr>ready_threads := r\<rparr>)
      | Some (Err e, r) \<Rightarrow> Some (Err e, s)
      | Some (Panic, r) \<Rightarrow> Some (Panic, s)))"

text \<open>\<open>1 << tid\<close> overflows (a panic) for a thread id of 64 or more.\<close>

definition return_available_thread :: "server \<Rightarrow> nat \<Rightarrow> unit kresult \<times> server" where
  "return_available_thread s t =
    (if t \<ge> 64 \<or> ready_threads s AND push_bit t 1 \<noteq> 0 then (Panic, s)
     else (Ok (), s\<lparr>ready_threads := ready_threads s OR push_bit t 1\<rparr>))"

definition server_park_thread :: "server \<Rightarrow> nat \<Rightarrow> unit kresult \<times> server" where
  "server_park_thread s t =
    (if t \<ge> 64 \<or> ready_threads s AND push_bit t 1 \<noteq> 0 then (Panic, s)
     else (Ok (), s\<lparr>ready_threads := ready_threads s OR push_bit t 1\<rparr>))"

section \<open>The undelivered messages\<close>

fun pending_gen :: "queued_message \<Rightarrow> u8 option" where
  "pending_gen (QROLend _ _ i _ _ _ _ _ _) = Some i"
| "pending_gen (QRWLend _ _ i _ _ _ _ _ _) = Some i"
| "pending_gen (QROLendTerminated i _ _ _ _ _) = Some i"
| "pending_gen (QRWLendTerminated i _ _ _ _ _) = Some i"
| "pending_gen (QBlockingScalar _ _ i _ _ _ _ _) = Some i"
| "pending_gen (QSend _ i _ _ _ _ _) = Some i"
| "pending_gen (QScalar _ i _ _ _ _ _) = Some i"
| "pending_gen (QBlockingScalarTerminated i _ _ _ _ _) = Some i"
| "pending_gen _ = None"

text \<open>The sender and the body a slot holds for its server.\<close>

fun pending_view :: "queued_message \<Rightarrow> (pid \<times> message) option" where
  "pending_view (QROLend p _ _ mid _ sa bs off val) = Some (p, Borrow (memory_body mid sa bs off val))"
| "pending_view (QRWLend p _ _ mid _ sa bs off val) =
     Some (p, MutableBorrow (memory_body mid sa bs off val))"
| "pending_view (QROLendTerminated _ mid sa bs off val) =
     Some (nz_lit 255, Borrow (memory_body mid sa bs off val))"
| "pending_view (QRWLendTerminated _ mid sa bs off val) =
     Some (nz_lit 255, MutableBorrow (memory_body mid sa bs off val))"
| "pending_view (QBlockingScalar p _ _ mid a1 a2 a3 a4) =
     Some (p, BlockingScalar (scalar_body mid a1 a2 a3 a4))"
| "pending_view (QSend p _ mid sa bs off val) = Some (p, Move (memory_body mid sa bs off val))"
| "pending_view (QScalar p _ mid a1 a2 a3 a4) = Some (p, Scalar (scalar_body mid a1 a2 a3 a4))"
| "pending_view (QBlockingScalarTerminated _ mid a1 a2 a3 a4) =
     Some (nz_lit 255, BlockingScalar (scalar_body mid a1 a2 a3 a4))"
| "pending_view _ = None"

definition pending_at :: "queued_message list \<Rightarrow> u8 \<Rightarrow> (pid \<times> message) option" where
  "pending_at qs g =
    (case find (\<lambda>q. pending_gen q = Some g) qs of None \<Rightarrow> None | Some q \<Rightarrow> pending_view q)"

definition gens_from :: "u8 \<Rightarrow> nat \<Rightarrow> u8 list" where
  "gens_from g n = map (\<lambda>i. g + of_nat i) [0 ..< n]"

definition pending_count :: "server \<Rightarrow> nat" where
  "pending_count s = unat (tail_generation s - head_generation s)"

definition server_pending :: "server \<Rightarrow> (pid \<times> message) list" where
  "server_pending s =
    List.map_filter (pending_at (queue s)) (gens_from (head_generation s) (pending_count s))"

definition gens_ok :: "queued_message list \<Rightarrow> u8 \<Rightarrow> nat \<Rightarrow> bool" where
  "gens_ok qs h k \<longleftrightarrow>
    (\<forall>i<length qs. \<forall>g. pending_gen (qs ! i) = Some g \<longrightarrow> unat (g - h) < k) \<and>
    (\<forall>j<k. \<exists>i<length qs. pending_gen (qs ! i) = Some (h + of_nat j)) \<and>
    (\<forall>i<length qs. \<forall>j<length qs.
       pending_gen (qs ! i) \<noteq> None \<longrightarrow> pending_gen (qs ! i) = pending_gen (qs ! j) \<longrightarrow> i = j)"

definition server_inv :: "server \<Rightarrow> bool" where
  "server_inv s \<longleftrightarrow>
    queue_head s < length (queue s) \<and> queue_tail s < length (queue s) \<and>
    empty_count s = count_list (queue s) Empty \<and>
    gens_ok (queue s) (head_generation s) (pending_count s)"

section \<open>Lemmas on generations\<close>

lemma pending_gen_view: "pending_gen q = None \<longleftrightarrow> pending_view q = None"
  by (cases q) simp_all

lemma take_arm_pending:
  "take_arm g sidx qi q = Some (env, r) \<longleftrightarrow>
     pending_gen q = Some g \<and>
     (\<exists>p. pending_view q = Some (p, env_body env) \<and> env_sender env = sender_of sidx qi (Some p)) \<and>
     take_arm g sidx qi q = Some (env, r)"
  by (cases q) (auto simp: nz_new_lit)

lemma take_arm_None: "take_arm g sidx qi q = None \<longleftrightarrow> pending_gen q \<noteq> Some g"
  by (cases q) auto

lemma take_arm_token: "take_arm g sidx qi q = Some (env, r) \<Longrightarrow> pending_gen r = None"
  by (cases q) (auto split: if_splits)

lemma unat_add_lt_256: "k < 256 \<Longrightarrow> unat (of_nat k :: u8) = k"
  by (simp add: unat_of_nat take_bit_nat_eq_self)

lemma gen_in_window: "unat (g - h) < k \<longleftrightarrow> (\<exists>j<k. j < 256 \<and> g = h + (of_nat j :: u8))"
proof
  assume "unat (g - h) < k"
  then show "\<exists>j<k. j < 256 \<and> g = h + of_nat j"
    using unat_bound [of "g - h"] by (intro exI [of _ "unat (g - h)"]) simp
next
  assume "\<exists>j<k. j < 256 \<and> g = h + of_nat j"
  then show "unat (g - h) < k" by (auto simp: unat_add_lt_256)
qed

lemma gens_from_Suc: "gens_from g (Suc n) = gens_from g n @ [g + of_nat n]"
  by (simp add: gens_from_def)

lemma gens_from_Cons: "gens_from g (Suc n) = g # gens_from (g + 1) n"
  by (simp add: gens_from_def upt_conv_Cons map_Suc_upt [symmetric] add.assoc del: upt_Suc)

lemma set_gens_from: "set (gens_from g n) = {h. \<exists>i<n. h = g + of_nat i}"
  by (auto simp: gens_from_def)

lemma map_filter_append: "List.map_filter f (xs @ ys) = List.map_filter f xs @ List.map_filter f ys"
  by (simp add: List.map_filter_def)

lemma map_filter_cong: "(\<And>x. x \<in> set xs \<Longrightarrow> f x = g x) \<Longrightarrow> List.map_filter f xs = List.map_filter g xs"
  by (induction xs) (auto simp: List.map_filter_simps split: option.split)

lemma pending_at_update:
  "pending_gen (qs ! i) \<noteq> Some g \<Longrightarrow> pending_gen q \<noteq> Some g \<Longrightarrow>
     pending_at (qs[i := q]) g = pending_at qs g"
  by (simp add: pending_at_def find_cong_update)

lemma pending_count_le: "pending_count s < 256"
  using unat_bound [of "tail_generation s - head_generation s"] by (simp add: pending_count_def)

lemma pending_count_0: "pending_count s = 0 \<longleftrightarrow> tail_generation s = head_generation s"
  by (simp add: pending_count_def unat_eq_0)

lemma tail_gen_eq: "tail_generation s = head_generation s + of_nat (pending_count s)"
  by (simp add: pending_count_def)

lemma gens_ok_slot:
  "gens_ok qs h k \<Longrightarrow> j < k \<Longrightarrow> \<exists>i<length qs. pending_gen (qs ! i) = Some (h + of_nat j)"
  unfolding gens_ok_def by blast

lemma gens_ok_unique:
  "gens_ok qs h k \<Longrightarrow> i < length qs \<Longrightarrow> j < length qs \<Longrightarrow>
     pending_gen (qs ! i) = Some g \<Longrightarrow> pending_gen (qs ! j) = Some g \<Longrightarrow> i = j"
  unfolding gens_ok_def by (metis option.distinct(1))

lemma pending_at_eq:
  assumes "gens_ok qs h k" "i < length qs" "pending_gen (qs ! i) = Some g"
  shows "pending_at qs g = pending_view (qs ! i)"
proof -
  have "find (\<lambda>q. pending_gen q = Some g) qs = Some (qs ! i)"
    using assms gens_ok_unique [OF assms(1)] by (intro find_unique) auto
  then show ?thesis by (simp add: pending_at_def)
qed

lemma gens_ok_fresh:
  assumes "gens_ok qs h k" "k < 256" "i < length qs"
  shows "pending_gen (qs ! i) \<noteq> Some (h + of_nat k)"
  using assms unfolding gens_ok_def by (fastforce simp: unat_add_lt_256)

lemma gens_ok_enqueue:
  assumes "gens_ok qs h k" "k < 255" "qi < length qs" "pending_gen (qs ! qi) = None"
    "pending_gen q = Some (h + of_nat k)"
  shows "gens_ok (qs[qi := q]) h (Suc k)"
proof -
  have "unat (g - h) < Suc k" if "i < length qs" "pending_gen (qs[qi := q] ! i) = Some g" for i g
  proof (cases "i = qi")
    case True
    then have "g = h + of_nat k" using that assms by simp
    then show ?thesis using assms(2) by (simp add: unat_add_lt_256)
  next
    case False
    then show ?thesis using that assms(1) unfolding gens_ok_def by (simp add: less_SucI)
  qed
  moreover have "\<exists>i<length qs. pending_gen (qs[qi := q] ! i) = Some (h + of_nat j)" if jk: "j < Suc k" for j
  proof (cases "j = k")
    case True
    then show ?thesis using assms by (intro exI [of _ qi]) simp
  next
    case False
    then obtain i where "i < length qs" "pending_gen (qs ! i) = Some (h + of_nat j)"
      using gens_ok_slot [OF assms(1), of j] jk by auto
    moreover from this have "i \<noteq> qi" using assms(4) by auto
    ultimately show ?thesis by (intro exI [of _ i]) simp
  qed
  moreover have "i = j" if "i < length qs" "j < length qs" "pending_gen (qs[qi := q] ! i) = Some g"
    "pending_gen (qs[qi := q] ! j) = Some g" for i j g
    using that assms gens_ok_fresh [OF assms(1)] gens_ok_unique [OF assms(1)]
    by (cases "i = qi"; cases "j = qi") auto
  ultimately show ?thesis unfolding gens_ok_def by auto
qed

lemma gens_ok_dequeue:
  assumes "gens_ok qs h (Suc k)" "k < 255" "qi < length qs" "pending_gen (qs ! qi) = Some h"
    "pending_gen q = None"
  shows "gens_ok (qs[qi := q]) (h + 1) k"
proof -
  have "unat (g - (h + 1)) < k" if "i < length qs" "pending_gen (qs[qi := q] ! i) = Some g" for i g
  proof -
    have "i \<noteq> qi" using that assms by auto
    then have g: "pending_gen (qs ! i) = Some g" using that by simp
    then have "unat (g - h) < Suc k" using that assms(1) unfolding gens_ok_def by blast
    then obtain j where j: "j < Suc k" "j < 256" "g = h + of_nat j" by (auto simp: gen_in_window)
    moreover have "j \<noteq> 0"
    proof
      assume "j = 0"
      then show False
        using gens_ok_unique [OF assms(1) that(1) assms(3) g] assms(4) j \<open>i \<noteq> qi\<close> by simp
    qed
    then obtain m where "j = Suc m" by (cases j) auto
    ultimately show ?thesis by (auto simp: unat_add_lt_256)
  qed
  moreover have "\<exists>i<length qs. pending_gen (qs[qi := q] ! i) = Some (h + 1 + of_nat j)" if jk: "j < k" for j
  proof -
    obtain i where i: "i < length qs" "pending_gen (qs ! i) = Some (h + of_nat (Suc j))"
      using gens_ok_slot [OF assms(1), of "Suc j"] jk by auto
    have "(of_nat (Suc j) :: u8) \<noteq> 0"
      using that assms(2) unat_add_lt_256 [of "Suc j"] by (auto simp del: of_nat_Suc)
    then have "i \<noteq> qi" using i assms(4) by auto
    then show ?thesis using i by (intro exI [of _ i]) (simp add: add.assoc)
  qed
  moreover have "i = j" if "i < length qs" "j < length qs" "pending_gen (qs[qi := q] ! i) = Some g"
    "pending_gen (qs[qi := q] ! j) = Some g" for i j g
    using that assms gens_ok_unique [OF assms(1)] by (cases "i = qi"; cases "j = qi") auto
  ultimately show ?thesis unfolding gens_ok_def by auto
qed

lemma gens_ok_neutral:
  assumes "gens_ok qs h k" "length qs' = length qs"
    "\<And>i. i < length qs \<Longrightarrow> pending_gen (qs' ! i) = pending_gen (qs ! i)"
  shows "gens_ok qs' h k"
  using assms(1) unfolding gens_ok_def by (simp add: assms(2,3) cong: conj_cong) blast

lemma queued_of_Ok:
  assumes "queued_of p t i msg orig = Ok q"
  shows "pending_gen q = Some i" "pending_view q = Some (p, msg)" "q \<noteq> Empty"
  using assms
  by (cases msg; auto simp: outcome_simps memory_body_def scalar_body_def as_ptr_def
      memory_range_len_def ok_or_def split: option.splits)+

lemma response_of_Ok:
  assumes "response_of p t msg client = Ok q"
  shows "pending_gen q = None" "q \<noteq> Empty"
  using assms by (cases msg; auto simp: outcome_simps)+

lemma next_slot_less: "i < length (queue s) \<Longrightarrow> next_slot s i < length (queue s)"
  by (auto simp: next_slot_def)

lemma find_empty_slot_cases:
  assumes "server_inv s"
  obtains (full) "empty_count s = 0" "find_empty_slot s = (Err ServerQueueFull, s)"
  | (found) qi where "qi < length (queue s)" "queue s ! qi = Empty" "empty_count s \<noteq> 0"
      "find_empty_slot s = (Ok qi, s\<lparr>queue_head := next_slot s qi\<rparr>)"
proof -
  let ?order = "[queue_head s ..< length (queue s)] @ [0 ..< queue_head s]"
  let ?P = "\<lambda>qi. qi \<ge> length (queue s) \<or> queue s ! qi = Empty"
  have head: "queue_head s < length (queue s)" and cnt: "empty_count s = count_list (queue s) Empty"
    using assms by (auto simp: server_inv_def)
  have dom: "set ?order = {..<length (queue s)}" using head by auto
  show thesis
  proof (cases "find ?P ?order")
    case None
    then have "Empty \<notin> set (queue s)"
      using dom by (auto simp: find_None_iff in_set_conv_nth)
    then show thesis
      using None cnt by (intro full) (simp_all add: find_empty_slot_def count_list_0_iff)
  next
    case (Some qi)
    then have "qi \<in> set ?order" "?P qi"
      using find_SomeD [of ?P ?order qi] by blast+
    moreover from this have "qi < length (queue s)" unfolding dom by simp
    ultimately have qi: "qi < length (queue s)" "queue s ! qi = Empty" by simp_all
    then have "Empty \<in> set (queue s)" by (metis nth_mem)
    then show thesis
      using Some qi cnt by (intro found [of qi]) (simp_all add: find_empty_slot_def count_list_0_iff)
  qed
qed

lemma pending_neutral:
  assumes "length qs' = length qs"
    "\<And>i. i < length qs \<Longrightarrow> pending_gen (qs' ! i) = pending_gen (qs ! i)"
    "\<And>i. i < length qs \<Longrightarrow> pending_view (qs' ! i) = pending_view (qs ! i)"
    "gens_ok qs h k"
  shows "List.map_filter (pending_at qs') (gens_from h k) = List.map_filter (pending_at qs) (gens_from h k)"
proof (rule map_filter_cong)
  fix g assume "g \<in> set (gens_from h k)"
  then obtain i where i: "i < length qs" "pending_gen (qs ! i) = Some g"
    using gens_ok_slot [OF assms(4)] by (auto simp: set_gens_from)
  have "gens_ok qs' h k" using gens_ok_neutral assms by blast
  then show "pending_at qs' g = pending_at qs g"
    using pending_at_eq [of qs' h k i g] pending_at_eq [OF assms(4) i] assms i by simp
qed

lemma queue_message_Ok:
  assumes "server_inv s" "queue_message s p t msg orig = (Ok qi, s')"
  shows "server_inv s'" "server_pending s' = server_pending s @ [(p, msg)]"
    "pending_count s' = Suc (pending_count s)"
proof -
  let ?k = "pending_count s" and ?h = "head_generation s"
  have ok: "gens_ok (queue s) ?h ?k" and cnt: "empty_count s = count_list (queue s) Empty"
    and tl: "queue_tail s < length (queue s)"
    using assms(1) by (auto simp: server_inv_def)
  from assms(1) obtain q where q: "queued_of p t (tail_generation s) msg orig = Ok q"
    and qi: "qi < length (queue s)" "queue s ! qi = Empty"
    and ne: "tail_generation s + 1 \<noteq> ?h" and e: "empty_count s \<noteq> 0"
    and s': "s' = s\<lparr>queue_head := next_slot s qi, queue := (queue s)[qi := q],
                empty_count := empty_count s - 1, tail_generation := tail_generation s + 1\<rparr>"
  proof (cases rule: find_empty_slot_cases)
    case full
    then show ?thesis using assms(2) by (simp add: queue_message_def)
  next
    case (found j)
    then show ?thesis
      using assms(2) that
      by (auto simp: queue_message_def Let_def split: outcome.splits if_splits)
  qed
  note gq = queued_of_Ok [OF q]
  have gt: "tail_generation s = ?h + of_nat ?k" by (rule tail_gen_eq)
  have k: "?k < 255"
  proof (rule ccontr)
    assume "\<not> ?k < 255"
    then have "?k = 255" using pending_count_le [of s] by simp
    then show False using ne gt by simp
  qed
  have k': "pending_count s' = Suc ?k"
  proof -
    have "tail_generation s' - head_generation s' = of_nat (Suc ?k)"
      by (simp add: s' gt)
    then show ?thesis using k by (simp add: pending_count_def unat_add_lt_256 del: of_nat_Suc)
  qed
  have ok': "gens_ok (queue s') ?h (Suc ?k)"
    using gens_ok_enqueue [OF ok k qi(1)] qi gq gt by (simp add: s')
  have "count_list ((queue s)[qi := q]) Empty + 1 = count_list (queue s) Empty"
    using count_list_update [of qi "queue s" q Empty] qi gq by simp
  then show "server_inv s'"
    using ok' k' cnt tl qi e next_slot_less by (auto simp: server_inv_def s')
  have old: "pending_at (queue s') g = pending_at (queue s) g" if g: "g \<in> set (gens_from ?h ?k)" for g
  proof -
    obtain j where j: "j < ?k" "g = ?h + of_nat j" using g by (auto simp: set_gens_from)
    then have "(of_nat j :: u8) \<noteq> of_nat ?k"
      using k unat_add_lt_256 [of j] unat_add_lt_256 [of ?k] by auto
    then have "g \<noteq> tail_generation s" unfolding gt j(2) by simp
    then show ?thesis using pending_at_update [of "queue s" qi g q] qi gq by (simp add: s')
  qed
  have new: "pending_at (queue s') (?h + of_nat ?k) = Some (p, msg)"
    using pending_at_eq [OF ok', of qi "tail_generation s"] qi gq unfolding gt [symmetric]
    by (simp add: s')
  have hd: "head_generation s' = ?h" by (simp add: s')
  have "List.map_filter (pending_at (queue s')) (gens_from ?h ?k) =
      List.map_filter (pending_at (queue s)) (gens_from ?h ?k)"
    by (rule map_filter_cong) (rule old)
  then show "server_pending s' = server_pending s @ [(p, msg)]"
    unfolding server_pending_def k' hd gens_from_Suc map_filter_append
    by (simp add: List.map_filter_simps new)
  show "pending_count s' = Suc (pending_count s)" by (rule k')
qed

lemma take_loop_Some:
  "take_loop s sidx qi = Ok (Some (j, env, r)) \<Longrightarrow>
     j < length (queue s) \<and> take_arm (head_generation s) sidx j (queue s ! j) = Some (env, r)"
proof (induction s sidx qi rule: take_loop.induct)
  case (1 s sidx qi)
  show ?case
    using "1.prems" "1.IH" unfolding take_loop.simps [of s sidx qi]
    by (auto split: if_splits option.splits)
qed

lemma take_loop_total:
  "qi < length (queue s) \<Longrightarrow> queue_tail s < length (queue s) \<Longrightarrow> \<exists>r. take_loop s sidx qi = Ok r"
proof (induction s sidx qi rule: take_loop.induct)
  case (1 s sidx qi)
  show ?case
    using "1.prems" "1.IH" next_slot_less
    by (subst take_loop.simps) (auto split: option.split)
qed

lemma take_loop_None:
  "take_loop s sidx qi = Ok None \<Longrightarrow> j < length (queue s) \<Longrightarrow>
     (if qi < queue_tail s then qi \<le> j \<and> j < queue_tail s else qi \<le> j \<or> j < queue_tail s) \<Longrightarrow>
     take_arm (head_generation s) sidx' j' (queue s ! j) = None"
proof (induction s sidx qi rule: take_loop.induct)
  case (1 s sidx qi)
  have bounds: "qi < length (queue s)" "queue_tail s < length (queue s)"
    and arm: "take_arm (head_generation s) sidx qi (queue s ! qi) = None"
    and rest: "next_slot s qi = queue_tail s \<or> take_loop s sidx (next_slot s qi) = Ok None"
    using "1.prems"(1)
    by (subst (asm) take_loop.simps; auto split: if_splits option.splits)+
  show ?case
  proof (cases "j = qi")
    case True
    then show ?thesis using arm by (simp add: take_arm_None)
  next
    case False
    have "next_slot s qi \<noteq> queue_tail s" and "if next_slot s qi < queue_tail s
        then next_slot s qi \<le> j \<and> j < queue_tail s else next_slot s qi \<le> j \<or> j < queue_tail s"
      using "1.prems"(2,3) False bounds by (auto simp: next_slot_def split: if_splits)
    then show ?thesis
      using "1.IH" [OF _ arm] bounds rest "1.prems"(2) by auto
  qed
qed

lemma take_loop_finds:
  assumes "server_inv s" "tail_generation s \<noteq> head_generation s"
  obtains qi env r where "take_loop s sidx (queue_tail s) = Ok (Some (qi, env, r))"
    "qi < length (queue s)" "take_arm (head_generation s) sidx qi (queue s ! qi) = Some (env, r)"
proof -
  let ?h = "head_generation s"
  have ok: "gens_ok (queue s) ?h (pending_count s)" and tl: "queue_tail s < length (queue s)"
    using assms(1) by (auto simp: server_inv_def)
  obtain i where i: "i < length (queue s)" "pending_gen (queue s ! i) = Some ?h"
    using gens_ok_slot [OF ok, of 0] assms(2) pending_count_0 [of s] by auto
  obtain res where res: "take_loop s sidx (queue_tail s) = Ok res" using take_loop_total tl by blast
  have "res \<noteq> None"
  proof
    assume "res = None"
    then have "take_arm ?h sidx i (queue s ! i) = None"
      using take_loop_None [of s sidx "queue_tail s" i sidx i] res i
        le_less_linear [of "queue_tail s" i] by auto
    then show False using i by (simp add: take_arm_None)
  qed
  then obtain qi env r where loop: "take_loop s sidx (queue_tail s) = Ok (Some (qi, env, r))"
    using res by fastforce
  then show thesis using that take_loop_Some [OF loop] by blast
qed

text \<open>The state \<open>take_next_message\<close> leaves behind when it delivers slot \<open>qi\<close>.\<close>

definition dequeued :: "server \<Rightarrow> nat \<Rightarrow> queued_message \<Rightarrow> server" where
  "dequeued s qi r =
    s\<lparr>queue_tail := next_slot s qi,
      empty_count := (if r = Empty then empty_count s + 1 else empty_count s),
      queue := (queue s)[qi := r], head_generation := head_generation s + 1\<rparr>"

lemma pending_count_dequeued:
  assumes "pending_count s = Suc k"
  shows "pending_count (dequeued s qi r) = k"
proof -
  have "k < 255" using assms pending_count_le [of s] by simp
  moreover have "tail_generation (dequeued s qi r) - head_generation (dequeued s qi r) = of_nat k"
    using tail_gen_eq [of s] by (simp add: dequeued_def assms)
  ultimately show ?thesis by (simp add: pending_count_def unat_add_lt_256)
qed

lemma dequeued_inv:
  assumes "server_inv s" "tail_generation s \<noteq> head_generation s" "qi < length (queue s)"
    "pending_gen (queue s ! qi) = Some (head_generation s)" "pending_gen r = None"
  shows "server_inv (dequeued s qi r)"
proof -
  obtain k where k: "pending_count s = Suc k"
    using assms(2) pending_count_0 [of s] by (cases "pending_count s") auto
  then have "k < 255" using pending_count_le [of s] by simp
  then have "gens_ok (queue (dequeued s qi r)) (head_generation s + 1) k"
    using gens_ok_dequeue [of "queue s" "head_generation s" k qi r] assms k
    by (simp add: dequeued_def server_inv_def)
  moreover have "queue s ! qi \<noteq> Empty" using assms(4) by auto
  then have "count_list ((queue s)[qi := r]) Empty =
      count_list (queue s) Empty + (if r = Empty then 1 else 0)"
    using count_list_update [of qi "queue s" r Empty] assms(3) by simp
  ultimately show ?thesis
    using pending_count_dequeued [OF k, of qi r] assms(1,3) next_slot_less
    by (auto simp: server_inv_def dequeued_def)
qed

lemma dequeued_pending:
  assumes "server_inv s" "tail_generation s \<noteq> head_generation s" "qi < length (queue s)"
    "pending_gen (queue s ! qi) = Some (head_generation s)" "pending_gen r = None"
    "pending_view (queue s ! qi) = Some x"
  shows "server_pending s = x # server_pending (dequeued s qi r)"
proof -
  let ?h = "head_generation s" and ?s' = "dequeued s qi r"
  obtain k where k: "pending_count s = Suc k"
    using assms(2) pending_count_0 [of s] by (cases "pending_count s") auto
  then have k255: "k < 255" using pending_count_le [of s] by simp
  have old: "pending_at (queue ?s') g = pending_at (queue s) g"
    if g: "g \<in> set (gens_from (?h + 1) k)" for g
  proof -
    obtain j where j: "j < k" "g = ?h + 1 + of_nat j" using g by (auto simp: set_gens_from)
    have "(of_nat (Suc j) :: u8) \<noteq> 0"
      using j k255 unat_add_lt_256 [of "Suc j"] by (auto simp del: of_nat_Suc)
    then have "g \<noteq> ?h" unfolding j(2) by (simp add: add.assoc)
    then show ?thesis
      using pending_at_update [of "queue s" qi g r] assms(3-5) by (simp add: dequeued_def)
  qed
  have "List.map_filter (pending_at (queue ?s')) (gens_from (?h + 1) k) =
      List.map_filter (pending_at (queue s)) (gens_from (?h + 1) k)"
    by (rule map_filter_cong) (rule old)
  moreover have "pending_at (queue s) ?h = Some x"
    using pending_at_eq [OF _ assms(3,4)] assms(1,6) by (auto simp: server_inv_def)
  moreover have "head_generation ?s' = ?h + 1" by (simp add: dequeued_def)
  ultimately show ?thesis
    unfolding server_pending_def k pending_count_dequeued [OF k] gens_from_Cons
    by (simp add: List.map_filter_simps)
qed

lemma take_next_message_cases:
  assumes "server_inv s"
  obtains (empty) "server_pending s = []" "take_next_message s sidx = (Ok None, s)"
  | (deliver) qi env r p where
      "take_next_message s sidx = (Ok (Some env), dequeued s qi r)"
      "qi < length (queue s)" "take_arm (head_generation s) sidx qi (queue s ! qi) = Some (env, r)"
      "server_inv (dequeued s qi r)" "env_sender env = sender_of sidx qi (Some p)"
      "server_pending s = (p, env_body env) # server_pending (dequeued s qi r)"
proof (cases "tail_generation s = head_generation s")
  case True
  then have "pending_count s = 0" by (simp add: pending_count_0)
  then have "server_pending s = []"
    by (simp add: server_pending_def gens_from_def List.map_filter_simps)
  then show thesis using True by (intro empty) (simp_all add: take_next_message_def)
next
  case False
  with assms obtain qi env r where loop: "take_loop s sidx (queue_tail s) = Ok (Some (qi, env, r))"
    and qi: "qi < length (queue s)"
    and arm: "take_arm (head_generation s) sidx qi (queue s ! qi) = Some (env, r)"
    by (rule take_loop_finds)
  then obtain p where view: "pending_gen (queue s ! qi) = Some (head_generation s)"
      "pending_view (queue s ! qi) = Some (p, env_body env)"
    and sender: "env_sender env = sender_of sidx qi (Some p)"
    using take_arm_pending by blast
  have tok: "pending_gen r = None" using take_arm_token [OF arm] .
  show thesis
    using False loop qi arm sender dequeued_inv [OF assms False qi view(1) tok]
      dequeued_pending [OF assms False qi view(1) tok view(2)]
    by (intro deliver [of env qi r p]) (simp_all add: take_next_message_def dequeued_def)
qed

lemma server_neutral:
  assumes "server_inv s" "length (queue s') = length (queue s)"
    "\<And>i. i < length (queue s) \<Longrightarrow> pending_gen (queue s' ! i) = pending_gen (queue s ! i)"
    "head_generation s' = head_generation s" "tail_generation s' = tail_generation s"
    "queue_head s' < length (queue s)" "queue_tail s' < length (queue s)"
    "empty_count s' = count_list (queue s') Empty"
  shows "server_inv s'"
    and "(\<And>i. i < length (queue s) \<Longrightarrow> pending_view (queue s' ! i) = pending_view (queue s ! i)) \<Longrightarrow>
      server_pending s' = server_pending s"
proof -
  have k: "pending_count s' = pending_count s" by (simp add: pending_count_def assms)
  have ok: "gens_ok (queue s) (head_generation s) (pending_count s)"
    using assms(1) by (simp add: server_inv_def)
  then have "gens_ok (queue s') (head_generation s) (pending_count s)"
    using gens_ok_neutral assms(2,3) by blast
  then show "server_inv s'" using assms k by (simp add: server_inv_def)
  assume "\<And>i. i < length (queue s) \<Longrightarrow> pending_view (queue s' ! i) = pending_view (queue s ! i)"
  then show "server_pending s' = server_pending s"
    using pending_neutral [OF assms(2,3) _ ok] by (simp add: server_pending_def k assms)
qed

lemma server_replace_slot:
  assumes "server_inv s" "i < length (queue s)" "pending_gen (queue s ! i) = None" "pending_gen q = None"
    "queue s' = (queue s)[i := q]" "head_generation s' = head_generation s"
    "tail_generation s' = tail_generation s"
    "queue_head s' < length (queue s)" "queue_tail s' < length (queue s)"
    "empty_count s' + (if queue s ! i = Empty then 1 else 0) = empty_count s + (if q = Empty then 1 else 0)"
  shows "server_inv s' \<and> server_pending s' = server_pending s"
proof -
  have g: "pending_gen (queue s' ! j) = pending_gen (queue s ! j)" if "j < length (queue s)" for j
    using assms that by (cases "j = i") simp_all
  have v: "pending_view (queue s' ! j) = pending_view (queue s ! j)" if "j < length (queue s)" for j
    using assms that pending_gen_view by (cases "j = i") auto
  have "empty_count s' = count_list (queue s') Empty"
    using count_list_update [of i "queue s" q Empty] assms by (simp add: server_inv_def)
  then show ?thesis
    using server_neutral [of s s', OF assms(1) _ g] v assms by simp
qed

lemma take_waiting_message_inv:
  assumes "server_inv s" "take_waiting_message s i buf = (r, s')"
  shows "server_inv s' \<and> server_pending s' = server_pending s"
proof -
  have "s' = s \<or> i < length (queue s) \<and> pending_gen (queue s ! i) = None \<and> queue s ! i \<noteq> Empty \<and>
      s' = s\<lparr>queue := (queue s)[i := Empty], empty_count := empty_count s + 1,
             queue_tail := next_slot s i\<rparr>"
    using assms(2)
    by (cases "queue s ! i") (auto simp: take_waiting_message_def Let_def split: if_splits)
  then show ?thesis
    using server_replace_slot [of s i Empty s'] assms(1) next_slot_less [of i s]
    by (auto simp: server_inv_def [of s])
qed

lemma find_empty_slot_head:
  assumes "server_inv s" "qi < length (queue s)"
  shows "server_inv (s\<lparr>queue_head := next_slot s qi\<rparr>)"
    "server_pending (s\<lparr>queue_head := next_slot s qi\<rparr>) = server_pending s"
  using server_neutral [of s "s\<lparr>queue_head := next_slot s qi\<rparr>"] assms next_slot_less
  by (auto simp: server_inv_def [of s])

lemma queued_of_no_panic: "queued_of p t i msg orig \<noteq> Panic" "response_of p t msg client \<noteq> Panic"
  by (cases msg; auto simp: obind_def ok_or_def split: option.splits)+

lemma queue_response_inv:
  assumes "server_inv s" "queue_response s p t msg client = (r, s')"
  shows "r \<noteq> Panic \<and> server_inv s' \<and> server_pending s' = server_pending s"
  using assms(1)
proof (cases rule: find_empty_slot_cases)
  case full
  then show ?thesis using assms by (auto simp: queue_response_def)
next
  case (found qi)
  show ?thesis
  proof (cases "response_of p t msg client")
    case (Ok q)
    then have q: "pending_gen q = None" "q \<noteq> Empty" using response_of_Ok by blast+
    have s': "r = Ok qi" "s' = s\<lparr>queue_head := next_slot s qi, queue := (queue s)[qi := q],
        empty_count := empty_count s - 1\<rparr>"
      using assms(2) found Ok by (auto simp: queue_response_def Let_def)
    then show ?thesis
      using server_replace_slot [of s qi q s'] assms(1) found q next_slot_less [of qi s]
      by (simp add: server_inv_def [of s])
  next
    case (Err e)
    then show ?thesis
      using assms found find_empty_slot_head [of s qi] by (auto simp: queue_response_def)
  qed (simp add: queued_of_no_panic)
qed

lemma tail_reaches_head:
  "tail_generation s + 1 = head_generation s \<longleftrightarrow> pending_count s = 255"
proof -
  have "tail_generation s + 1 = head_generation s \<longleftrightarrow> of_nat (pending_count s) + 1 = (0 :: u8)"
    by (subst tail_gen_eq) (simp add: add.assoc)
  also have "\<dots> \<longleftrightarrow> pending_count s = 255"
  proof
    assume "of_nat (pending_count s) + 1 = (0 :: u8)"
    then have "of_nat (Suc (pending_count s)) = (0 :: u8)" by (simp add: add.commute)
    then have "\<not> Suc (pending_count s) < 256"
      using unat_add_lt_256 [of "Suc (pending_count s)"] by (auto simp del: of_nat_Suc)
    then show "pending_count s = 255" using pending_count_le [of s] by simp
  qed simp
  finally show ?thesis .
qed

lemma queue_message_cases:
  assumes "server_inv s"
  obtains (full) "empty_count s = 0" "queue_message s p t msg orig = (Err ServerQueueFull, s)"
  | (refused) e s' where "empty_count s \<noteq> 0"
      "queued_of p t (tail_generation s) msg orig = Err e" "queue_message s p t msg orig = (Err e, s')"
      "server_inv s'" "server_pending s' = server_pending s"
  | (wrapped) s' where "empty_count s \<noteq> 0" "is_ok (queued_of p t (tail_generation s) msg orig)"
      "pending_count s = 255" "queue_message s p t msg orig = (Panic, s')"
  | (queued) qi s' where "empty_count s \<noteq> 0" "is_ok (queued_of p t (tail_generation s) msg orig)"
      "pending_count s < 255" "queue_message s p t msg orig = (Ok qi, s')"
      "server_inv s'" "server_pending s' = server_pending s @ [(p, msg)]"
  using assms
proof (cases rule: find_empty_slot_cases)
  case full
  then show thesis using that(1) by (simp add: queue_message_def)
next
  case (found qi)
  show thesis
  proof (cases "queued_of p t (tail_generation s) msg orig")
    case (Ok q)
    show thesis
    proof (cases "pending_count s = 255")
      case True
      then show thesis
        using that(3) found Ok tail_reaches_head [of s] by (simp add: queue_message_def Let_def)
    next
      case False
      then obtain s' where "queue_message s p t msg orig = (Ok qi, s')"
        using found Ok tail_reaches_head [of s] by (simp add: queue_message_def Let_def)
      then show thesis
        using that(4) queue_message_Ok [OF assms] found Ok False pending_count_le [of s] by simp
    qed
  next
    case (Err e)
    then show thesis
      using that(2) found find_empty_slot_head [OF assms] by (simp add: queue_message_def)
  qed (simp add: queued_of_no_panic)
qed

text \<open>How the death of process \<open>p\<close> shows in a message: a blocked sender becomes 255.\<close>

fun orphan :: "pid \<Rightarrow> pid \<times> message \<Rightarrow> pid \<times> message" where
  "orphan p (q, m) = (if q = p \<and> is_blocking m then (nz_lit 255, m) else (q, m))"

lemma discard_entry_simps [simp]:
  "pending_gen (discard_entry p q) = pending_gen q"
  "discard_entry p q = Empty \<longleftrightarrow> q = Empty"
  "pending_view (discard_entry p q) = map_option (orphan p) (pending_view q)"
  by (cases q; simp)+

lemma count_list_map_Empty: "count_list (map (discard_entry p) qs) Empty = count_list qs Empty"
  by (induction qs) auto

lemma discard_inv: "server_inv s \<Longrightarrow> server_inv (discard_messages_for_pid s p)"
  by (rule server_neutral(1) [of s])
    (auto simp: discard_messages_for_pid_def server_inv_def count_list_map_Empty)

lemma map_filter_map_option:
  "List.map_filter (\<lambda>x. map_option f (g x)) xs = map f (List.map_filter g xs)"
  by (induction xs) (auto simp: List.map_filter_simps split: option.split)

lemma pending_at_discard: "pending_at (map (discard_entry p) qs) g = map_option (orphan p) (pending_at qs g)"
  by (induction qs) (auto simp: pending_at_def)

lemma discard_pending:
  "server_pending (discard_messages_for_pid s p) = map (orphan p) (server_pending s)"
proof -
  have "pending_count (discard_messages_for_pid s p) = pending_count s"
    by (simp add: pending_count_def discard_messages_for_pid_def)
  moreover have "pending_at (map (discard_entry p) (queue s)) =
      (\<lambda>g. map_option (orphan p) (pending_at (queue s) g))"
    by (rule ext) (rule pending_at_discard)
  ultimately show ?thesis
    unfolding server_pending_def by (simp add: discard_messages_for_pid_def map_filter_map_option)
qed

lemma server_init_inv:
  assumes "server_init None p sd base slots perms = (Ok (), Some s)" "slots \<noteq> []"
    "list_all (\<lambda>q. q = Empty) slots"
  shows "server_inv s" "server_pending s = []"
proof -
  have s: "queue s = slots" "queue_head s = 0" "queue_tail s = 0" "empty_count s = length slots"
    "pending_count s = 0"
    using assms(1) by (auto simp: server_init_def pending_count_def
        split: if_splits prod.splits outcome.splits)
  have "count_list slots Empty = length slots" using assms(3) by (induction slots) auto
  moreover have "pending_gen (slots ! i) = None" if "i < length slots" for i
    using assms(3) that by (auto simp: list_all_length)
  ultimately show "server_inv s" using s assms(2) by (simp add: server_inv_def gens_ok_def)
  show "server_pending s = []"
    using s by (simp add: server_pending_def gens_from_def List.map_filter_simps)
qed

section \<open>Reachable queues\<close>

text \<open>
  Everything the kernel does to a server between its creation and its
  destruction; a step whose operation panics halts the kernel and has no
  successor.
\<close>

inductive server_step :: "server \<Rightarrow> server \<Rightarrow> bool" where
  step_queue: "queue_message s p t msg orig = (r, s') \<Longrightarrow> r \<noteq> Panic \<Longrightarrow> server_step s s'"
| step_response: "queue_response s p t msg client = (r, s') \<Longrightarrow> r \<noteq> Panic \<Longrightarrow> server_step s s'"
| step_take: "take_next_message s sidx = (r, s') \<Longrightarrow> r \<noteq> Panic \<Longrightarrow> server_step s s'"
| step_reply: "take_waiting_message s i buf = (r, s') \<Longrightarrow> r \<noteq> Panic \<Longrightarrow> server_step s s'"
| step_discard: "server_step s (discard_messages_for_pid s p)"
| step_park: "server_park_thread s t = (r, s') \<Longrightarrow> r \<noteq> Panic \<Longrightarrow> server_step s s'"
| step_return: "return_available_thread s t = (r, s') \<Longrightarrow> r \<noteq> Panic \<Longrightarrow> server_step s s'"
| step_wake: "take_available_thread s = Some (r, s') \<Longrightarrow> r \<noteq> Panic \<Longrightarrow> server_step s s'"

inductive server_reachable :: "server \<Rightarrow> bool" where
  reach_init: "server_init None p sd base slots perms = (Ok (), Some s) \<Longrightarrow> slots \<noteq> [] \<Longrightarrow>
    list_all (\<lambda>q. q = Empty) slots \<Longrightarrow> server_reachable s"
| reach_step: "server_reachable s \<Longrightarrow> server_step s s' \<Longrightarrow> server_reachable s'"

lemma ready_threads_neutral: "server_inv (s\<lparr>ready_threads := r\<rparr>) \<longleftrightarrow> server_inv s"
  by (simp add: server_inv_def pending_count_def)

lemma thread_ops_frame:
  "server_park_thread s t = (r, s') \<Longrightarrow> s' = s\<lparr>ready_threads := ready_threads s'\<rparr>"
  "return_available_thread s t = (r, s') \<Longrightarrow> s' = s\<lparr>ready_threads := ready_threads s'\<rparr>"
  "take_available_thread s = Some (ro, s') \<Longrightarrow> s' = s\<lparr>ready_threads := ready_threads s'\<rparr>"
  by (auto simp: server_park_thread_def return_available_thread_def take_available_thread_def
      split: if_splits option.splits prod.splits outcome.splits)

lemma server_step_inv:
  assumes "server_step s s'" "server_inv s"
  shows "server_inv s'"
  using assms
proof (cases rule: server_step.cases)
  case (step_queue p t msg orig r)
  from assms(2) show ?thesis
    using step_queue assms(2)
    by (cases rule: queue_message_cases [where p = p and t = t and msg = msg and orig = orig]) auto
next
  case (step_take sidx r)
  from assms(2) show ?thesis
    using step_take assms(2) by (cases rule: take_next_message_cases [where sidx = sidx]) auto
next
  case (step_wake r)
  then show ?thesis using thread_ops_frame(3) ready_threads_neutral assms(2) by metis
next
  case (step_park t r)
  then show ?thesis using thread_ops_frame(1) ready_threads_neutral assms(2) by metis
next
  case (step_return t r)
  then show ?thesis using thread_ops_frame(2) ready_threads_neutral assms(2) by metis
qed (use assms(2) queue_response_inv take_waiting_message_inv discard_inv in blast)+

lemma server_reachable_inv: "server_reachable s \<Longrightarrow> server_inv s"
  by (induction rule: server_reachable.induct) (auto intro: server_init_inv server_step_inv)

section \<open>Sender identifiers\<close>

lemma sender_masks:
  "(0xFF :: usize) = mask 8" "(0xFFFF :: usize) = mask 16" "(0x00FF0000 :: usize) = push_bit 16 (mask 8)"
  by (simp_all add: mask_eq_exp_minus_1 push_bit_eq_mult)

lemma bit_sender_id_to:
  "bit (sender_id_to v) n \<longleftrightarrow>
     n < 16 \<and> bit (snd_idx v) n \<or> 16 \<le> n \<and> n < 24 \<and> bit (snd_sidx v) (n - 16) \<or>
     24 \<le> n \<and> n < 32 \<and> (case snd_pid v of None \<Rightarrow> False | Some p \<Rightarrow> bit (nz_get p) (n - 24))"
  unfolding sender_id_to_def sender_masks
  by (cases "snd_pid v") (auto simp: bit_simps dest: bit_imp_le_length)

lemma high_bits_zero: "(w :: usize) < 2 ^ k \<Longrightarrow> k < 64 \<Longrightarrow> bit w n \<Longrightarrow> n < k"
  by (metis bit_take_bit_iff less_mask_eq take_bit_eq_mask word_2p_lem size_word.rep_eq)


lemma sender_id_from_to:
  assumes "snd_sidx v < 256" "snd_idx v < 65536"
  shows "sender_id_from (sender_id_to v) = v"
proof -
  have lo: "bit (snd_sidx v) n \<Longrightarrow> n < 8" "bit (snd_idx v) n \<Longrightarrow> n < 16" for n
    using high_bits_zero [of "snd_sidx v" 8 n] high_bits_zero [of "snd_idx v" 16 n] assms by simp_all
  have "drop_bit 16 (sender_id_to v) AND mask 8 = snd_sidx v"
    by (rule bit_word_eqI) (auto simp: bit_simps bit_sender_id_to dest: lo)
  moreover have "sender_id_to v AND mask 16 = snd_idx v"
    by (rule bit_word_eqI) (auto simp: bit_simps bit_sender_id_to dest: lo)
  moreover have "(ucast (drop_bit 24 (sender_id_to v)) :: u8) =
      (case snd_pid v of None \<Rightarrow> 0 | Some p \<Rightarrow> nz_get p)"
    by (rule bit_word_eqI) (auto simp: bit_simps bit_sender_id_to split: option.split)
  ultimately show ?thesis
    unfolding sender_id_from_def sender_masks by (cases "snd_pid v") auto
qed

lemma sender_pid_sender_of [simp]: "sender_pid (sender_of sidx qi (Some p)) = Some p"
proof -
  have "(ucast (drop_bit 24 (sender_id_to v) AND mask 8) :: u8) = nz_get p" if "snd_pid v = Some p" for v
    using that by (intro bit_word_eqI) (auto simp: bit_simps bit_sender_id_to)
  then show ?thesis
    by (simp add: sender_pid_def sender_of_def sender_from_usize_def sender_masks)
qed

section \<open>Waking a parked thread\<close>

lemma and_exp_eq_exp_iff: "n < 64 \<Longrightarrow> (w :: usize) AND 2 ^ n = 2 ^ n \<longleftrightarrow> bit w n"
proof
  assume "n < 64" "w AND 2 ^ n = 2 ^ n"
  moreover have "bit (2 ^ n :: usize) n" using \<open>n < 64\<close> by (simp add: bit_simps)
  ultimately show "bit w n" by (metis bit_and_iff)
next
  assume "n < 64" "bit w n"
  then show "w AND 2 ^ n = 2 ^ n" by (intro bit_word_eqI) (auto simp: bit_simps)
qed

lemma rotl_exp: "n < 63 \<Longrightarrow> word_rotl 1 (2 ^ n :: usize) = 2 ^ (n + 1)"
proof (rule bit_word_eqI)
  fix k assume "n < 63" "k < LENGTH(64)"
  then show "bit (word_rotl 1 (2 ^ n :: usize)) k = bit (2 ^ (n + 1) :: usize) k"
    by (cases k) (auto simp: bit_word_rotl_iff bit_simps)
qed

lemma exp_neq_1: "0 < n \<Longrightarrow> n < 64 \<Longrightarrow> (2 ^ n :: usize) \<noteq> 1"
  by (metis bit_1_iff bit_exp_iff possible_bit_word len_num0 less_numeral_extra(3))

lemma thread_loop_finds:
  "j < 64 \<Longrightarrow> bit ready j \<Longrightarrow> n \<le> j \<Longrightarrow>
     \<exists>l. thread_loop ready (2 ^ n) n = Some (Ok l, ready AND NOT (2 ^ l)) \<and> l < 64 \<and>
         bit ready l \<and> (\<forall>i. n \<le> i \<and> i < l \<longrightarrow> \<not> bit ready i)"
proof (induction "j - n" arbitrary: n)
  case 0
  then show ?case by (subst thread_loop.simps) (auto simp: and_exp_eq_exp_iff)
next
  case (Suc d)
  show ?case
  proof (cases "bit ready n")
    case True
    then show ?thesis using Suc.prems by (subst thread_loop.simps) (auto simp: and_exp_eq_exp_iff)
  next
    case False
    have "n < 63" using Suc by linarith
    then have step: "thread_loop ready (2 ^ n) n = thread_loop ready (2 ^ (n + 1)) (n + 1)"
      using False exp_neq_1 [of "n + 1"] rotl_exp [of n]
      by (subst thread_loop.simps) (simp add: and_exp_eq_exp_iff Let_def)
    obtain l where "thread_loop ready (2 ^ (n + 1)) (n + 1) = Some (Ok l, ready AND NOT (2 ^ l))"
      "l < 64" "bit ready l" "\<forall>i. n + 1 \<le> i \<and> i < l \<longrightarrow> \<not> bit ready i"
      using Suc.hyps(1) [of "n + 1"] Suc.hyps(2) Suc.prems by force
    then show ?thesis
      using False step by (metis Suc_eq_plus1 le_neq_implies_less less_eq_Suc_le)
  qed
qed

lemma nonzero_has_bit: "(w :: usize) \<noteq> 0 \<Longrightarrow> \<exists>j<64. bit w j"
proof (rule ccontr)
  assume "w \<noteq> 0" "\<not> (\<exists>j<64. bit w j)"
  then have "w = 0" by (intro bit_word_eqI) simp
  then show False using \<open>w \<noteq> 0\<close> by simp
qed

lemma take_available_thread_spec:
  "take_available_thread s =
    (if ready_threads s = 0 then Some (Ok None, s)
     else let l = (LEAST n. bit (ready_threads s) n)
          in Some (Ok (Some l), s\<lparr>ready_threads := unset_bit l (ready_threads s)\<rparr>))"
proof (cases "ready_threads s = 0")
  case False
  then obtain j where j: "j < 64" "bit (ready_threads s) j" using nonzero_has_bit by blast
  then obtain l where l: "thread_loop (ready_threads s) (2 ^ 0) 0 =
      Some (Ok l, ready_threads s AND NOT (2 ^ l))" "bit (ready_threads s) l"
      "\<forall>i. 0 \<le> i \<and> i < l \<longrightarrow> \<not> bit (ready_threads s) i"
    using thread_loop_finds [of j "ready_threads s" 0] by auto
  then have "(LEAST n. bit (ready_threads s) n) = l"
    by (intro Least_equality) (auto simp: not_less [symmetric])
  moreover have "ready_threads s AND NOT (2 ^ l) = unset_bit l (ready_threads s)"
    by (simp add: unset_bit_eq_and_not push_bit_of_1)
  ultimately show ?thesis
    using False l by (simp add: take_available_thread_def Let_def)
qed (simp add: take_available_thread_def)

section \<open>The queue as a FIFO\<close>

definition server_enq ::
  "nat \<Rightarrow> memory_address option \<Rightarrow> server \<Rightarrow> pid \<times> message \<Rightarrow> server option" where
  "server_enq t orig s x =
    (case queue_message s (fst x) t (snd x) orig of (Ok _, s') \<Rightarrow> Some s' | _ \<Rightarrow> None)"

definition server_deq :: "usize \<Rightarrow> server \<Rightarrow> ((pid \<times> message) \<times> server) option" where
  "server_deq sidx s =
    (case take_next_message s sidx of
       (Ok (Some env), s') \<Rightarrow> map_option (\<lambda>p. ((p, env_body env), s')) (sender_pid (env_sender env))
     | _ \<Rightarrow> None)"

lemma server_enq_refines:
  "server_inv s \<Longrightarrow> server_enq t orig s x = Some s' \<Longrightarrow>
     server_inv s' \<and> server_pending s' = server_pending s @ [x]"
  using queue_message_Ok [of s "fst x" t "snd x" orig]
  by (auto simp: server_enq_def split: prod.splits outcome.splits)

lemma server_deq_cases:
  assumes "server_inv s"
  shows "server_deq sidx s = None \<and> server_pending s = [] \<or>
    (\<exists>x s'. server_deq sidx s = Some (x, s') \<and> server_inv s' \<and> server_pending s = x # server_pending s')"
  using assms
  by (cases rule: take_next_message_cases [where sidx = sidx]) (auto simp: server_deq_def)

interpretation message_queue: fifo_queue server_inv server_pending "server_enq t orig" "server_deq sidx"
  for t orig sidx
proof unfold_locales
  show "server_inv s \<Longrightarrow> server_enq t orig s x = Some s' \<Longrightarrow>
      server_inv s' \<and> server_pending s' = server_pending s @ [x]" for s x s'
    by (rule server_enq_refines)
  show "server_inv s \<Longrightarrow> server_deq sidx s = Some (x, s') \<Longrightarrow>
      server_inv s' \<and> server_pending s = x # server_pending s'" for s x s'
    using server_deq_cases [of s sidx] by auto
  show "server_inv s \<Longrightarrow> server_deq sidx s = None \<longleftrightarrow> server_pending s = []" for s
    using server_deq_cases [of s sidx] by auto
qed

text \<open>A server as \<open>Server::init\<close> leaves it on a zeroed page of \<open>n\<close> slots.\<close>

definition fresh_server :: "pid \<Rightarrow> sid \<Rightarrow> nat \<Rightarrow> server" where
  "fresh_server p sd n =
    \<lparr>srv_sid = sd, srv_pid = p, queue_head = 0, queue_tail = 0, head_generation = 0,
     tail_generation = 0, empty_count = n, queue_base = 0, queue = replicate n Empty, ready_threads = 0,
     default_permissions = permissions_default\<rparr>"

lemma fresh_server_init:
  "server_init None p sd 0 (replicate n Empty) (0, 0) = (Ok (), Some (fresh_server p sd n))"
  by (simp add: server_init_def fresh_server_def)

lemma fresh_server_reachable: "0 < n \<Longrightarrow> server_reachable (fresh_server p sd n)"
  using reach_init [OF fresh_server_init [of p sd n]] by (simp add: list_all_length)

lemma fresh_server_pending: "server_pending (fresh_server p sd n) = []"
  by (simp add: server_pending_def fresh_server_def pending_count_def gens_from_def
      List.map_filter_simps)

lemma server_pending_length:
  assumes "server_inv s"
  shows "length (server_pending s) = pending_count s"
proof -
  have ok: "gens_ok (queue s) (head_generation s) (pending_count s)"
    using assms by (simp add: server_inv_def)
  have "pending_at (queue s) g \<noteq> None" if g: "g \<in> set (gens_from (head_generation s) (pending_count s))" for g
  proof -
    obtain i where "i < length (queue s)" "pending_gen (queue s ! i) = Some g"
      using g gens_ok_slot [OF ok] by (auto simp: set_gens_from)
    then show ?thesis
      using pending_at_eq [OF ok, of i g] pending_gen_view [of "queue s ! i"] by auto
  qed
  then have "length (List.map_filter (pending_at (queue s)) gs) = length gs"
    if "set gs \<subseteq> set (gens_from (head_generation s) (pending_count s))" for gs
    using that by (induction gs) (auto simp: List.map_filter_simps split: option.split)
  then show ?thesis by (simp add: server_pending_def gens_from_def)
qed

lemma scalars_fit:
  assumes "server_inv s" "k + pending_count s \<le> 255" "k \<le> empty_count s"
  shows "\<exists>s'. enq_all (server_enq t orig) s (replicate k (p, Scalar m)) = Some s' \<and> server_inv s' \<and>
    pending_count s' = pending_count s + k \<and> empty_count s' = empty_count s - k"
  using assms
proof (induction k arbitrary: s)
  case (Suc k)
  from Suc.prems(1) obtain qi s1 where s1: "queue_message s p t (Scalar m) orig = (Ok qi, s1)"
    using Suc.prems by (cases rule: queue_message_cases [where p = p and t = t and msg = "Scalar m" and orig = orig])
      auto
  have inv1: "server_inv s1" "pending_count s1 = Suc (pending_count s)"
    using queue_message_Ok [OF Suc.prems(1) s1] by auto
  have e1: "empty_count s1 = empty_count s - 1"
    using s1 by (auto simp: queue_message_def find_empty_slot_def Let_def
        split: option.splits prod.splits outcome.splits if_splits)
  have "k + pending_count s1 \<le> 255" "k \<le> empty_count s1" using Suc.prems inv1 e1 by linarith+
  then obtain s' where "enq_all (server_enq t orig) s1 (replicate k (p, Scalar m)) = Some s'"
      "server_inv s'" "pending_count s' = pending_count s1 + k" "empty_count s' = empty_count s1 - k"
    using Suc.IH [of s1] inv1 by blast
  moreover have "server_enq t orig s (p, Scalar m) = Some s1" using s1 by (simp add: server_enq_def)
  ultimately show ?case using inv1 e1 by simp
qed simp

section \<open>Properties\<close>

text \<open>
  Property C3: a server receives its messages in the order they were queued, with
  the sender and the body each was queued with.  From any reachable state, after
  queueing \<open>xs\<close>, taking messages one by one yields those that were waiting and
  then \<open>xs\<close>, however the slots of the ring were reused in between.
\<close>

theorem messages_delivered_in_order:
  assumes "server_reachable s" "enq_all (server_enq t orig) s xs = Some s'"
  shows "fst (deq_n (server_deq sidx) (length (server_pending s) + length xs) s') = server_pending s @ xs"
  using server_reachable_inv [OF assms(1)] assms(2) by (rule message_queue.delivered_in_order)

theorem messages_delivered_in_order_witness:
  "fst (deq_n (server_deq 3) 2 (the (enq_all (server_enq 1 None) (fresh_server (nz_lit 2) (SID 1 2 3 4) 4)
      [(nz_lit 5, Scalar (scalar_body 7 1 2 3 4)), (nz_lit 6, BlockingScalar (scalar_body 8 4 3 2 1))])))
   = [(nz_lit 5, Scalar (scalar_body 7 1 2 3 4)), (nz_lit 6, BlockingScalar (scalar_body 8 4 3 2 1))]"
proof -
  let ?s = "fresh_server (nz_lit 2) (SID 1 2 3 4) 4"
  let ?xs = "[(nz_lit 5, Scalar (scalar_body 7 1 2 3 4)),
      (nz_lit 6, BlockingScalar (scalar_body 8 4 3 2 1))]"
  have "enq_all (server_enq 1 None) ?s ?xs = Some (the (enq_all (server_enq 1 None) ?s ?xs))"
    by code_simp
  from messages_delivered_in_order [OF fresh_server_reachable this, of 3]
  show ?thesis by (simp add: fresh_server_pending numeral_2_eq_2 del: enq_all.simps deq_n.simps)
qed

text \<open>
  Property C19: in every reachable state of a server the bookkeeping is consistent:
  the indices are in range, \<open>empty_count\<close> is the number of empty slots, and the
  undelivered messages carry the generations from \<open>head_generation\<close> up to
  \<open>tail_generation\<close>, each exactly once.
\<close>

theorem server_queue_invariant:
  assumes "server_reachable s"
  shows "queue_head s < length (queue s) \<and> queue_tail s < length (queue s) \<and>
    empty_count s = count_list (queue s) Empty \<and>
    gens_ok (queue s) (head_generation s) (unat (tail_generation s - head_generation s))"
  using server_reachable_inv [OF assms] unfolding server_inv_def pending_count_def .

theorem server_queue_invariant_witness:
  "empty_count (fresh_server (nz_lit 2) (SID 1 2 3 4) 256) =
     count_list (queue (fresh_server (nz_lit 2) (SID 1 2 3 4) 256)) Empty"
  using server_queue_invariant [OF fresh_server_reachable [of 256 "nz_lit 2" "SID 1 2 3 4"]] by simp

text \<open>
  Property C23: the exact outcomes of \<open>queue_message\<close> in a reachable state.  It
  reports \<open>ServerQueueFull\<close> exactly when no slot is empty; it panics exactly when a
  slot is empty, the message is acceptable and 255 messages are undelivered, so
  that the 8-bit \<open>tail_generation\<close> would meet \<open>head_generation\<close>.
\<close>

theorem queue_message_outcomes:
  assumes "server_reachable s"
  shows "(fst (queue_message s p t msg orig) = Err ServerQueueFull \<longleftrightarrow> Empty \<notin> set (queue s)) \<and>
    (fst (queue_message s p t msg orig) = Panic \<longleftrightarrow>
       Empty \<in> set (queue s) \<and> is_ok (queued_of p t (tail_generation s) msg orig) \<and>
       unat (tail_generation s - head_generation s) = 255)"
proof -
  have inv: "server_inv s" by (rule server_reachable_inv [OF assms])
  then have e: "empty_count s = 0 \<longleftrightarrow> Empty \<notin> set (queue s)"
    by (simp add: server_inv_def count_list_0_iff)
  have "queued_of p t i msg orig \<noteq> Err ServerQueueFull" for i
    by (cases msg) (auto simp: obind_def ok_or_def split: option.splits)
  with inv e show ?thesis
    by - (erule queue_message_cases [where p = p and t = t and msg = msg and orig = orig];
      auto simp: pending_count_def)
qed

theorem queue_message_outcomes_witness:
  "fst (queue_message (fresh_server (nz_lit 2) (SID 1 2 3 4) 4) (nz_lit 5) 1
     (Scalar (scalar_body 7 1 2 3 4)) None) \<noteq> Panic"
  using queue_message_outcomes [OF fresh_server_reachable [of 4 "nz_lit 2" "SID 1 2 3 4"],
      of "nz_lit 5" 1 "Scalar (scalar_body 7 1 2 3 4)" None]
  by (simp add: fresh_server_def)

text \<open>
  Property C37: with a queue of at least 256 empty slots (the 16 KiB page of the
  hardware kernel has 256 slots of 64 bytes), 255 scalar messages from one sender
  are accepted and the next one panics the kernel instead of being queued or
  refused.
\<close>

theorem unreceived_messages_panic:
  assumes "server_reachable s" "server_pending s = []" "256 \<le> empty_count s"
  shows "\<exists>s'. enq_all (server_enq t None) s (replicate 255 (p, Scalar m)) = Some s' \<and>
    fst (queue_message s' p t (Scalar m) None) = Panic"
proof -
  have inv: "server_inv s" by (rule server_reachable_inv [OF assms(1)])
  have "pending_count s = 0"
    using assms(2) server_pending_length [OF inv] by simp
  then obtain s' where s': "enq_all (server_enq t None) s (replicate 255 (p, Scalar m)) = Some s'"
      "server_inv s'" "pending_count s' = 255" "empty_count s' = empty_count s - 255"
    using scalars_fit [OF inv, of 255 t None p m] assms(3) by auto
  have "empty_count s' \<noteq> 0" using s'(4) assms(3) by simp
  from s'(2) have "fst (queue_message s' p t (Scalar m) None) = Panic"
    by (cases rule: queue_message_cases [where p = p and t = t and msg = "Scalar m" and orig = None])
      (use s' \<open>empty_count s' \<noteq> 0\<close> in auto)
  then show ?thesis using s'(1) by blast
qed

theorem unreceived_messages_panic_witness:
  "\<exists>s'. enq_all (server_enq 1 None) (fresh_server (nz_lit 2) (SID 1 2 3 4) 256)
       (replicate 255 (nz_lit 5, Scalar (scalar_body 7 1 2 3 4))) = Some s' \<and>
     fst (queue_message s' (nz_lit 5) 1 (Scalar (scalar_body 7 1 2 3 4)) None) = Panic"
  by (rule unreceived_messages_panic)
    (simp_all add: fresh_server_reachable fresh_server_pending, simp add: fresh_server_def)

text \<open>The thread that a queued blocking message suspends.\<close>

fun blocked_sender :: "queued_message \<Rightarrow> (pid \<times> u8) option" where
  "blocked_sender (QROLend p t _ _ _ _ _ _ _) = Some (p, t)"
| "blocked_sender (QRWLend p t _ _ _ _ _ _ _) = Some (p, t)"
| "blocked_sender (QBlockingScalar p t _ _ _ _ _ _) = Some (p, t)"
| "blocked_sender _ = None"

lemma token_answers_sender:
  assumes "take_arm g sidx qi q = Some (env, r)" "blocked_sender q = Some (p, t)"
  shows "\<exists>w. (w = WaitingScalarMessage p (unat t) \<or> (\<exists>ca. w = BorrowedMemory p (unat t) ca)) \<and>
    (\<forall>s'. qi < length (queue s') \<longrightarrow> queue s' ! qi = r \<longrightarrow>
      fst (take_waiting_message s' qi (message_memory (env_body env))) = Ok w)"
  using assms
  by (cases q) (auto simp: take_waiting_message_def Let_def buf_matches_def message_memory_def
      memory_body_def as_ptr_def memory_range_len_def split: if_splits)

text \<open>
  Property C22: the sender handle in a delivered envelope leads the reply back to
  the thread that is blocked on it.  When \<open>take_next_message\<close> delivers the blocking
  message of thread \<open>(p, t)\<close>, decoding the handle as \<open>return_memory\<close> and
  \<open>return_scalar\<close> do gives the server's index and a slot for which
  \<open>take_waiting_message\<close>, called with the buffer of the message, names \<open>(p, t)\<close>.
\<close>

theorem reply_reaches_blocked_sender:
  assumes "server_reachable s" "length (queue s) \<le> 65536" "sidx < 256"
    and "take_next_message s sidx = (Ok (Some env), s')"
    and "\<forall>q\<in>set (queue s). pending_gen q = Some (head_generation s) \<longrightarrow> blocked_sender q = Some (p, t)"
  shows "snd_sidx (sender_id_from (sender_to_usize (env_sender env))) = sidx \<and>
    (\<exists>w. (w = WaitingScalarMessage p (unat t) \<or> (\<exists>ca. w = BorrowedMemory p (unat t) ca)) \<and>
      fst (take_waiting_message s' (unat (snd_idx (sender_id_from (sender_to_usize (env_sender env)))))
        (message_memory (env_body env))) = Ok w)"
  using server_reachable_inv [OF assms(1)]
proof (cases rule: take_next_message_cases [where sidx = sidx])
  case empty
  then show ?thesis using assms(4) by simp
next
  case (deliver qi env' r q)
  have env: "env' = env" "s' = dequeued s qi r" using deliver(1) assms(4) by simp_all
  have qi: "qi < 65536" using deliver(2) assms(2) by simp
  then have u: "unat (of_nat qi :: usize) = qi" by (simp add: unat_of_nat take_bit_nat_eq_self)
  then have "(of_nat qi :: usize) < 65536" using qi by (simp add: word_less_nat_alt)
  then have dec: "sender_id_from (sender_to_usize (env_sender env)) =
      \<lparr>snd_sidx = sidx, snd_idx = of_nat qi, snd_pid = Some q\<rparr>"
    using deliver(5) assms(3) env sender_id_from_to [of "\<lparr>snd_sidx = sidx, snd_idx = of_nat qi, snd_pid = Some q\<rparr>"]
    by (simp add: sender_of_def sender_to_usize_def sender_from_usize_def)
  have "pending_gen (queue s ! qi) = Some (head_generation s)"
    using deliver(3) take_arm_pending by blast
  then have "blocked_sender (queue s ! qi) = Some (p, t)" using assms(5) deliver(2) by simp
  from token_answers_sender [OF deliver(3) this]
  show ?thesis using deliver(2) by (auto simp: dec u env dequeued_def)
qed

theorem reply_reaches_blocked_sender_witness:
  "\<exists>s env s' w. take_next_message s 3 = (Ok (Some env), s') \<and>
     (w = WaitingScalarMessage (nz_lit 6) 1 \<or> (\<exists>ca. w = BorrowedMemory (nz_lit 6) 1 ca)) \<and>
     fst (take_waiting_message s' (unat (snd_idx (sender_id_from (sender_to_usize (env_sender env)))))
       (message_memory (env_body env))) = Ok w"
proof -
  let ?s0 = "fresh_server (nz_lit 2) (SID 1 2 3 4) 4"
  let ?m = "BlockingScalar (scalar_body 8 4 3 2 1)"
  define s where "s = snd (queue_message ?s0 (nz_lit 6) 1 ?m None)"
  have q: "queue_message ?s0 (nz_lit 6) 1 ?m None = (Ok 0, s)"
    unfolding s_def by code_simp
  have reach: "server_reachable s"
    by (rule reach_step [OF fresh_server_reachable [of 4 "nz_lit 2" "SID 1 2 3 4"] step_queue [OF q]])
      simp_all
  have slots: "queue s = [QBlockingScalar (nz_lit 6) 1 0 8 4 3 2 1, Empty, Empty, Empty]"
    "head_generation s = 0" "tail_generation s = 1"
    unfolding s_def by code_simp+
  have "server_pending s \<noteq> []"
    using server_pending_length [OF server_reachable_inv [OF reach]] slots
    by (auto simp: pending_count_def)
  with server_reachable_inv [OF reach] obtain env s' where
    "take_next_message s 3 = (Ok (Some env), s')"
    by - (erule take_next_message_cases [where sidx = 3]; blast)
  then show ?thesis
    using reply_reaches_blocked_sender [OF reach, of 3 env s' "nz_lit 6" 1] slots by fastforce
qed

text \<open>
  When a process dies, none of its undelivered messages is lost or
  reordered; the blocking ones are delivered with the sender 255, which names no
  process, and all others keep their sender.
\<close>

theorem discard_keeps_messages:
  "server_pending (discard_messages_for_pid s p) =
     map (\<lambda>(q, m). if q = p \<and> is_blocking m then (nz_lit 255, m) else (q, m)) (server_pending s)"
proof -
  have "orphan p = (\<lambda>(q, m). if q = p \<and> is_blocking m then (nz_lit 255, m) else (q, m))"
    by (rule ext) auto
  then show ?thesis by (simp add: discard_pending)
qed

text \<open>
  \<open>take_available_thread\<close> always returns, never reaches its panic, and
  takes the lowest-numbered parked thread out of the set.
\<close>

theorem take_available_thread_lowest:
  "take_available_thread s =
    (if ready_threads s = 0 then Some (Ok None, s)
     else Some (Ok (Some (LEAST n. bit (ready_threads s) n)),
       s\<lparr>ready_threads := unset_bit (LEAST n. bit (ready_threads s) n) (ready_threads s)\<rparr>))"
  using take_available_thread_spec [of s] by (simp add: Let_def)

text \<open>
  Packing a sender into the 32-bit message handle loses nothing, for
  server indices below 256 and slot indices below 65536.
\<close>

theorem sender_handle_round_trip:
  assumes "snd_sidx v < 256" "snd_idx v < 65536"
  shows "sender_id_from (sender_id_to v) = v"
  using assms by (rule sender_id_from_to)

theorem sender_handle_round_trip_witness:
  "sender_id_from (sender_id_to \<lparr>snd_sidx = 127, snd_idx = 255, snd_pid = Some (nz_lit 64)\<rparr>) =
    \<lparr>snd_sidx = 127, snd_idx = 255, snd_pid = Some (nz_lit 64)\<rparr>"
  by (rule sender_handle_round_trip) simp_all

end
