(* ===== verification/Address_Spaces.thy ===== *)
theory Address_Spaces
  imports Page_Tables
begin

text \<open>
  The address spaces built by the page table code: the states reachable by creating,
  mapping, unmapping, moving, lending, returning and faulting in pages, in any order with
  changes of the allocator and of memory that leave the tables alone, what each
  call does to the translations of all processes, and the permissions of the pages.
\<close>

section \<open>Changes outside the tables\<close>

text \<open>The pages of RAM that hold the tables of some address spaces.\<close>

definition table_page :: "'b vm \<Rightarrow> memory_mapping set \<Rightarrow> nat \<Rightarrow> bool" where
  "table_page v maps i \<longleftrightarrow> i < RAM_PAGES \<and> (\<exists>mp\<in>maps. \<exists>q. path_ok q \<and> table_at (ram v) (ttbr0 mp) q = Some (page_phys i))"

lemma table_page_owned: "tables_inv v maps \<Longrightarrow> table_page v maps i \<Longrightarrow> \<exists>mp\<in>maps. owner_of (mm v) i = Some (get_pid mp)"
  unfolding table_page_def by (metis tables_owned page_phys_inject)

lemma tables_frame:
  assumes inv: "tables_inv v maps"
    and same: "\<And>mp p t k. mp \<in> maps \<Longrightarrow> path_ok p \<Longrightarrow> k < TABLE_ENTRIES \<Longrightarrow> table_at (ram v) (ttbr0 mp) p = Some t \<Longrightarrow>
      pte (ram v') t k = pte (ram v) t k"
    and owners: "\<And>i. owner_of (mm v) i \<noteq> None \<Longrightarrow> table_page v maps i \<Longrightarrow> owner_of (mm v') i = owner_of (mm v) i"
  shows "tables_inv v' maps"
    and "mq \<in> maps \<Longrightarrow> path_ok q \<Longrightarrow> table_at (ram v') (ttbr0 mq) q = table_at (ram v) (ttbr0 mq) q"
    and "mq \<in> maps \<Longrightarrow> translation (ram v') (ttbr0 mq) va = translation (ram v) (ttbr0 mq) va"
proof -
  have tab: "table_at (ram v') (ttbr0 mq) q = table_at (ram v) (ttbr0 mq) q" if "mq \<in> maps" "path_ok q" for mq q
    using table_at_cong [OF that(2)] same that(1) by blast
  then show "mq \<in> maps \<Longrightarrow> path_ok q \<Longrightarrow> table_at (ram v') (ttbr0 mq) q = table_at (ram v) (ttbr0 mq) q" .
  show "mq \<in> maps \<Longrightarrow> translation (ram v') (ttbr0 mq) va = translation (ram v) (ttbr0 mq) va"
    using tab [of mq "Leaf (l1_index va) (l2_index va)"] same [of mq "Leaf (l1_index va) (l2_index va)" "l3_index va"]
    by (auto simp: translation_def simp del: table_at.simps split: option.splits)
  show "tables_inv v' maps"
    unfolding tables_inv_def
  proof (intro conjI ballI allI impI)
    fix mq q s assume "mq \<in> maps" "path_ok q" "table_at (ram v') (ttbr0 mq) q = Some s"
    then obtain i where "i < RAM_PAGES" "s = page_phys i" "owner_of (mm v) i = Some (get_pid mq)" "table_page v maps i"
      using tab tables_owned [OF inv, of mq q s] unfolding table_page_def by metis
    then show "\<exists>i<RAM_PAGES. s = page_phys i \<and> owner_of (mm v') i = Some (get_pid mq)" using owners by force
  next
    fix mq mr q q' s
    assume "mq \<in> maps" "mr \<in> maps" "path_ok q" "path_ok q'"
      "table_at (ram v') (ttbr0 mq) q = Some s" "table_at (ram v') (ttbr0 mr) q' = Some s"
    then show "mq = mr" "q = q'" using tab tables_unique [OF inv] by metis+
  next
    fix mq q s l
    assume a: "mq \<in> maps" "upper_path q" "path_ok q" "l < TABLE_ENTRIES"
      "table_at (ram v') (ttbr0 mq) q = Some s" "bit (pte (ram v') s l) 0"
    then show "bit (pte (ram v') s l) 1"
      using tab [OF a(1,3)] same [OF a(1,3,4)] tables_descriptor [OF inv a(1-4)] by metis
  qed
qed

text \<open>Zeroing pages that had no owner, and giving them one.\<close>

lemma zero_fresh_page:
  assumes inv: "tables_inv v maps" and i: "i < RAM_PAGES" "owner_of (mm v) i = None"
    and mq: "mq \<in> maps" "path_ok q" "k < TABLE_ENTRIES" "table_at (ram v) (ttbr0 mq) q = Some t"
  shows "pte (zero_page (ram v) (phys_to_virt (page_phys i))) t k = pte (ram v) t k"
proof -
  obtain x where "x < RAM_PAGES" "t = page_phys x" "owner_of (mm v) x \<noteq> None"
    using tables_owned [OF inv mq(1,2,4)] by (metis option.discI)
  then have "t \<noteq> page_phys i" using i page_phys_inject by metis
  then show ?thesis
    using pte_zero [OF page_phys_page(1) [OF i(1)] tables_aligned [OF inv mq(1,2,4)] mq(3)] by simp
qed

lemma fresh_page_inv:
  assumes inv: "vm_inv B v maps" and i: "i < RAM_PAGES" "owner_of (mm v) i = None" and m': "mm_inv B m'"
    and own: "\<And>j. owner_of m' j = (if j = i then Some p else owner_of (mm v) j)"
    and r': "r' = ram v \<or> r' = zero_page (ram v) (phys_to_virt (page_phys i))"
  shows "vm_inv B (v\<lparr>mm := m', ram := r'\<rparr>) maps" "vm_extends p v (v\<lparr>mm := m', ram := r'\<rparr>)"
    and "\<And>mq va. mq \<in> maps \<Longrightarrow> translation r' (ttbr0 mq) va = translation (ram v) (ttbr0 mq) va"
proof -
  have T: "tables_inv v maps" using inv by (simp add: vm_inv_def)
  have same: "pte r' t k = pte (ram v) t k"
    if "mq \<in> maps" "path_ok q" "k < TABLE_ENTRIES" "table_at (ram v) (ttbr0 mq) q = Some t" for mq q t k
    using r' zero_fresh_page [OF T i that] by auto
  have o: "owner_of (mm (v\<lparr>mm := m', ram := r'\<rparr>)) j = owner_of (mm v) j" if "owner_of (mm v) j \<noteq> None" for j
    using own i(2) that by auto
  show "vm_inv B (v\<lparr>mm := m', ram := r'\<rparr>) maps"
    using tables_frame(1) [OF T _ o] same m' by (simp add: vm_inv_def)
  show "\<And>mq va. mq \<in> maps \<Longrightarrow> translation r' (ttbr0 mq) va = translation (ram v) (ttbr0 mq) va"
    using tables_frame(3) [OF T _ o] same by simp
  show "vm_extends p v (v\<lparr>mm := m', ram := r'\<rparr>)"
    using r'
  proof
    assume "r' = ram v"
    then show ?thesis using own i(2) by (simp add: vm_extends_def)
  qed (use zero_new_page_extends [OF i own] in simp)
qed

section \<open>Creating an address space\<close>

lemma get_pid_allocated [simp]: "get_pid (mp\<lparr>ttbr0 := t, mapping_pid := ucast (nz_get p)\<rparr>) = p"
proof -
  have "ucast (ucast (nz_get p) :: usize) = nz_get p"
    by (rule bit_eqI) (simp add: bit_ucast_iff bit_imp_le_length)
  then show ?thesis by (simp add: get_pid_def)
qed

lemma zeroed_root:
  assumes "\<And>k. k < TABLE_ENTRIES \<Longrightarrow> pte r n k = 0" "path_ok q"
  shows "table_at r n q = (if q = Root then Some n else None)" "translation r n va = None"
proof -
  show "table_at r n q = (if q = Root then Some n else None)"
    using assms by (cases q) (auto simp: next_table_def)
  show "translation r n va = None"
    using assms(1) [of "l1_index va"] by (simp add: translation_def next_table_def)
qed

lemma mapping_allocate_cases:
  assumes B: "bitvec_laws B" and inv: "vm_inv B v maps"
  obtains (oom) "mapping_allocate B p mp v = (Err OutOfMemory, v)" "free_pages B (mm v) = {}"
  | (ok) mp' v' where "mapping_allocate B p mp v = (Ok mp', v')" "vm_inv B v' (insert mp' maps)" "mp' \<notin> maps"
      "get_pid mp' = p" "vm_extends p v v'" "\<And>va. translation (ram v') (ttbr0 mp') va = None"
      "\<And>mq va. mq \<in> maps \<Longrightarrow> translation (ram v') (ttbr0 mq) va = translation (ram v) (ttbr0 mq) va"
      "card (free_pages B (mm v)) \<le> card (free_pages B (mm v')) + 1"
proof -
  have m: "mm_inv B (mm v)" and T: "tables_inv v maps" using inv by (simp_all add: vm_inv_def)
  show thesis
    using B m
  proof (cases rule: alloc_table_page_cases [where p = p])
    case oom
    then show thesis using that(1) by (simp add: mapping_allocate_def)
  next
    case (page i m')
    let ?n = "page_phys i"
    define r' where "r' = zero_page (ram v) (phys_to_virt ?n)"
    define mp' where "mp' = mp\<lparr>ttbr0 := ?n, mapping_pid := ucast (nz_get p)\<rparr>"
    define v' where "v' = v\<lparr>mm := m', ram := r'\<rparr>"
    have e: "mapping_allocate B p mp v = (Ok mp', v')"
      using page(1) by (simp add: mapping_allocate_def mp'_def v'_def r'_def)
    have pid: "get_pid mp' = p" by (simp add: mp'_def)
    have root: "ttbr0 mp' = ?n" by (simp add: mp'_def)
    note F = fresh_page_inv [OF inv page(2-5), of r']
    have F': "tables_inv v' maps" "vm_extends p v v'"
        "\<And>mq va. mq \<in> maps \<Longrightarrow> translation r' (ttbr0 mq) va = translation (ram v) (ttbr0 mq) va"
      using F by (simp_all add: r'_def v'_def vm_inv_def)
    have z: "\<And>k. k < TABLE_ENTRIES \<Longrightarrow> pte r' ?n k = 0"
      using pte_zero [OF page_phys_page(1) page_phys_page(1), OF page(2,2)] by (simp add: r'_def)
    have Z: "table_at r' ?n q = (if q = Root then Some ?n else None)" "translation r' ?n va = None" if "path_ok q" for q va
      using zeroed_root [OF z that] by simp_all
    have o: "owner_of (mm v) x = Some q \<Longrightarrow> x \<noteq> i" for x q using page(3) by auto
    have old_n: "table_at r' (ttbr0 mq) q \<noteq> Some ?n" if "mq \<in> maps" "path_ok q" for mq q
    proof -
      have "table_at r' (ttbr0 mq) q = table_at (ram v) (ttbr0 mq) q"
        using table_at_cong [OF that(2)] zero_fresh_page [OF T page(2,3) that(1)] unfolding r'_def by blast
      then show ?thesis
        using tables_owned [OF T that] o page(2) page_phys_inject by (metis (no_types, lifting))
    qed
    have new: "mp' \<notin> maps" using old_n [of mp' Root] root by auto
    have T': "tables_inv v' (insert mp' maps)"
      unfolding tables_inv_def
    proof (intro conjI ballI allI impI)
      fix mq q s assume a: "mq \<in> insert mp' maps" "path_ok q" "table_at (ram v') (ttbr0 mq) q = Some s"
      show "\<exists>i<RAM_PAGES. s = page_phys i \<and> owner_of (mm v') i = Some (get_pid mq)"
      proof (cases "mq = mp'")
        case True
        then have "s = ?n" using a(3) Z(1) [OF a(2)] root by (auto simp: v'_def split: if_splits)
        moreover have "owner_of (mm v') i = Some (get_pid mq)" using page(5) pid True by (simp add: v'_def)
        ultimately show ?thesis using page(2) by blast
      next
        case False
        then show ?thesis using tables_owned [OF F'(1) _ a(2,3)] a(1) by (metis insertE)
      qed
    next
      fix mq mr q q' s
      assume a: "mq \<in> insert mp' maps" "mr \<in> insert mp' maps" "path_ok q" "path_ok q'"
        "table_at (ram v') (ttbr0 mq) q = Some s" "table_at (ram v') (ttbr0 mr) q' = Some s"
      have r: "ram v' = r'" by (simp add: v'_def)
      have "mq = mr \<and> q = q'"
      proof (cases "mq = mp'")
        case True
        then have q: "q = Root" "s = ?n" using a(5) Z(1) [OF a(3)] root r by (auto split: if_splits)
        then have "mr = mp'" using a(2,4,6) old_n [of mr q'] r by auto
        then show ?thesis using a(6) Z(1) [OF a(4)] root r q True by (auto split: if_splits)
      next
        case False
        then have mq: "mq \<in> maps" using a(1) by simp
        have "mr \<noteq> mp'"
          using a(4-6) Z(1) [OF a(4)] root r old_n [OF mq a(3)] by (auto split: if_splits)
        then show ?thesis using tables_unique [OF F'(1) mq _ a(3-6)] a(2) by blast
      qed
      then show "mq = mr" "q = q'" by auto
    next
      fix mq q s l
      assume a: "mq \<in> insert mp' maps" "upper_path q" "path_ok q" "l < TABLE_ENTRIES"
        "table_at (ram v') (ttbr0 mq) q = Some s" "bit (pte (ram v') s l) 0"
      then show "bit (pte (ram v') s l) 1"
        using tables_descriptor [OF F'(1) _ a(2-6)] Z(1) [OF a(3)] z [OF a(4)] root
        by (auto simp: v'_def split: if_splits)
    qed
    show thesis
    proof (rule ok [OF e])
      show "vm_inv B v' (insert mp' maps)" using T' page(4) by (simp add: vm_inv_def v'_def)
      show "translation (ram v') (ttbr0 mp') va = None" for va
        using Z(2) [of Root] root by (simp add: v'_def)
    qed (use new pid F' page(6) in \<open>simp_all add: v'_def\<close>)
  qed
qed

section \<open>Permissions of a page\<close>

text \<open>How the hardware reads the access bits of a level-3 entry (ARMv8-A stage 1).\<close>

definition el0_readable :: "u64 \<Rightarrow> bool" where "el0_readable e \<longleftrightarrow> bit e 6"
definition el0_writable :: "u64 \<Rightarrow> bool" where "el0_writable e \<longleftrightarrow> bit e 6 \<and> \<not> bit e 7"
definition el1_writable :: "u64 \<Rightarrow> bool" where "el1_writable e \<longleftrightarrow> \<not> bit e 7"
definition el0_executable :: "u64 \<Rightarrow> bool" where "el0_executable e \<longleftrightarrow> \<not> bit e 54"
definition el1_executable :: "u64 \<Rightarrow> bool" where "el1_executable e \<longleftrightarrow> \<not> bit e 53"

lemmas access_defs = el0_readable_def el0_writable_def el1_writable_def el0_executable_def el1_executable_def

lemma page_entry_attr_bit: "n < 14 \<or> 48 \<le> n \<Longrightarrow> bit (page_entry phys flags user) n = bit (flags_to_pte flags user) n"
  by (auto simp: page_entry_def bit_or_iff bit_and_iff bit_addr_mask)

lemmas pte_bit_defs = PTE_VALID_def PTE_TABLE_def PTE_AF_def PTE_SH_ISH_def PTE_ATTR_DEVICE_def
  PTE_ATTR_NORMAL_def PTE_ATTR_IDX_SHIFT_def PTE_NG_def PTE_AP_RW_ALL_def PTE_AP_RO_ALL_def
  PTE_AP_RW_EL1_def PTE_AP_RO_EL1_def PTE_UXN_def PTE_PXN_def

lemma flags_to_pte_bits:
  "bit (flags_to_pte flags user) 6 \<longleftrightarrow> user"
  "bit (flags_to_pte flags user) 7 \<longleftrightarrow> \<not> flags_is_set flags FLAG_W"
  "bit (flags_to_pte flags user) 53 \<longleftrightarrow> user \<or> \<not> flags_is_set flags FLAG_X"
  "bit (flags_to_pte flags user) 54 \<longleftrightarrow> \<not> user \<or> flags_is_set flags FLAG_W \<or> \<not> flags_is_set flags FLAG_X"
  by (auto simp: flags_to_pte_def Let_def bit_or_iff pte_bit_defs bit_push_bit_iff bit_1_iff
      bit_numeral_rec)

section \<open>Reachable address spaces\<close>

text \<open>
  The states of the tables under any sequence of the operations on tables and on the
  allocator, from any state of the allocator with no address space; \<open>maps\<close> are the address
  spaces that exist.  When a process exits its pages are released and its address spaces
  are gone.  Between the operations programs and the kernel write to memory.  Two things are
  excluded: that a page that holds a table is written other than by these operations, and
  that it is released, claimed or moved before its process exits.
\<close>

inductive vm_reachable :: "'b bitvec \<Rightarrow> 'b vm \<Rightarrow> memory_mapping set \<Rightarrow> bool" for B where
  vm_boot: "mm_reachable B allowed m F \<Longrightarrow> vm_reachable B \<lparr>mm = m, ram = r\<rparr> {}"
| vm_create: "vm_reachable B v maps \<Longrightarrow> mapping_allocate B p mp v = (Ok mp', v') \<Longrightarrow>
    vm_reachable B v' (insert mp' maps)"
| vm_map: "vm_reachable B v maps \<Longrightarrow> mp \<in> maps \<Longrightarrow> map_page B mp phys va flags user v = (r, v') \<Longrightarrow>
    vm_reachable B v' maps"
| vm_unmap: "vm_reachable B v maps \<Longrightarrow> mp \<in> maps \<Longrightarrow> unmap_page mp va v = (r, v') \<Longrightarrow> vm_reachable B v' maps"
| vm_move: "vm_reachable B v maps \<Longrightarrow> src \<in> maps \<Longrightarrow> dest \<in> maps \<Longrightarrow>
    move_page_between B src a dest b v = (r, v') \<Longrightarrow> vm_reachable B v' maps"
| vm_lend: "vm_reachable B v maps \<Longrightarrow> src \<in> maps \<Longrightarrow> dest \<in> maps \<Longrightarrow>
    lend_page B src a dest b mutable v = (r, v') \<Longrightarrow> vm_reachable B v' maps"
| vm_return: "vm_reachable B v maps \<Longrightarrow> src \<in> maps \<Longrightarrow> return_page src a dest b v = (r, v') \<Longrightarrow>
    vm_reachable B v' maps"
| vm_fault: "vm_reachable B v maps \<Longrightarrow> mp \<in> maps \<Longrightarrow> ensure_page_exists B mp va v = (r, v') \<Longrightarrow>
    vm_reachable B v' maps"
| vm_alloc: "vm_reachable B v maps \<Longrightarrow> alloc_range B (mm v) n p = (r, m') \<Longrightarrow> r \<noteq> Panic \<Longrightarrow>
    vm_reachable B (v\<lparr>mm := m'\<rparr>) maps"
| vm_claim: "vm_reachable B v maps \<Longrightarrow> claim_release_move B allowed (mm v) addr p action = (r, m') \<Longrightarrow>
    (\<And>i. table_page v maps i \<Longrightarrow> owner_of m' i = owner_of (mm v) i) \<Longrightarrow> vm_reachable B (v\<lparr>mm := m'\<rparr>) maps"
| vm_exit: "vm_reachable B v maps \<Longrightarrow> release_all_memory_for_process B (mm v) p = (r, m') \<Longrightarrow>
    vm_reachable B (v\<lparr>mm := m'\<rparr>) {mp \<in> maps. get_pid mp \<noteq> p}"
| vm_zeroed: "vm_reachable B v maps \<Longrightarrow> take_dirty_pages B (mm v) = (Ok (Some (page_phys i, n)), m1) \<Longrightarrow> i < RAM_PAGES \<Longrightarrow>
    set_pages_to_zeroed B m1 (page_phys i) n = (r, m') \<Longrightarrow> vm_reachable B (v\<lparr>mm := m'\<rparr>) maps"
| vm_write: "vm_reachable B v maps \<Longrightarrow>
    (\<And>i k. table_page v maps i \<Longrightarrow> k < TABLE_ENTRIES \<Longrightarrow> pte mem (page_phys i) k = pte (ram v) (page_phys i) k) \<Longrightarrow>
    vm_reachable B (v\<lparr>ram := mem\<rparr>) maps"

text \<open>Every translation was written by \<open>map_page\<close>.\<close>

definition vm_ok :: "'b bitvec \<Rightarrow> 'b vm \<Rightarrow> memory_mapping set \<Rightarrow> bool" where
  "vm_ok B v maps \<longleftrightarrow> vm_inv B v maps \<and>
    (\<forall>mp\<in>maps. \<forall>va e. translation (ram v) (ttbr0 mp) va = Some e \<longrightarrow> (\<exists>phys flags user. e = page_entry phys flags user))"

lemma vm_ok_same:
  assumes "vm_ok B v maps" "vm_inv B v' maps"
    "\<And>mq va. mq \<in> maps \<Longrightarrow> translation (ram v') (ttbr0 mq) va = translation (ram v) (ttbr0 mq) va"
  shows "vm_ok B v' maps"
  using assms by (simp add: vm_ok_def)

lemma map_page_ok:
  assumes B: "bitvec_laws B" and ok: "vm_ok B v maps" and mp: "mp \<in> maps"
    and e: "map_page B mp phys va flags user v = (r, v')"
  shows "vm_ok B v' maps"
proof -
  have inv: "vm_inv B v maps" using ok by (simp add: vm_ok_def)
  show ?thesis
    using B inv mp
  proof (cases rule: map_page_cases [where phys = phys and va = va and flags = flags and user = user])
    case (oom u)
    then show ?thesis using e vm_ok_same [OF ok oom(2)] by simp
  next
    case (ok u)
    then show ?thesis using e assms(2) by (auto simp: vm_ok_def)
  qed
qed

lemma unmap_page_ok:
  assumes ok: "vm_ok B v maps" and mp: "mp \<in> maps" and e: "unmap_page mp va v = (r, v')"
  shows "vm_ok B v' maps"
proof -
  have inv: "vm_inv B v maps" using ok by (simp add: vm_ok_def)
  show ?thesis
    using inv mp
  proof (cases rule: unmap_page_cases [where va = va])
    case unmapped
    then show ?thesis using e ok by simp
  next
    case (ok u)
    then show ?thesis using e assms(1) by (auto simp: vm_ok_def)
  qed
qed

lemma move_page_ok:
  assumes "bitvec_laws B" "vm_ok B v maps" "src \<in> maps" "dest \<in> maps"
    and e: "move_page_between B src a dest b v = (r, v')"
  shows "vm_ok B v' maps"
proof (cases "virt_to_phys v src a")
  case (Ok phys)
  obtain r1 v1 where u: "unmap_page src a v = (r1, v1)" by fastforce
  have "vm_ok B v1 maps" using unmap_page_ok [OF assms(2,3) u] .
  then show ?thesis
    using e Ok u map_page_ok [OF assms(1) _ assms(4)] by (cases r1) (auto simp: move_page_between_def)
qed (use e assms in \<open>auto simp: move_page_between_def\<close>)

lemma lend_page_ok:
  assumes "bitvec_laws B" "vm_ok B v maps" "dest \<in> maps" and e: "lend_page B src a dest b mutable v = (r, v')"
  shows "vm_ok B v' maps"
  using e map_page_ok [OF assms(1-3)] assms(2)
  by (cases "virt_to_phys v src a") (auto simp: lend_page_def)

lemma return_page_ok:
  assumes "vm_ok B v maps" "src \<in> maps" and e: "return_page src a dest b v = (r, v')"
  shows "vm_ok B v' maps"
proof -
  obtain r1 v1 where u: "unmap_page src a v = (r1, v1)" by fastforce
  then show ?thesis
    using e unmap_page_ok [OF assms(1,2) u] by (cases r1) (auto simp: return_page_def)
qed

lemma ensure_page_ok:
  assumes B: "bitvec_laws B" and ok: "vm_ok B v maps" and mp: "mp \<in> maps" and e: "ensure_page_exists B mp va v = (r, v')"
  shows "vm_ok B v' maps"
proof (cases "is_ok (virt_to_phys v mp va)")
  case True
  then show ?thesis using e ok by (simp add: ensure_page_exists_def)
next
  case False
  have inv: "vm_inv B v maps" using ok by (simp add: vm_ok_def)
  have m: "mm_inv B (mm v)" using inv by (simp add: vm_inv_def)
  show ?thesis
    using B m
  proof (cases rule: alloc_page_cases [where p = "get_pid mp"])
    case oom
    then show ?thesis using e ok False by (simp add: ensure_page_exists_def)
  next
    case (page i z m')
    define r' where "r' = (if z then ram v else zero_page (ram v) (phys_to_virt (page_phys i)))"
    have r': "r' = ram v \<or> r' = zero_page (ram v) (phys_to_virt (page_phys i))" by (simp add: r'_def)
    note F = fresh_page_inv [OF inv page(2-5) r']
    have "vm_ok B (v\<lparr>mm := m', ram := r'\<rparr>) maps" using vm_ok_same [OF ok F(1)] F(3) by simp
    moreover have "map_page B mp (page_phys i) va FLAG_W True (v\<lparr>mm := m', ram := r'\<rparr>) = (r, v')"
      using e page(1) False by (auto simp: ensure_page_exists_def Let_def r'_def split: if_splits)
    ultimately show ?thesis using map_page_ok [OF B _ mp] by blast
  qed
qed

lemma vm_ok_subset: "vm_ok B v maps \<Longrightarrow> maps' \<subseteq> maps \<Longrightarrow> vm_ok B v maps'"
  unfolding vm_ok_def vm_inv_def tables_inv_def by (meson subsetD)

text \<open>Steps of the allocator and writes to memory that leave the tables alone.\<close>

lemma beside_tables_ok:
  assumes ok: "vm_ok B v maps" and m: "mm_inv B m'" and owners: "\<And>i. table_page v maps i \<Longrightarrow> owner_of m' i = owner_of (mm v) i"
    and mem: "\<And>i k. table_page v maps i \<Longrightarrow> k < TABLE_ENTRIES \<Longrightarrow> pte mem (page_phys i) k = pte (ram v) (page_phys i) k"
  shows "vm_ok B (v\<lparr>mm := m', ram := mem\<rparr>) maps"
proof -
  have T: "tables_inv v maps" using ok by (simp add: vm_ok_def vm_inv_def)
  have same: "pte mem t k = pte (ram v) t k"
    if "mp \<in> maps" "path_ok q" "k < TABLE_ENTRIES" "table_at (ram v) (ttbr0 mp) q = Some t" for mp q t k
    using tables_owned [OF T that(1,2,4)] mem that unfolding table_page_def by metis
  note F = tables_frame [OF T, of "v\<lparr>mm := m', ram := mem\<rparr>"]
  have "vm_inv B (v\<lparr>mm := m', ram := mem\<rparr>) maps" unfolding vm_inv_def using F(1) same owners m by simp
  then show ?thesis using vm_ok_same [OF ok] F(3) same owners by simp
qed

lemma mm_step_ok:
  "vm_ok B v maps \<Longrightarrow> mm_inv B m' \<Longrightarrow> (\<And>i. table_page v maps i \<Longrightarrow> owner_of m' i = owner_of (mm v) i) \<Longrightarrow> vm_ok B (v\<lparr>mm := m'\<rparr>) maps"
  using beside_tables_ok [of B v maps m' "ram v"] by simp

lemma alloc_beside_tables:
  assumes B: "bitvec_laws B" and ok: "vm_ok B v maps" and a: "alloc_range B (mm v) n p = (r, m')" "r \<noteq> Panic"
  shows "vm_ok B (v\<lparr>mm := m'\<rparr>) maps"
proof -
  have inv: "mm_inv B (mm v)" and T: "tables_inv v maps" using ok by (simp_all add: vm_ok_def vm_inv_def)
  have n: "0 < n" "n \<le> RAM_PAGES"
    using a RAM_PAGES_pos by (auto simp: alloc_range_def alloc_range_aligned_def not_le split: if_splits)
  show ?thesis
    using B inv n
  proof (cases rule: alloc_range_cases [where p = p])
    case full
    then show ?thesis using a ok by simp
  next
    case (run i z m1)
    have "owner_of m1 j = owner_of (mm v) j" if "table_page v maps j" for j
    proof -
      have "owner_of (mm v) j \<noteq> None" using table_page_owned [OF T that] by auto
      then have "j \<notin> {i ..< i + n}"
        using run(2) mm_invD(2) [OF inv, of j] by (auto simp: free_run_def unowned_def owner_of_def)
      then show ?thesis using owner_fill [OF run(5) run_owned(1) [OF inv run(2) n(1)]] by auto
    qed
    then show ?thesis using mm_step_ok [OF ok run(4)] run(1) a(1) by simp
  qed
qed

lemma exit_beside_tables:
  assumes B: "bitvec_laws B" and ok: "vm_ok B v maps" and e: "release_all_memory_for_process B (mm v) p = (r, m')"
  shows "vm_ok B (v\<lparr>mm := m'\<rparr>) {mp \<in> maps. get_pid mp \<noteq> p}"
proof -
  have inv: "mm_inv B (mm v)" using ok by (simp add: vm_ok_def vm_inv_def)
  have ok': "vm_ok B v {mp \<in> maps. get_pid mp \<noteq> p}" by (rule vm_ok_subset [OF ok]) auto
  then have T: "tables_inv v {mp \<in> maps. get_pid mp \<noteq> p}" by (simp add: vm_ok_def vm_inv_def)
  obtain m1 where "release_all_memory_for_process B (mm v) p = (Ok (), m1)" "mm_inv B m1"
      "\<forall>i. owner_of m1 i = (if owner_of (mm v) i = Some p then None else owner_of (mm v) i)"
    using release_all_spec [OF B inv, of p] by blast
  then have m': "mm_inv B m'" "\<And>i. owner_of m' i = (if owner_of (mm v) i = Some p then None else owner_of (mm v) i)" using e by auto
  show ?thesis by (rule mm_step_ok [OF ok' m'(1)]) (use m'(2) table_page_owned [OF T] in fastforce)
qed

lemma zeroing_beside_tables:
  assumes B: "bitvec_laws B" and ok: "vm_ok B v maps" and i: "i < RAM_PAGES"
    and t: "take_dirty_pages B (mm v) = (Ok (Some (page_phys i, n)), m1)" and z: "set_pages_to_zeroed B m1 (page_phys i) n = (r, m')"
  shows "vm_ok B (v\<lparr>mm := m'\<rparr>) maps"
proof -
  have inv: "mm_inv B (mm v)" using ok by (simp add: vm_ok_def vm_inv_def)
  from B inv show ?thesis
  proof (cases rule: take_dirty_pages_cases)
    case (some j k u)
    have "j < RAM_PAGES" using some(2,4) by simp
    then have eq: "j = i" "k = n" "u = m1" using t some(1) page_phys_inject [of j i] i by auto
    have "{i ..< i + n} \<subseteq> unowned m1 - free_pages B m1"
      using some(5-8) mm_invD(1,2) [OF inv] unfolding eq unowned_def by auto
    from set_pages_to_zeroed_run [OF B some(9,2,4) [unfolded eq] this] z
    have "mm_inv B m'" "allocations m' = allocations (mm v)" using some(8) eq by auto
    then show ?thesis by (intro mm_step_ok [OF ok]) (simp_all add: owner_of_def)
  qed (use t in simp)
qed

lemma vm_reachable_ok:
  assumes "bitvec_laws B" "vm_reachable B v maps"
  shows "vm_ok B v maps"
  using assms(2)
proof induction
  case (vm_boot allowed m F r)
  then show ?case using mm_reachable_inv [OF assms(1)] by (simp add: vm_ok_def vm_inv_def tables_inv_def)
next
  case (vm_create v maps p mp mp' v')
  have inv: "vm_inv B v maps" using vm_create.IH by (simp add: vm_ok_def)
  show ?case
    using assms(1) inv
  proof (cases rule: mapping_allocate_cases [where p = p and mp = mp])
    case oom
    then show ?thesis using vm_create.hyps(2) by simp
  next
    case (ok mq u)
    then show ?thesis using vm_create by (auto simp: vm_ok_def)
  qed
next
  case vm_map
  then show ?case using map_page_ok [OF assms(1)] by blast
next
  case vm_unmap
  then show ?case using unmap_page_ok by blast
next
  case vm_move
  then show ?case using move_page_ok [OF assms(1)] by blast
next
  case vm_lend
  then show ?case using lend_page_ok [OF assms(1)] by blast
next
  case vm_return
  then show ?case using return_page_ok by blast
next
  case vm_fault
  then show ?case using ensure_page_ok [OF assms(1)] by blast
next
  case vm_alloc
  then show ?case using alloc_beside_tables [OF assms(1)] by blast
next
  case (vm_claim v maps allowed addr p action r m')
  have "mm_inv B (mm v)" using vm_claim.IH by (simp add: vm_ok_def vm_inv_def)
  then have "mm_inv B m'"
    using claim_release_move_inv [OF assms(1) _ _ vm_claim.hyps(2), of "{}"] by (simp add: zeroing_ok_def)
  then show ?case using mm_step_ok [OF vm_claim.IH] vm_claim.hyps(3) by simp
next
  case vm_exit
  then show ?case using exit_beside_tables [OF assms(1)] by blast
next
  case vm_zeroed
  then show ?case using zeroing_beside_tables [OF assms(1)] by blast
next
  case (vm_write v maps mem)
  have "mm_inv B (mm v)" using vm_write.IH by (simp add: vm_ok_def vm_inv_def)
  then show ?case using beside_tables_ok [OF vm_write.IH, of "mm v" mem] vm_write.hyps(2) by simp
qed

lemma vm_reachable_inv: "bitvec_laws B \<Longrightarrow> vm_reachable B v maps \<Longrightarrow> vm_inv B v maps"
  using vm_reachable_ok unfolding vm_ok_def by blast

section \<open>Properties\<close>

text \<open>A machine with two processes and thirteen free pages.\<close>

lemma two_spaces:
  obtains v mp mq where "vm_reachable fun_bits v {mp, mq}" "mp \<noteq> mq" "get_pid mp = nz_lit 2" "get_pid mq = nz_lit 3"
    "13 \<le> card (free_pages fun_bits (mm v))" "\<And>va. translation (ram v) (ttbr0 mp) va = None"
    "\<And>va. translation (ram v) (ttbr0 mq) va = None"
proof -
  define v0 :: "(nat \<Rightarrow> bool) vm" where "v0 = \<lparr>mm = booted, ram = (\<lambda>_. 0)\<rparr>"
  have R0: "vm_reachable fun_bits v0 {}"
    unfolding v0_def by (rule vm_boot [OF booted_reachable [of allow_all_pages]])
  have c0: "card (free_pages fun_bits (mm v0)) = 15" by (simp only: v0_def vm.simps booted_free) simp
  define blank :: memory_mapping where "blank = \<lparr>ttbr0 = 0, mapping_pid = 0, aslr_slide = 0\<rparr>"
  show thesis
    using fun_bits_laws vm_reachable_inv [OF fun_bits_laws R0]
  proof (cases rule: mapping_allocate_cases [where p = "nz_lit 2" and mp = blank])
    case oom
    then show thesis using c0 by simp
  next
    case one: (ok mp v1)
    have R1: "vm_reachable fun_bits v1 {mp}" using vm_create [OF R0 one(1)] .
    show thesis
      using fun_bits_laws vm_reachable_inv [OF fun_bits_laws R1]
    proof (cases rule: mapping_allocate_cases [where p = "nz_lit 3" and mp = blank])
      case oom
      then show thesis using c0 one(8) by simp
    next
      case two: (ok mq v2)
      have R2: "vm_reachable fun_bits v2 {mp, mq}" using vm_create [OF R1 two(1)] by (simp add: insert_commute)
      have "translation (ram v2) (ttbr0 mp) va = None" for va using two(7) [of mp va] one(6) by simp
      then show thesis using that [OF R2] one(4,8) two(3,4,6,8) c0 by auto
    qed
  qed
qed

lemma map_page_succeeds:
  assumes "vm_reachable fun_bits v maps" "mp \<in> maps" "2 \<le> card (free_pages fun_bits (mm v))"
  obtains v' where "map_page fun_bits mp phys va flags user v = (Ok (), v')" "vm_reachable fun_bits v' maps"
    "translation (ram v') (ttbr0 mp) va = Some (page_entry phys flags user)"
    "card (free_pages fun_bits (mm v)) \<le> card (free_pages fun_bits (mm v')) + 2"
  using fun_bits_laws vm_reachable_inv [OF fun_bits_laws assms(1)] assms(2)
proof (cases rule: map_page_cases [where phys = phys and va = va and flags = flags and user = user])
  case (oom u)
  then show thesis using assms(3) by simp
next
  case (ok u)
  then show thesis using that [of u] vm_map [OF assms(1,2) ok(1)] assms(2) by simp
qed

text \<open>
  Property C7: mapping a page changes the translation of exactly one page of one
  address space, to the given physical page and permissions; no other address space
  and no other page of this one is affected, and memory changes only in pages that
  belong to the process.  The call fails only with \<open>OutOfMemory\<close>, when fewer than two
  pages are free, and then no translation changes.
\<close>

theorem map_page_changes_one_page:
  assumes "bitvec_laws B" "vm_reachable B v maps" "mp \<in> maps" "map_page B mp phys va flags user v = (r, v')"
  shows "vm_extends (get_pid mp) v v' \<and>
    (r = Ok () \<and> (\<forall>mq\<in>maps. \<forall>vb. translation (ram v') (ttbr0 mq) vb =
       (if mq = mp \<and> vpage vb = vpage va then Some (page_entry phys flags user)
        else translation (ram v) (ttbr0 mq) vb)) \<or>
     r = Err OutOfMemory \<and> card (free_pages B (mm v)) < 2 \<and>
       (\<forall>mq\<in>maps. \<forall>vb. translation (ram v') (ttbr0 mq) vb = translation (ram v) (ttbr0 mq) vb))"
  using assms(1) vm_reachable_inv [OF assms(1,2)] assms(3)
proof (cases rule: map_page_cases [where phys = phys and va = va and flags = flags and user = user])
  case (oom u)
  then show ?thesis using assms(4) by auto
next
  case (ok u)
  have "u = v'" "r = Ok ()" using ok(1) assms(4) by auto
  then show ?thesis using ok(3,4) by blast
qed

theorem map_page_changes_one_page_witness:
  "\<exists>v mp mq v'. vm_reachable fun_bits v {mp, mq} \<and> mp \<noteq> mq \<and>
    map_page fun_bits mp 0x40010000 0x300000000000 FLAG_W True v = (Ok (), v') \<and>
    translation (ram v') (ttbr0 mp) 0x300000000008 = Some (page_entry 0x40010000 FLAG_W True) \<and>
    translation (ram v') (ttbr0 mq) 0x300000000000 = None"
proof -
  obtain v mp mq where v: "vm_reachable fun_bits v {mp, mq}" "mp \<noteq> mq" "13 \<le> card (free_pages fun_bits (mm v))"
      "\<And>va. translation (ram v) (ttbr0 mq) va = None"
    using two_spaces by metis
  obtain r v' where e: "map_page fun_bits mp 0x40010000 0x300000000000 FLAG_W True v = (r, v')" by fastforce
  have P: "vpage 0x300000000008 = vpage 0x300000000000" by (simp add: vpage_def)
  note T = map_page_changes_one_page [OF fun_bits_laws v(1) _ e]
  have r: "r = Ok ()" using T v(3) by auto
  have "translation (ram v') (ttbr0 mp) 0x300000000008 = Some (page_entry 0x40010000 FLAG_W True)"
    using T r P by simp
  moreover have "translation (ram v') (ttbr0 mq) 0x300000000000 = None"
    using T r v(2,4) by simp
  ultimately show ?thesis using v(1,2) e r by blast
qed

text \<open>
  Property C25: \<open>virt_to_phys\<close> after \<open>map_page\<close> gives the physical page with the offset
  of the address; after \<open>unmap_page\<close> it reports \<open>BadAddress\<close> again, and every other
  address of every process translates as before the two calls.
\<close>

theorem map_translate_unmap:
  assumes "bitvec_laws B" "vm_reachable B v maps" "mp \<in> maps"
    and "map_page B mp phys va flags user v = (Ok (), v1)" "unmap_page mp va v1 = (r, v2)"
  shows "virt_to_phys v1 mp va = Ok ((phys AND PTE_ADDR_MASK) OR (va AND of_nat (PAGE_SIZE - 1))) \<and>
    r = Ok () \<and> virt_to_phys v2 mp va = Err BadAddress \<and>
    (\<forall>mq\<in>maps. \<forall>vb. mq \<noteq> mp \<or> vpage vb \<noteq> vpage va \<longrightarrow> virt_to_phys v2 mq vb = virt_to_phys v mq vb)"
proof -
  have R1: "vm_reachable B v1 maps" using vm_map [OF assms(2-4)] .
  have t1: "\<forall>mq\<in>maps. \<forall>vb. translation (ram v1) (ttbr0 mq) vb =
      (if mq = mp \<and> vpage vb = vpage va then Some (page_entry phys flags user) else translation (ram v) (ttbr0 mq) vb)"
    using assms(1) vm_reachable_inv [OF assms(1,2)] assms(3)
  proof (cases rule: map_page_cases [where phys = phys and va = va and flags = flags and user = user])
    case (ok u)
    have "u = v1" using ok(1) assms(4) by auto
    then show ?thesis using ok(4) by blast
  qed (use assms(4) in simp)
  have m1: "translation (ram v1) (ttbr0 mp) va = Some (page_entry phys flags user)" using t1 assms(3) by simp
  have t2: "r = Ok () \<and> (\<forall>mq\<in>maps. \<forall>vb. translation (ram v2) (ttbr0 mq) vb =
      (if mq = mp \<and> vpage vb = vpage va then None else translation (ram v1) (ttbr0 mq) vb))"
    using vm_reachable_inv [OF assms(1) R1] assms(3)
  proof (cases rule: unmap_page_cases [where va = va])
    case unmapped
    then show ?thesis using m1 by simp
  next
    case (ok u)
    have "u = v2" "r = Ok ()" using ok(1) assms(5) by auto
    then show ?thesis using ok(5) by blast
  qed
  have "translation (ram v2) (ttbr0 mp) va = None" using t2 assms(3) by simp
  moreover have "translation (ram v2) (ttbr0 mq) vb = translation (ram v) (ttbr0 mq) vb"
    if "mq \<in> maps" "mq \<noteq> mp \<or> vpage vb \<noteq> vpage va" for mq vb
    using t1 t2 that by auto
  ultimately show ?thesis using m1 t2 by (simp add: virt_to_phys_translation)
qed

theorem map_translate_unmap_witness:
  "\<exists>v mp mq v1 v2. vm_reachable fun_bits v {mp, mq} \<and>
    map_page fun_bits mp 0x40010000 0x300000000000 FLAG_W True v = (Ok (), v1) \<and>
    unmap_page mp 0x300000000000 v1 = (Ok (), v2) \<and>
    virt_to_phys v1 mp 0x300000000000 = Ok 0x40010000 \<and> virt_to_phys v2 mp 0x300000000000 = Err BadAddress"
proof -
  obtain v mp mq where v: "vm_reachable fun_bits v {mp, mq}" "13 \<le> card (free_pages fun_bits (mm v))"
    using two_spaces by metis
  have mp: "mp \<in> {mp, mq}" and two: "2 \<le> card (free_pages fun_bits (mm v))" using v(2) by simp_all
  obtain v1 where e: "map_page fun_bits mp 0x40010000 0x300000000000 FLAG_W True v = (Ok (), v1)"
    using map_page_succeeds [OF v(1) mp two] by metis
  obtain r v2 where u: "unmap_page mp 0x300000000000 v1 = (r, v2)" by fastforce
  from map_translate_unmap [OF fun_bits_laws v(1) mp e u] show ?thesis
    using v(1) e u by (auto simp: PTE_ADDR_MASK_def PAGE_SIZE_def)
qed

text \<open>
  Property C8: W^X.  After any sequence of operations on the address spaces and the
  allocator, exits of processes and writes to memory, no page is both writable and
  executable for a user program, nor executable for the kernel if a user program can reach
  it; provided that no page that holds a page table was written by anything but these
  operations, nor released, claimed or moved while its process exists.  The kernel does not
  enforce that proviso in every case: a page that its owner unmaps while it is lent is
  free for a new table although the borrower can still write to it.
\<close>

theorem user_pages_wx:
  assumes "bitvec_laws B" "vm_reachable B v maps" "mp \<in> maps" "translation (ram v) (ttbr0 mp) va = Some e"
  shows "\<not> (el0_writable e \<and> el0_executable e) \<and> \<not> (el0_readable e \<and> el1_executable e) \<and>
    (el0_writable e \<longrightarrow> el0_readable e) \<and> (el0_executable e \<longrightarrow> el0_readable e)"
proof -
  obtain phys flags user where "e = page_entry phys flags user"
    using vm_reachable_ok [OF assms(1,2)] assms(3,4) unfolding vm_ok_def by blast
  then show ?thesis by (auto simp: access_defs page_entry_attr_bit flags_to_pte_bits)
qed

theorem user_pages_wx_witness:
  "\<exists>v mp mq v1 e. vm_reachable fun_bits v1 {mp, mq} \<and>
    map_page fun_bits mp 0x40010000 0x10000 (flags_or FLAG_W FLAG_X) True v = (Ok (), v1) \<and>
    translation (ram v1) (ttbr0 mp) 0x10000 = Some e \<and> el0_writable e \<and> \<not> el0_executable e"
proof -
  obtain v mp mq where v: "vm_reachable fun_bits v {mp, mq}" "13 \<le> card (free_pages fun_bits (mm v))"
    using two_spaces by metis
  have mp: "mp \<in> {mp, mq}" and two: "2 \<le> card (free_pages fun_bits (mm v))" using v(2) by simp_all
  let ?f = "flags_or FLAG_W FLAG_X"
  obtain v1 where e: "map_page fun_bits mp 0x40010000 0x10000 ?f True v = (Ok (), v1)"
    "translation (ram v1) (ttbr0 mp) 0x10000 = Some (page_entry 0x40010000 ?f True)"
    using map_page_succeeds [OF v(1) mp two] by metis
  have R: "vm_reachable fun_bits v1 {mp, mq}" using vm_map [OF v(1) mp e(1)] .
  have "flags_is_set ?f FLAG_W"
    by (simp add: flags_is_set_def flags_and_def flags_or_def FLAG_W_def FLAG_X_def)
  then have "el0_writable (page_entry 0x40010000 ?f True)"
    by (simp add: access_defs page_entry_attr_bit flags_to_pte_bits)
  with user_pages_wx [OF fun_bits_laws R mp e(2)] show ?thesis using R e by blast
qed

text \<open>
  Property C26: lending.  The borrower gets a mapping of the lender's physical page,
  writable only for a mutable lend and never executable.  The lender's own mapping is
  left as it is: it is neither removed nor made read-only while the page is lent.
  Returning the page removes the borrower's mapping and nothing else.
\<close>

theorem lend_and_return:
  assumes "bitvec_laws B" "vm_reachable B v maps" "src \<in> maps" "dest \<in> maps" "src \<noteq> dest"
    and "lend_page B src a dest b mutable v = (Ok (), v1)" "return_page dest b src a v1 = (r, v2)"
  shows "(\<exists>e f. translation (ram v) (ttbr0 src) a = Some e \<and> translation (ram v1) (ttbr0 dest) b = Some f \<and>
      f AND PTE_ADDR_MASK = e AND PTE_ADDR_MASK \<and> el0_writable f = mutable \<and> el0_readable f \<and> \<not> el0_executable f \<and>
      translation (ram v1) (ttbr0 src) a = Some e) \<and>
    r = Ok () \<and> (\<forall>mq\<in>maps. \<forall>vb. translation (ram v2) (ttbr0 mq) vb =
      (if mq = dest \<and> vpage vb = vpage b then None else translation (ram v) (ttbr0 mq) vb))"
proof -
  obtain e where e: "translation (ram v) (ttbr0 src) a = Some e"
    using assms(6) by (cases "translation (ram v) (ttbr0 src) a") (auto simp: lend_page_def virt_to_phys_translation)
  let ?phys = "(e AND PTE_ADDR_MASK) OR (a AND of_nat (PAGE_SIZE - 1))"
  let ?fl = "if mutable then FLAG_W else flags_empty"
  have map: "map_page B dest ?phys b ?fl True v = (Ok (), v1)"
    using assms(6) e by (simp add: lend_page_def virt_to_phys_translation)
  have R1: "vm_reachable B v1 maps" using vm_lend [OF assms(2-4,6)] .
  have t1: "\<forall>mq\<in>maps. \<forall>vb. translation (ram v1) (ttbr0 mq) vb =
      (if mq = dest \<and> vpage vb = vpage b then Some (page_entry ?phys ?fl True) else translation (ram v) (ttbr0 mq) vb)"
    using assms(1) vm_reachable_inv [OF assms(1,2)] assms(4)
  proof (cases rule: map_page_cases [where phys = ?phys and va = b and flags = ?fl and user = True])
    case (ok u)
    have "u = v1" using ok(1) map by auto
    then show ?thesis using ok(4) by blast
  qed (use map in simp)
  have ret: "r = Ok () \<and> (\<forall>mq\<in>maps. \<forall>vb. translation (ram v2) (ttbr0 mq) vb =
      (if mq = dest \<and> vpage vb = vpage b then None else translation (ram v1) (ttbr0 mq) vb))"
    using vm_reachable_inv [OF assms(1) R1] assms(4)
  proof (cases rule: unmap_page_cases [where va = b])
    case unmapped
    then show ?thesis using t1 assms(4) by simp
  next
    case (ok u)
    have "u = v2" "r = Ok ()" using ok(1) assms(7) by (auto simp: return_page_def)
    then show ?thesis using ok(5) by blast
  qed
  have low: "a AND of_nat (PAGE_SIZE - 1) AND PTE_ADDR_MASK = 0"
    by (simp add: PTE_ADDR_MASK_def PAGE_SIZE_def and.assoc)
  have w: "flags_is_set ?fl FLAG_W = mutable" "\<not> flags_is_set ?fl FLAG_X"
    by (simp_all add: flags_is_set_def flags_and_def flags_empty_def FLAG_W_def FLAG_X_def)
  have frame: "page_entry ?phys ?fl True AND PTE_ADDR_MASK = e AND PTE_ADDR_MASK"
    using low by (simp add: bit.conj_disj_distrib2 and.assoc)
  have acc: "el0_writable (page_entry ?phys ?fl True) = mutable" "el0_readable (page_entry ?phys ?fl True)"
      "\<not> el0_executable (page_entry ?phys ?fl True)"
    using w by (simp_all add: access_defs page_entry_attr_bit flags_to_pte_bits)
  show ?thesis
    using e t1 ret assms(3-5) frame acc by auto
qed

theorem lend_and_return_witness:
  "\<exists>v src dest v1 v2. vm_reachable fun_bits v {src, dest} \<and> src \<noteq> dest \<and>
    lend_page fun_bits src 0x300000000000 dest 0x300000004000 False v = (Ok (), v1) \<and>
    return_page dest 0x300000004000 src 0x300000000000 v1 = (Ok (), v2) \<and>
    translation (ram v2) (ttbr0 dest) 0x300000004000 = None"
proof -
  obtain v mp mq where v: "vm_reachable fun_bits v {mp, mq}" "mp \<noteq> mq" "13 \<le> card (free_pages fun_bits (mm v))"
    using two_spaces by metis
  have in2: "mp \<in> {mp, mq}" "mq \<in> {mp, mq}" by simp_all
  obtain u where u: "map_page fun_bits mp 0x40010000 0x300000000000 FLAG_W True v = (Ok (), u)"
      "11 \<le> card (free_pages fun_bits (mm u))"
      "translation (ram u) (ttbr0 mp) 0x300000000000 = Some (page_entry 0x40010000 FLAG_W True)"
  proof -
    have two: "2 \<le> card (free_pages fun_bits (mm v))" using v(3) by simp
    obtain u where "map_page fun_bits mp 0x40010000 0x300000000000 FLAG_W True v = (Ok (), u)"
      "translation (ram u) (ttbr0 mp) 0x300000000000 = Some (page_entry 0x40010000 FLAG_W True)"
      "card (free_pages fun_bits (mm v)) \<le> card (free_pages fun_bits (mm u)) + 2"
      using map_page_succeeds [OF v(1) in2(1) two] by metis
    then show ?thesis using that [of u] v(3) by simp
  qed
  have R: "vm_reachable fun_bits u {mp, mq}" using vm_map [OF v(1) in2(1) u(1)] .
  obtain v1 where l: "lend_page fun_bits mp 0x300000000000 mq 0x300000004000 False u = (Ok (), v1)"
  proof -
    have two: "2 \<le> card (free_pages fun_bits (mm u))" using u(2) by simp
    obtain w where "map_page fun_bits mq ((page_entry 0x40010000 FLAG_W True AND PTE_ADDR_MASK) OR
        (0x300000000000 AND of_nat (PAGE_SIZE - 1))) 0x300000004000 flags_empty True u = (Ok (), w)"
      using map_page_succeeds [OF R in2(2) two] by metis
    then show ?thesis using that [of w] u(3) by (simp add: lend_page_def virt_to_phys_translation del: page_entry_simps)
  qed
  obtain r v2 where ret: "return_page mq 0x300000004000 mp 0x300000000000 v1 = (r, v2)" by fastforce
  note T = lend_and_return [OF fun_bits_laws R in2 v(2) l ret]
  have "r = Ok ()" "translation (ram v2) (ttbr0 mq) 0x300000004000 = None" using T by auto
  then show ?thesis using R v(2) l ret by blast
qed

end
