(* ===== verification/Display_State.thy ===== *)
theory Display_State
  imports Xous_Defs Fifo_Contract
begin

text \<open>
  Ownership of the display and of the keyboard: \<open>DisplayState\<close> of
  \<open>xous/kernel/src/services.rs\<close>, with its two ring buffers.  The queue of waiting
  threads is an instance of the queue contract; the keyboard buffer keeps the last
  64 bytes.
\<close>

section \<open>State\<close>

definition DISPLAY_WAITER_MAX :: nat where "DISPLAY_WAITER_MAX = 16"
definition INPUT_BUF_CAP :: nat where "INPUT_BUF_CAP = 64"

record display_state =
  owner :: "(pid \<times> nat) option"
  cursor_row :: usize
  cursor_col :: usize
  waiters :: "(pid \<times> nat) list"
  waiter_head :: nat
  waiter_count :: nat
  input_sid :: "sid option"
  input_buf :: "u8 list"
  input_head :: nat
  input_count :: nat

definition display_new :: display_state where
  "display_new =
    \<lparr>owner = None, cursor_row = 0, cursor_col = 0,
     waiters = replicate DISPLAY_WAITER_MAX (nz_lit 1, 0), waiter_head = 0, waiter_count = 0,
     input_sid = None, input_buf = replicate INPUT_BUF_CAP 0, input_head = 0, input_count = 0\<rparr>"

section \<open>Operations\<close>

definition push_waiter :: "display_state \<Rightarrow> pid \<times> nat \<Rightarrow> bool \<times> display_state" where
  "push_waiter d x =
    (if waiter_count d \<ge> DISPLAY_WAITER_MAX then (False, d)
     else (True, d\<lparr>waiters := (waiters d)[(waiter_head d + waiter_count d) mod DISPLAY_WAITER_MAX := x],
                   waiter_count := waiter_count d + 1\<rparr>))"

definition pop_waiter :: "display_state \<Rightarrow> (pid \<times> nat) option \<times> display_state" where
  "pop_waiter d =
    (if waiter_count d = 0 then (None, d)
     else (Some (waiters d ! waiter_head d),
           d\<lparr>waiter_head := (waiter_head d + 1) mod DISPLAY_WAITER_MAX,
             waiter_count := waiter_count d - 1\<rparr>))"

definition set_input_focus :: "sid \<Rightarrow> display_state \<Rightarrow> display_state" where
  "set_input_focus s d = d\<lparr>input_sid := Some s\<rparr>"

definition clear_input_focus :: "display_state \<Rightarrow> display_state" where
  "clear_input_focus d = d\<lparr>input_sid := None\<rparr>"

definition push_input_char :: "u8 \<Rightarrow> display_state \<Rightarrow> display_state" where
  "push_input_char c d =
    (if input_count d < INPUT_BUF_CAP then
       d\<lparr>input_buf := (input_buf d)[(input_head d + input_count d) mod INPUT_BUF_CAP := c],
         input_count := input_count d + 1\<rparr>
     else
       d\<lparr>input_buf := (input_buf d)[input_head d := c],
         input_head := (input_head d + 1) mod INPUT_BUF_CAP\<rparr>)"

text \<open>The bytes copied to the front of \<open>out\<close>; their number is the result of the call.\<close>

definition drain_input_buf :: "display_state \<Rightarrow> u8 list \<times> display_state" where
  "drain_input_buf d =
    (map (\<lambda>i. input_buf d ! ((input_head d + i) mod INPUT_BUF_CAP)) [0 ..< input_count d],
     d\<lparr>input_head := 0, input_count := 0\<rparr>)"

section \<open>Ring buffers\<close>

text \<open>The contents of a ring of capacity \<open>length xs\<close> with \<open>n\<close> elements from position \<open>h\<close>.\<close>

definition ring_list :: "'a list \<Rightarrow> nat \<Rightarrow> nat \<Rightarrow> 'a list" where
  "ring_list xs h n = map (\<lambda>i. xs ! ((h + i) mod length xs)) [0 ..< n]"

lemma ring_list_length [simp]: "length (ring_list xs h n) = n"
  by (simp add: ring_list_def)

lemma ring_list_nth [simp]: "i < n \<Longrightarrow> ring_list xs h n ! i = xs ! ((h + i) mod length xs)"
  by (simp add: ring_list_def)

lemma ring_list_0 [simp]: "ring_list xs h 0 = []"
  by (simp add: ring_list_def)

lemma ring_index_inject:
  assumes "i < m" "j < m" "(h + i) mod m = (h + j) mod (m :: nat)"
  shows "i = j"
  using assms
proof (induction i j rule: linorder_wlog)
  case (le i j)
  then have "m dvd (h + j) - (h + i)"
    using mod_eq_dvd_iff_nat [of "h + i" "h + j" m] by simp
  then have "m dvd j - i" by simp
  moreover have "j - i < m" using le by simp
  ultimately have "j - i = 0" using dvd_imp_le [of m "j - i"] by linarith
  then show ?case using le by simp
next
  case (sym i j)
  then show ?case by simp
qed

lemma ring_push:
  assumes "n < length xs"
  shows "ring_list (xs[(h + n) mod length xs := x]) h (Suc n) = ring_list xs h n @ [x]"
proof (rule nth_equalityI)
  fix i assume "i < length (ring_list (xs[(h + n) mod length xs := x]) h (Suc n))"
  then have i: "i < Suc n" by simp
  have "(h + n) mod length xs < length xs" using assms by (intro mod_less_divisor) linarith
  moreover have "(h + n) mod length xs \<noteq> (h + i) mod length xs" if "i < n"
    using ring_index_inject [of n "length xs" i h] assms that by auto
  ultimately show "ring_list (xs[(h + n) mod length xs := x]) h (Suc n) ! i = (ring_list xs h n @ [x]) ! i"
    using i by (cases "i = n") (simp_all add: nth_append)
qed simp

lemma ring_pop:
  "ring_list xs h (Suc n) = xs ! (h mod length xs) # ring_list xs ((h + 1) mod length xs) n"
proof (rule nth_equalityI)
  fix i assume i: "i < length (ring_list xs h (Suc n))"
  show "ring_list xs h (Suc n) ! i = (xs ! (h mod length xs) # ring_list xs ((h + 1) mod length xs) n) ! i"
    using i by (cases i) (simp_all add: mod_add_left_eq mod_Suc_eq)
qed simp

lemma ring_overwrite:
  assumes "h < length xs"
  shows "ring_list (xs[h := x]) ((h + 1) mod length xs) (length xs) = tl (ring_list xs h (length xs)) @ [x]"
proof -
  obtain n where n: "length xs = Suc n" using assms by (cases "length xs") auto
  have pos: "((h + 1) mod length xs + n) mod length xs = h"
  proof -
    have "((h + 1) mod length xs + n) mod length xs = (h + Suc n) mod Suc n"
      by (simp add: n mod_add_left_eq)
    also have "\<dots> = h mod Suc n" by (rule mod_add_self2)
    finally show ?thesis using assms n by simp
  qed
  have "ring_list (xs[h := x]) ((h + 1) mod length xs) (Suc n) = ring_list xs ((h + 1) mod length xs) n @ [x]"
    using ring_push [of n xs "(h + 1) mod length xs" x] pos n by simp
  moreover have "tl (ring_list xs h (length xs)) = ring_list xs ((h + 1) mod length xs) n"
    using ring_pop [of xs h n] n by simp
  ultimately show ?thesis using n by simp
qed

section \<open>The queue of waiting threads\<close>

definition display_inv :: "display_state \<Rightarrow> bool" where
  "display_inv d \<longleftrightarrow>
    length (waiters d) = DISPLAY_WAITER_MAX \<and> waiter_head d < DISPLAY_WAITER_MAX \<and>
    waiter_count d \<le> DISPLAY_WAITER_MAX \<and> length (input_buf d) = INPUT_BUF_CAP \<and>
    input_head d < INPUT_BUF_CAP \<and> input_count d \<le> INPUT_BUF_CAP"

definition waiting :: "display_state \<Rightarrow> (pid \<times> nat) list" where
  "waiting d = ring_list (waiters d) (waiter_head d) (waiter_count d)"

definition typed_ahead :: "display_state \<Rightarrow> u8 list" where
  "typed_ahead d = ring_list (input_buf d) (input_head d) (input_count d)"

lemma display_new_inv: "display_inv display_new" "waiting display_new = []" "typed_ahead display_new = []"
  by (simp_all add: display_inv_def display_new_def waiting_def typed_ahead_def DISPLAY_WAITER_MAX_def
      INPUT_BUF_CAP_def)

definition waiter_enq :: "display_state \<Rightarrow> pid \<times> nat \<Rightarrow> display_state option" where
  "waiter_enq d x = (case push_waiter d x of (True, d') \<Rightarrow> Some d' | (False, _) \<Rightarrow> None)"

definition waiter_deq :: "display_state \<Rightarrow> ((pid \<times> nat) \<times> display_state) option" where
  "waiter_deq d = (case pop_waiter d of (Some x, d') \<Rightarrow> Some (x, d') | (None, _) \<Rightarrow> None)"

interpretation waiter_queue: fifo_queue display_inv waiting waiter_enq waiter_deq
proof unfold_locales
  show "display_inv s' \<and> waiting s' = waiting s @ [x]"
    if "display_inv s" "waiter_enq s x = Some s'" for s x s'
    using that ring_push [of "waiter_count s" "waiters s" "waiter_head s" x]
    by (auto simp: waiter_enq_def push_waiter_def display_inv_def waiting_def split: if_splits)
  show "display_inv s' \<and> waiting s = x # waiting s'"
    if "display_inv s" "waiter_deq s = Some (x, s')" for s x s'
    using that ring_pop [of "waiters s" "waiter_head s" "waiter_count s - 1"]
    by (auto simp: waiter_deq_def pop_waiter_def display_inv_def waiting_def DISPLAY_WAITER_MAX_def
        split: if_splits)
  show "waiter_deq s = None \<longleftrightarrow> waiting s = []" if "display_inv s" for s
    using that by (auto simp: waiter_deq_def pop_waiter_def waiting_def ring_list_def)
qed

lemma waiter_enq_full: "waiter_enq d x = None \<longleftrightarrow> DISPLAY_WAITER_MAX \<le> waiter_count d"
  by (simp add: waiter_enq_def push_waiter_def)

lemma push_waiter_inv: "display_inv d \<Longrightarrow> display_inv (snd (push_waiter d x))"
  using waiter_queue.enq_refines [of d x] by (auto simp: waiter_enq_def push_waiter_def split: if_splits)

lemma pop_waiter_inv: "display_inv d \<Longrightarrow> display_inv (snd (pop_waiter d))"
  using waiter_queue.deq_refines [of d] by (auto simp: waiter_deq_def pop_waiter_def split: if_splits)

section \<open>The keyboard buffer\<close>

lemma drain_typed_ahead:
  "display_inv d \<Longrightarrow> fst (drain_input_buf d) = typed_ahead d"
  by (simp add: drain_input_buf_def typed_ahead_def ring_list_def display_inv_def)

lemma drain_inv: "display_inv d \<Longrightarrow> display_inv (snd (drain_input_buf d)) \<and> typed_ahead (snd (drain_input_buf d)) = []"
  by (simp add: drain_input_buf_def typed_ahead_def display_inv_def INPUT_BUF_CAP_def)

lemma push_input_char_refines:
  assumes "display_inv d"
  shows "display_inv (push_input_char c d) \<and>
    typed_ahead (push_input_char c d) =
      drop (length (typed_ahead d @ [c]) - INPUT_BUF_CAP) (typed_ahead d @ [c])"
proof (cases "input_count d < INPUT_BUF_CAP")
  case True
  then show ?thesis
    using assms ring_push [of "input_count d" "input_buf d" "input_head d" c]
    by (simp add: push_input_char_def display_inv_def typed_ahead_def)
next
  case False
  then have n: "input_count d = length (input_buf d)" and h: "input_head d < length (input_buf d)"
    using assms by (simp_all add: display_inv_def)
  have ne: "typed_ahead d \<noteq> []" and len: "length (typed_ahead d) = INPUT_BUF_CAP"
    using n h assms by (auto simp: typed_ahead_def display_inv_def simp flip: length_0_conv)
  show ?thesis
    using False assms ring_overwrite [OF h, of c] n ne len
    by (simp add: push_input_char_def display_inv_def typed_ahead_def drop_Suc)
qed

definition last_n :: "nat \<Rightarrow> 'a list \<Rightarrow> 'a list" where
  "last_n n xs = drop (length xs - n) xs"

lemma last_n_snoc: "last_n n (last_n n xs @ ys) = last_n n (xs @ ys)"
proof (cases "length xs \<le> n")
  case False
  then show ?thesis by (simp add: last_n_def add.commute)
qed (simp add: last_n_def)

lemma push_input_chars:
  "display_inv d \<Longrightarrow> display_inv (fold push_input_char cs d) \<and>
     typed_ahead (fold push_input_char cs d) = last_n INPUT_BUF_CAP (typed_ahead d @ cs)"
proof (induction cs arbitrary: d)
  case Nil
  then show ?case by (simp add: last_n_def display_inv_def typed_ahead_def)
next
  case (Cons c cs)
  have "typed_ahead (push_input_char c d) = last_n INPUT_BUF_CAP (typed_ahead d @ [c])"
    using push_input_char_refines [OF Cons.prems] by (simp add: last_n_def)
  then show ?case
    using Cons.IH [of "push_input_char c d"] push_input_char_refines [OF Cons.prems, of c]
      last_n_snoc [of INPUT_BUF_CAP "typed_ahead d @ [c]" cs] by simp
qed

text \<open>Property C40: the keyboard ring buffer behaves like the plain list of the characters typed
  since the last drain, cut to its last 64 elements: after any sequence of key presses on a
  well-formed state, draining yields the final 64 characters of what was buffered before followed
  by the keys, in the order they were typed, and leaves the buffer empty.\<close>

theorem keyboard_buffer_equivalence:
  assumes "display_inv d"
  shows "fst (drain_input_buf (fold push_input_char cs d)) =
      last_n INPUT_BUF_CAP (fst (drain_input_buf d) @ cs) \<and>
    fst (drain_input_buf (snd (drain_input_buf (fold push_input_char cs d)))) = []"
  using push_input_chars [OF assms, of cs] drain_typed_ahead [OF assms]
    drain_typed_ahead [of "fold push_input_char cs d"] drain_inv [of "fold push_input_char cs d"]
    drain_typed_ahead [of "snd (drain_input_buf (fold push_input_char cs d))"]
  by simp

theorem keyboard_buffer_equivalence_witness:
  "fst (drain_input_buf (fold push_input_char [104, 105] display_new)) = [104, 105]"
  using keyboard_buffer_equivalence [OF display_new_inv(1), of "[104, 105]"]
  by (simp add: drain_typed_ahead [OF display_new_inv(1)] display_new_inv(3) last_n_def INPUT_BUF_CAP_def
)

end
