(* ===== verification/Interrupts.thy ===== *)
theory Interrupts
  imports Xous_Defs
begin

text \<open>
  The table of interrupt handlers, \<open>xous/kernel/src/irq.rs\<close>, and the interrupt numbers
  of \<open>xous-rs/src/arch/aarch64/irq.rs\<close>.  The lines the interrupt controller lets
  through (\<open>arch::irq::enable_irq\<close> and \<open>disable_irq\<close>) are a list of flags.
\<close>

section \<open>Interrupt numbers\<close>

datatype irq_number = IrqTimer | IrqSpi0 | IrqSpi1 | IrqUart0 | IrqNvme | IrqDart | IrqUsb | IrqWifi

fun irq_index :: "irq_number \<Rightarrow> nat" where
  "irq_index IrqTimer = 1"
| "irq_index IrqSpi0 = 2"
| "irq_index IrqSpi1 = 3"
| "irq_index IrqUart0 = 4"
| "irq_index IrqNvme = 5"
| "irq_index IrqDart = 6"
| "irq_index IrqUsb = 7"
| "irq_index IrqWifi = 8"

definition irq_number_from :: "usize \<Rightarrow> irq_number kresult" where
  "irq_number_from v =
    (if v = 1 then Ok IrqTimer
     else if v = 2 then Ok IrqSpi0
     else if v = 3 then Ok IrqSpi1
     else if v = 4 then Ok IrqUart0
     else if v = 5 then Ok IrqNvme
     else if v = 6 then Ok IrqDart
     else if v = 7 then Ok IrqUsb
     else if v = 8 then Ok IrqWifi
     else Err InvalidLimit)"

lemma irq_number_from_index [simp]: "irq_number_from (of_nat (irq_index n)) = Ok n"
  by (cases n) (simp_all add: irq_number_from_def)

lemma irq_index_bounds: "1 \<le> irq_index n" "irq_index n \<le> 8"
  by (cases n; simp)+

lemma irq_index_inject: "irq_index m = irq_index n \<longleftrightarrow> m = n"
  by (cases m; cases n) simp_all

section \<open>The table\<close>

text \<open>A kernel handler is a function pointer; it is represented by its index.\<close>

datatype irq_handler =
    IrqFree
  | IrqUser pid memory_address "memory_address option"
  | IrqKernel nat

definition IRQ_COUNT :: nat where "IRQ_COUNT = 32"

record irq_table =
  handlers :: "irq_handler list"
  irq_enabled :: "bool list"

definition irq_table_init :: irq_table where
  "irq_table_init = \<lparr>handlers = replicate IRQ_COUNT IrqFree, irq_enabled = replicate IRQ_COUNT False\<rparr>"

definition set_handler :: "nat \<Rightarrow> irq_handler \<Rightarrow> bool \<Rightarrow> irq_table \<Rightarrow> irq_table" where
  "set_handler i h on t = \<lparr>handlers = (handlers t)[i := h], irq_enabled = (irq_enabled t)[i := on]\<rparr>"

definition interrupt_claim_kernel :: "irq_number \<Rightarrow> nat \<Rightarrow> irq_table \<Rightarrow> unit kresult \<times> irq_table" where
  "interrupt_claim_kernel irq f t =
    (if handlers t ! irq_index irq \<noteq> IrqFree then (Panic, t)
     else (Ok (), set_handler (irq_index irq) (IrqKernel f) True t))"

definition interrupt_claim_user ::
  "irq_number \<Rightarrow> pid \<Rightarrow> memory_address \<Rightarrow> memory_address option \<Rightarrow> irq_table \<Rightarrow> unit kresult \<times> irq_table" where
  "interrupt_claim_user irq p pc arg t =
    (if handlers t ! irq_index irq \<noteq> IrqFree then (Err InterruptInUse, t)
     else (Ok (), set_handler (irq_index irq) (IrqUser p pc arg) True t))"

fun handler_of :: "pid \<Rightarrow> irq_handler \<Rightarrow> bool" where
  "handler_of p (IrqUser q _ _) \<longleftrightarrow> p = q"
| "handler_of p _ \<longleftrightarrow> False"

definition interrupt_free :: "irq_number \<Rightarrow> pid \<Rightarrow> irq_table \<Rightarrow> unit kresult \<times> irq_table" where
  "interrupt_free irq p t =
    (if handler_of p (handlers t ! irq_index irq) then (Ok (), set_handler (irq_index irq) IrqFree False t)
     else (Err InterruptNotFound, t))"

text \<open>The index is converted back to an interrupt number before the line is masked: \<open>try_into().unwrap()\<close>.\<close>

fun release_irqs :: "pid \<Rightarrow> nat list \<Rightarrow> irq_table \<Rightarrow> unit kresult \<times> irq_table" where
  "release_irqs p [] t = (Ok (), t)"
| "release_irqs p (i # is) t =
    (if handler_of p (handlers t ! i) then
       (case irq_number_from (of_nat i) of
          Ok irq \<Rightarrow> release_irqs p is (set_handler i IrqFree False t)
        | _ \<Rightarrow> (Panic, t))
     else release_irqs p is t)"

definition release_interrupts_for_pid :: "pid \<Rightarrow> irq_table \<Rightarrow> unit kresult \<times> irq_table" where
  "release_interrupts_for_pid p t = release_irqs p [0 ..< length (handlers t)] t"

section \<open>Ownership\<close>

text \<open>Processes own only lines with a number, and the line of an owned interrupt is open.\<close>

definition irq_inv :: "irq_table \<Rightarrow> bool" where
  "irq_inv t \<longleftrightarrow>
    length (handlers t) = IRQ_COUNT \<and> length (irq_enabled t) = IRQ_COUNT \<and>
    (\<forall>i < IRQ_COUNT. handlers t ! i \<noteq> IrqFree \<longrightarrow> (1 \<le> i \<and> i \<le> 8 \<and> irq_enabled t ! i))"

lemma irq_inv_init: "irq_inv irq_table_init"
  by (simp add: irq_inv_def irq_table_init_def)

lemma irq_inv_length: "irq_inv t \<Longrightarrow> irq_index irq < length (handlers t)"
  using irq_index_bounds [of irq] by (simp add: irq_inv_def IRQ_COUNT_def)

lemma set_handler_inv:
  assumes "irq_inv t" "i < IRQ_COUNT" "h \<noteq> IrqFree \<longrightarrow> (1 \<le> i \<and> i \<le> 8 \<and> on)"
  shows "irq_inv (set_handler i h on t)"
  using assms by (auto simp: irq_inv_def set_handler_def nth_list_update)

lemma irq_ops_inv:
  assumes "irq_inv t"
  shows "irq_inv (snd (interrupt_claim_kernel irq f t))"
    "irq_inv (snd (interrupt_claim_user irq p pc arg t))"
    "irq_inv (snd (interrupt_free irq p t))"
  using assms irq_index_bounds [of irq]
  by (auto simp: interrupt_claim_kernel_def interrupt_claim_user_def interrupt_free_def IRQ_COUNT_def
      intro!: set_handler_inv)

lemma irq_number_from_bounds: "1 \<le> i \<Longrightarrow> i \<le> 8 \<Longrightarrow> \<exists>n. irq_number_from (of_nat i) = Ok n"
proof -
  assume "1 \<le> i" "i \<le> 8"
  then have "i \<in> {1, 2, 3, 4, 5, 6, 7, 8}" by auto
  then show ?thesis by (auto simp: irq_number_from_def)
qed

lemma release_irqs_spec:
  assumes "irq_inv t" "\<forall>i\<in>set is. i < IRQ_COUNT"
  shows "\<exists>t'. release_irqs p is t = (Ok (), t') \<and> irq_inv t' \<and>
    (\<forall>i < IRQ_COUNT. handlers t' ! i =
       (if i \<in> set is \<and> handler_of p (handlers t ! i) then IrqFree else handlers t ! i))"
  using assms
proof (induction "is" arbitrary: t)
  case (Cons i "is")
  show ?case
  proof (cases "handler_of p (handlers t ! i)")
    case True
    then have "handlers t ! i \<noteq> IrqFree" by auto
    then have "1 \<le> i" "i \<le> 8" using Cons.prems by (auto simp: irq_inv_def)
    then obtain n where n: "irq_number_from (of_nat i) = Ok n" using irq_number_from_bounds by blast
    let ?u = "set_handler i IrqFree False t"
    have "irq_inv ?u" using Cons.prems by (intro set_handler_inv) auto
    then obtain t' where t': "release_irqs p is ?u = (Ok (), t')" "irq_inv t'"
      "\<forall>j < IRQ_COUNT. handlers t' ! j =
        (if j \<in> set is \<and> handler_of p (handlers ?u ! j) then IrqFree else handlers ?u ! j)"
      using Cons.IH [of ?u] Cons.prems(2) by auto
    have "handlers ?u ! j = (if j = i then IrqFree else handlers t ! j)" if "j < IRQ_COUNT" for j
      using Cons.prems that by (auto simp: set_handler_def nth_list_update irq_inv_def)
    then show ?thesis using t' n True by auto
  next
    case False
    then show ?thesis using Cons.IH [of t] Cons.prems by auto
  qed
qed simp

lemma release_interrupts_spec:
  assumes "irq_inv t"
  shows "\<exists>t'. release_interrupts_for_pid p t = (Ok (), t') \<and> irq_inv t' \<and>
    (\<forall>i < IRQ_COUNT. handlers t' ! i = (if handler_of p (handlers t ! i) then IrqFree else handlers t ! i))"
  using release_irqs_spec [OF assms, of "[0 ..< length (handlers t)]" p] assms
  by (auto simp: release_interrupts_for_pid_def irq_inv_def)

end
