(* ===== verification/Kernel_State.thy ===== *)
theory Kernel_State
  imports Processes Server_Queue Address_Spaces Display_State Interrupts
begin

text \<open>
  The state of the running kernel: \<open>SystemServices\<close> of \<open>xous/kernel/src/services.rs\<close>
  with the other globals its methods reach (scheduler, memory, saved contexts, interrupt
  handlers, the current process and the active address space), the lookups in its tables and the
  primitives that wake and suspend threads (\<open>services.rs\<close>, \<open>syscall.rs\<close>).
\<close>

section \<open>State\<close>

definition MAX_SERVER_COUNT :: nat where "MAX_SERVER_COUNT = 128"

record 'b kernel =
  processes :: "process option list"
  servers :: "server option list"
  sched :: scheduler
  kvm :: "'b vm"
  ptable :: process_table
  irqs :: irq_table
  display :: display_state
  panic_message :: "u8 list"
  panic_message_pid :: "pid option"
  cur_pid :: pid
  cur_map :: memory_mapping

section \<open>Processes\<close>

text \<open>\<open>process\<close> indexes the table of 64 slots with the pid minus one and panics beyond it.\<close>

definition process_of :: "'b kernel \<Rightarrow> pid \<Rightarrow> process kresult" where
  "process_of k p =
    (if pid_index p < length (processes k) then ok_or (processes k ! pid_index p) ProcessNotFound else Panic)"

definition put_process :: "pid \<Rightarrow> process \<Rightarrow> 'b kernel \<Rightarrow> 'b kernel" where
  "put_process p pr k = k\<lparr>processes := (processes k)[pid_index p := Some pr]\<rparr>"

definition free_process :: "pid \<Rightarrow> 'b kernel \<Rightarrow> unit kresult \<times> 'b kernel" where
  "free_process p k =
    (if pid_index p < length (processes k) then (Ok (), k\<lparr>processes := (processes k)[pid_index p := None]\<rparr>)
     else (Panic, k))"

text \<open>\<open>current_process()\<close> unwraps the lookup.\<close>

definition current_process :: "'b kernel \<Rightarrow> process kresult" where
  "current_process k = (case process_of k (cur_pid k) of Ok pr \<Rightarrow> Ok pr | _ \<Rightarrow> Panic)"

text \<open>A method of a process in the table, without and with a call of the scheduler.\<close>

definition with_process :: "pid \<Rightarrow> (process \<Rightarrow> 'a kresult \<times> process) \<Rightarrow> 'b kernel \<Rightarrow> 'a kresult \<times> 'b kernel" where
  "with_process p f k =
    sbind (process_of k p, k) (\<lambda>pr k. case f pr of (r, pr') \<Rightarrow> (r, put_process p pr' k))"

definition with_proc_sched ::
  "pid \<Rightarrow> (proc_sched \<Rightarrow> 'a kresult \<times> proc_sched) \<Rightarrow> 'b kernel \<Rightarrow> 'a kresult \<times> 'b kernel" where
  "with_proc_sched p f k =
    sbind (process_of k p, k) (\<lambda>pr k.
      case f (pr, sched k) of (r, (pr', s')) \<Rightarrow> (r, (put_process p pr' k)\<lparr>sched := s'\<rparr>))"

text \<open>\<open>.unwrap()\<close> and \<open>.expect(..)\<close> on a result, and \<open>.ok()\<close>, which drops an error.\<close>

definition unwrap_result :: "'a kresult \<times> 's \<Rightarrow> 'a kresult \<times> 's" where
  "unwrap_result m = (case m of (Err _, s) \<Rightarrow> (Panic, s) | _ \<Rightarrow> m)"

definition drop_error :: "'a kresult \<times> 's \<Rightarrow> unit kresult \<times> 's" where
  "drop_error m = (case m of (Ok _, s) \<Rightarrow> (Ok (), s) | (Err _, s) \<Rightarrow> (Ok (), s) | (Panic, s) \<Rightarrow> (Panic, s))"

definition activate_process :: "process \<Rightarrow> 'b kernel \<Rightarrow> 'b kernel" where
  "activate_process pr k = k\<lparr>cur_pid := p_pid pr, cur_map := p_mapping pr\<rparr>"

definition activate_mapping :: "process \<Rightarrow> 'b kernel \<Rightarrow> 'b kernel" where
  "activate_mapping pr k = k\<lparr>cur_map := p_mapping pr\<rparr>"

section \<open>Results of system calls\<close>

definition on_ptable ::
  "(process_table \<Rightarrow> 'a kresult \<times> process_table) \<Rightarrow> 'b kernel \<Rightarrow> 'a kresult \<times> 'b kernel" where
  "on_ptable f k = (case f (ptable k) of (r, tab) \<Rightarrow> (r, k\<lparr>ptable := tab\<rparr>))"

definition set_thread_result :: "pid \<Rightarrow> nat \<Rightarrow> xous_result \<Rightarrow> 'b kernel \<Rightarrow> unit kresult \<times> 'b kernel" where
  "set_thread_result p tid result k =
    (let current = cur_pid k in
     if current = p then on_ptable (arch_set_thread_result p tid result) k
     else
       sbind (process_of k p, k) (\<lambda>pr k.
       sbind (on_ptable (arch_set_thread_result (p_pid pr) tid result) (activate_process pr k)) (\<lambda>_ k.
       sbind (unwrap_result (process_of k current, k)) (\<lambda>old k.
       (Ok (), activate_process old k)))))"

definition wake_thread_with_result :: "pid \<Rightarrow> nat \<Rightarrow> xous_result \<Rightarrow> 'b kernel \<Rightarrow> unit kresult \<times> 'b kernel" where
  "wake_thread_with_result p tid result k =
    (case process_of k p of
       Panic \<Rightarrow> (Panic, k)
     | Ok pr \<Rightarrow>
         if has_kernel_future pr tid then
           with_proc_sched p (\<lambda>ps. set_thread_state tid TReady (set_mailbox tid result (fst ps), snd ps)) k
         else
           sbind (with_proc_sched p (\<lambda>ps. set_thread_state tid TReady (snd (take_kernel_future tid (fst ps)), snd ps)) k)
             (\<lambda>_ k. drop_error (set_thread_result p tid result k))
     | Err _ \<Rightarrow> drop_error (set_thread_result p tid result k))"

definition suspend_with_future :: "nat \<Rightarrow> kernel_future \<Rightarrow> usize \<Rightarrow> 'b kernel \<Rightarrow> unit kresult \<times> 'b kernel" where
  "suspend_with_future tid f msk k =
    unwrap_result (with_proc_sched (cur_pid k)
      (\<lambda>ps. set_thread_state tid (WaitEvent msk) (set_kernel_future tid f (fst ps), snd ps)) k)"

text \<open>\<open>for_all_processes(|p| p.wake_threads_with_state(state, n))\<close>.\<close>

fun wake_all :: "thread_state \<Rightarrow> usize \<Rightarrow> nat list \<Rightarrow> 'b kernel \<Rightarrow> unit kresult \<times> 'b kernel" where
  "wake_all st n [] k = (Ok (), k)"
| "wake_all st n (i # is) k =
    (case processes k ! i of
       None \<Rightarrow> wake_all st n is k
     | Some pr \<Rightarrow>
         (case wake_process_threads st n (pr, sched k) of
            (r, (pr', s')) \<Rightarrow>
              sbind (r, k\<lparr>processes := (processes k)[i := Some pr'], sched := s'\<rparr>) (\<lambda>_ k. wake_all st n is k)))"

definition wake_threads_with_state :: "thread_state \<Rightarrow> usize \<Rightarrow> 'b kernel \<Rightarrow> unit kresult \<times> 'b kernel" where
  "wake_threads_with_state st n k = wake_all st n [0 ..< length (processes k)] k"

section \<open>Servers\<close>

definition sidx_from_sid :: "'b kernel \<Rightarrow> sid \<Rightarrow> pid \<Rightarrow> nat option" where
  "sidx_from_sid k s p =
    find (\<lambda>i. case servers k ! i of None \<Rightarrow> False | Some sv \<Rightarrow> srv_sid sv = s \<and> srv_pid sv = p) [0 ..< length (servers k)]"

text \<open>The bounds check of \<open>server_from_sidx\<close> lets the index one past the end through to the array access.\<close>

definition server_from_sidx :: "'b kernel \<Rightarrow> nat \<Rightarrow> server option kresult" where
  "server_from_sidx k sidx =
    (if sidx > length (servers k) then Ok None
     else if sidx < length (servers k) then Ok (servers k ! sidx)
     else Panic)"

definition put_server :: "nat \<Rightarrow> server \<Rightarrow> 'b kernel \<Rightarrow> 'b kernel" where
  "put_server sidx sv k = k\<lparr>servers := (servers k)[sidx := Some sv]\<rparr>"

definition with_server :: "nat \<Rightarrow> (server \<Rightarrow> 'a kresult \<times> server) \<Rightarrow> 'b kernel \<Rightarrow> 'a kresult \<times> 'b kernel" where
  "with_server sidx f k =
    (case server_from_sidx k sidx of
       Ok (Some sv) \<Rightarrow> (case f sv of (r, sv') \<Rightarrow> (r, put_server sidx sv' k))
     | _ \<Rightarrow> (Panic, k))"

definition connect_to_server :: "pid \<Rightarrow> sid \<Rightarrow> 'b kernel \<Rightarrow> cid kresult \<times> 'b kernel" where
  "connect_to_server p s k =
    (case find (\<lambda>i. case servers k ! i of None \<Rightarrow> False | Some sv \<Rightarrow> srv_sid sv = s) [0 ..< length (servers k)] of
       None \<Rightarrow> (Err ServerNotFound, k)
     | Some sidx \<Rightarrow>
         (case server_from_sidx k sidx of
            Ok (Some sv) \<Rightarrow> with_process p (add_connection sidx (default_permissions sv)) k
          | _ \<Rightarrow> (Panic, k)))"

definition disconnect_from_server :: "cid \<Rightarrow> 'b kernel \<Rightarrow> unit kresult \<times> 'b kernel" where
  "disconnect_from_server c k =
    sbind (current_process k, k) (\<lambda>_ k. with_process (cur_pid k) (disconnect_slot c) k)"

definition queue_server_message ::
  "nat \<Rightarrow> pid \<Rightarrow> nat \<Rightarrow> message \<Rightarrow> memory_address option \<Rightarrow> 'b kernel \<Rightarrow> nat kresult \<times> 'b kernel" where
  "queue_server_message sidx p tid msg orig k =
    (let current = cur_pid k in
     sbind (obind (server_from_sidx k sidx) (\<lambda>sv. ok_or sv ServerNotFound), k) (\<lambda>sv k.
     sbind (process_of k (srv_pid sv), k) (\<lambda>server_process k.
     case with_server sidx (\<lambda>sv. queue_message sv p tid msg orig) (activate_mapping server_process k) of
       (result, k) \<Rightarrow>
         if result = Panic then (Panic, k)
         else sbind (unwrap_result (process_of k current, k)) (\<lambda>old k. (result, activate_mapping old k)))))"

definition remember_server_message ::
  "nat \<Rightarrow> pid \<Rightarrow> nat \<Rightarrow> message \<Rightarrow> memory_address option \<Rightarrow> 'b kernel \<Rightarrow> nat kresult \<times> 'b kernel" where
  "remember_server_message sidx p tid msg client k =
    sbind (obind (server_from_sidx k sidx) (\<lambda>sv. ok_or sv ServerNotFound), k) (\<lambda>sv k.
    sbind (process_of k (srv_pid sv), k) (\<lambda>server_process k.
    case with_server sidx (\<lambda>sv. queue_response sv p tid msg client) (activate_mapping server_process k) of
      (result, k) \<Rightarrow>
        if result = Panic then (Panic, k)
        else sbind (unwrap_result (process_of k p, k)) (\<lambda>old k. (result, activate_mapping old k))))"

section \<open>Threads\<close>

definition create_thread :: "nat \<Rightarrow> thread_init \<Rightarrow> 'b kernel \<Rightarrow> nat kresult \<times> 'b kernel" where
  "create_thread parent init k =
    sbind (obind (find_free_thread (ptable k) (cur_pid k)) (\<lambda>t. ok_or t ThreadNotAvailable), k) (\<lambda>tid k.
    sbind (on_ptable (setup_thread (cur_pid k) tid init) k) (\<lambda>_ k.
    sbind (unwrap_result (with_proc_sched (cur_pid k) (set_thread_state tid TReady) k)) (\<lambda>_ k.
    sbind (obind (current_process k) (\<lambda>pr. thread_priority_of pr parent), k) (\<lambda>prio k.
    sbind (unwrap_result (with_proc_sched (cur_pid k) (set_thread_priority tid prio) k)) (\<lambda>_ k.
    (Ok tid, k))))))"

end
