(* ===== verification/Delivery.thy ===== *)
theory Delivery
  imports Kernel_State
begin

text \<open>
  Delivery of a message to a server once its buffer, if any, is in the server's address
  space: the second half of \<open>send_message_inner\<close> (\<open>xous/kernel/src/syscall.rs\<close>), and the
  system events the kernel sends to processes as scalar messages
  (\<open>send_event\<close> and \<open>broadcast_event\<close> of \<open>services.rs\<close>).
\<close>

section \<open>Delivery\<close>

definition find_server :: "nat \<Rightarrow> 'b kernel \<Rightarrow> server kresult \<times> 'b kernel" where
  "find_server sidx k =
    (case server_from_sidx k sidx of Ok (Some sv) \<Rightarrow> (Ok sv, k) | _ \<Rightarrow> (Panic, k))"

definition take_server_thread :: "nat \<Rightarrow> 'b kernel \<Rightarrow> nat option kresult \<times> 'b kernel" where
  "take_server_thread sidx k =
    with_server sidx (\<lambda>sv. case take_available_thread sv of None \<Rightarrow> (Panic, sv) | Some r \<Rightarrow> r) k"

definition ready_server_thread :: "pid \<Rightarrow> nat \<Rightarrow> 'b kernel \<Rightarrow> unit kresult \<times> 'b kernel" where
  "ready_server_thread p tid k =
    with_proc_sched p (\<lambda>ps. set_thread_state tid TReady (snd (take_kernel_future tid (fst ps)), snd ps)) k"

text \<open>
  Direct delivery to a parked thread of the server, and queueing with a notification
  of the server process.
\<close>

definition deliver_now ::
  "nat \<Rightarrow> pid \<Rightarrow> nat \<Rightarrow> nat \<Rightarrow> message \<Rightarrow> memory_address option \<Rightarrow> 'b kernel \<Rightarrow> unit kresult \<times> 'b kernel" where
  "deliver_now sidx server_pid server_tid sender_tid msg client k =
    (let sender_pid = cur_pid k in
     sbind (if is_blocking msg then
              (case remember_server_message sidx sender_pid sender_tid msg client k of
                 (Err e, k) \<Rightarrow>
                   sbind (with_server sidx (\<lambda>sv. return_available_thread sv server_tid) k) (\<lambda>_ k. (Err e, k))
               | r \<Rightarrow> r)
            else (Ok 0, k)) (\<lambda>sender_idx k.
     let envelope = \<lparr>env_sender = sender_of (of_nat sidx) sender_idx (Some sender_pid), env_body = msg\<rparr> in
     sbind (unwrap_result (ready_server_thread server_pid server_tid k)) (\<lambda>_ k.
     drop_error (set_thread_result server_pid server_tid (RespMessageEnvelope envelope) k))))"

definition notify_process :: "pid \<Rightarrow> usize \<Rightarrow> 'b kernel \<Rightarrow> unit kresult \<times> 'b kernel" where
  "notify_process p bits k =
    sbind (with_proc_sched p (post_notification_bits bits) k) (\<lambda>woken k.
      case woken of
        None \<Rightarrow> (Ok (), k)
      | Some (tid, fired) \<Rightarrow> drop_error (set_thread_result p tid (Scalar1 fired) k))"

definition deliver_or_queue ::
  "nat \<Rightarrow> pid \<Rightarrow> nat \<Rightarrow> message \<Rightarrow> memory_address option \<Rightarrow> 'b kernel \<Rightarrow> unit kresult \<times> 'b kernel" where
  "deliver_or_queue sidx server_pid sender_tid msg client k =
    sbind (take_server_thread sidx k) (\<lambda>available k.
    case available of
      Some server_tid \<Rightarrow> deliver_now sidx server_pid server_tid sender_tid msg client k
    | None \<Rightarrow>
        sbind (queue_server_message sidx (cur_pid k) sender_tid msg client k) (\<lambda>_ k.
        unwrap_result (notify_process server_pid 1 k)))"

text \<open>\<open>send_message_inner\<close> for a message without memory.\<close>

definition send_scalar :: "nat \<Rightarrow> nat \<Rightarrow> message \<Rightarrow> 'b kernel \<Rightarrow> unit kresult \<times> 'b kernel" where
  "send_scalar sender_tid sidx msg k =
    sbind (find_server sidx k) (\<lambda>sv k.
    if is_queue_full sv then (Err ServerQueueFull, k)
    else deliver_or_queue sidx (srv_pid sv) sender_tid msg None k)"

section \<open>Events\<close>

definition event_message :: "usize \<Rightarrow> usize list \<Rightarrow> message" where
  "event_message mid args = Scalar \<lparr>sm_id = mid, sm_arg1 = args ! 0, sm_arg2 = args ! 1, sm_arg3 = args ! 2, sm_arg4 = args ! 3\<rparr>"

definition send_event :: "pid \<Rightarrow> system_event \<Rightarrow> usize list \<Rightarrow> 'b kernel \<Rightarrow> unit kresult \<times> 'b kernel" where
  "send_event dst event args k =
    sbind (obind (process_of k dst) (\<lambda>pr. get_event_handler pr event), k) (\<lambda>handler k.
    case handler of
      None \<Rightarrow> (Ok (), k)
    | Some (s, mid) \<Rightarrow>
        (case sidx_from_sid k s dst of
           None \<Rightarrow> (Ok (), k)
         | Some sidx \<Rightarrow> send_scalar 0 sidx (event_message mid args) k))"

fun broadcast_each :: "pid list \<Rightarrow> system_event \<Rightarrow> usize list \<Rightarrow> 'b kernel \<Rightarrow> unit kresult \<times> 'b kernel" where
  "broadcast_each [] event args k = (Ok (), k)"
| "broadcast_each (p # ps) event args k =
    (case process_of k p of
       Ok _ \<Rightarrow> sbind (send_event p event args k) (\<lambda>_ k. broadcast_each ps event args k)
     | Err _ \<Rightarrow> broadcast_each ps event args k
     | Panic \<Rightarrow> (Panic, k))"

definition broadcast_event :: "system_event \<Rightarrow> usize list \<Rightarrow> 'b kernel \<Rightarrow> unit kresult \<times> 'b kernel" where
  "broadcast_event event args k =
    broadcast_each (map (\<lambda>i. nz_lit (of_nat i)) [1 ..< MAX_PROCESS_COUNT + 1]) event args k"

text \<open>
  Events for the times free memory has fallen below the threshold during a call of the
  allocator.  They do not touch memory, so they are sent after the call.
\<close>

definition low_memory_events :: "nat \<Rightarrow> 'a kresult \<times> 'b kernel \<Rightarrow> 'a kresult \<times> 'b kernel" where
  "low_memory_events n m =
    (case m of (r, k) \<Rightarrow>
       if low_broadcasts (mm (kvm k)) > n then
         (case broadcast_event LowFreeMemory [0, 0, 0, 0] k of
            (Panic, k) \<Rightarrow> (Panic, k)
          | (_, k) \<Rightarrow> (r, k))
       else (r, k))"

end
