(* ===== verification/Memory_Mapping.thy ===== *)
theory Memory_Mapping
  imports Delivery
begin

text \<open>
  Mapping operations: the part of \<open>MemoryManager\<close> (\<open>xous/kernel/src/mem.rs\<close>) that works
  on the address space of a process, and the transfer of memory between processes
  in \<open>services.rs\<close> (\<open>send_memory\<close>, \<open>lend_memory\<close>, \<open>return_memory\<close>).
  \<open>MemoryMapping::current()\<close> is the field \<open>cur_map\<close>.
\<close>

section \<open>Ranges of pages\<close>

text \<open>\<open>(a..b).step_by(PAGE_SIZE)\<close>.\<close>

definition step_range :: "usize \<Rightarrow> usize \<Rightarrow> usize list" where
  "step_range a b =
    map (\<lambda>i. a + of_nat (i * PAGE_SIZE)) [0 ..< (unat b - unat a + (PAGE_SIZE - 1)) div PAGE_SIZE]"

definition page_aligned :: "usize \<Rightarrow> bool" where
  "page_aligned a \<longleftrightarrow> a AND of_nat (PAGE_SIZE - 1) = 0"

definition zero_bytes :: "(usize \<Rightarrow> u64) \<Rightarrow> usize \<Rightarrow> usize \<Rightarrow> usize \<Rightarrow> u64" where
  "zero_bytes r va sz = (\<lambda>a. if unat (a - va) < unat sz then 0 else r a)"

section \<open>Calls of the allocator and of the page tables\<close>

definition mem_allowed :: "'b kernel \<Rightarrow> pid \<Rightarrow> usize \<Rightarrow> unit kresult" where
  "mem_allowed k p addr = obind (process_of k p) (\<lambda>pr. check_memory_permission pr addr)"

definition on_mm ::
  "('b memory_manager \<Rightarrow> 'a kresult \<times> 'b memory_manager) \<Rightarrow> 'b kernel \<Rightarrow> 'a kresult \<times> 'b kernel" where
  "on_mm f k =
    (case f (mm (kvm k)) of (r, m) \<Rightarrow>
       low_memory_events (low_broadcasts (mm (kvm k))) (r, k\<lparr>kvm := (kvm k)\<lparr>mm := m\<rparr>\<rparr>))"

definition on_vm :: "('b vm \<Rightarrow> 'a kresult \<times> 'b vm) \<Rightarrow> 'b kernel \<Rightarrow> 'a kresult \<times> 'b kernel" where
  "on_vm f k =
    (case f (kvm k) of (r, v) \<Rightarrow> low_memory_events (low_broadcasts (mm (kvm k))) (r, k\<lparr>kvm := v\<rparr>))"

definition k_claim :: "'b bitvec \<Rightarrow> usize \<Rightarrow> pid \<Rightarrow> 'b kernel \<Rightarrow> unit kresult \<times> 'b kernel" where
  "k_claim B addr p k = on_mm (\<lambda>m. claim_page B (mem_allowed k) m addr p) k"

definition k_release :: "'b bitvec \<Rightarrow> usize \<Rightarrow> pid \<Rightarrow> 'b kernel \<Rightarrow> unit kresult \<times> 'b kernel" where
  "k_release B addr p k = on_mm (\<lambda>m. release_page B (mem_allowed k) m addr p) k"

section \<open>Finding a virtual address\<close>

text \<open>
  The candidates \<open>(hint..MMAP_AREA_VIRT_END - size).chain(MMAP_AREA_VIRT..hint)\<close>, of
  which \<open>step_by(PAGE_SIZE)\<close> takes every 16384th.
\<close>

definition first_length :: "usize \<Rightarrow> usize \<Rightarrow> nat" where
  "first_length hint sz = unat (MMAP_AREA_VIRT_END - sz) - unat hint"

definition candidate_count :: "usize \<Rightarrow> usize \<Rightarrow> nat" where
  "candidate_count hint sz =
    (first_length hint sz + (unat hint - unat MMAP_AREA_VIRT) + (PAGE_SIZE - 1)) div PAGE_SIZE"

definition candidate :: "usize \<Rightarrow> usize \<Rightarrow> nat \<Rightarrow> usize" where
  "candidate hint sz j =
    (let pos = j * PAGE_SIZE in
     if pos < first_length hint sz then hint + of_nat pos
     else MMAP_AREA_VIRT + of_nat (pos - first_length hint sz))"

fun first_index :: "(nat \<Rightarrow> bool) \<Rightarrow> nat \<Rightarrow> nat \<Rightarrow> nat option" where
  "first_index P j 0 = None"
| "first_index P j (Suc n) = (if P j then Some j else first_index P (Suc j) n)"

definition range_available :: "'b vm \<Rightarrow> memory_mapping \<Rightarrow> usize \<Rightarrow> usize \<Rightarrow> bool" where
  "range_available v mp start sz \<longleftrightarrow> list_all (address_available v mp) (step_range start (start + sz))"

definition find_virtual_address :: "memory_mapping \<Rightarrow> usize \<Rightarrow> usize \<Rightarrow> 'b kernel \<Rightarrow> usize kresult \<times> 'b kernel" where
  "find_virtual_address mapping virt_ptr sz k =
    (if virt_ptr \<noteq> 0 then (Ok virt_ptr, k)
     else sbind (current_process k, k) (\<lambda>pr k.
       if sz > MMAP_AREA_VIRT_END then (Panic, k)
       else
         let hint = p_allocation_hint pr in
         case first_index (\<lambda>j. range_available (kvm k) mapping (candidate hint sz j) sz)
                0 (candidate_count hint sz) of
           None \<Rightarrow> (Err BadAddress, k)
         | Some j \<Rightarrow>
             let start = candidate hint sz j in
             (Ok start, put_process (cur_pid k) (pr\<lparr>p_allocation_hint := start\<rparr>) k)))"

section \<open>Mapping a range\<close>

fun release_each :: "'b bitvec \<Rightarrow> pid \<Rightarrow> usize list \<Rightarrow> 'b kernel \<Rightarrow> unit kresult \<times> 'b kernel" where
  "release_each B p [] k = (Ok (), k)"
| "release_each B p (a # as) k = sbind (drop_error (k_release B a p k)) (\<lambda>_ k. release_each B p as k)"

fun claim_each :: "'b bitvec \<Rightarrow> pid \<Rightarrow> usize \<Rightarrow> usize list \<Rightarrow> 'b kernel \<Rightarrow> unit kresult \<times> 'b kernel" where
  "claim_each B p phys [] k = (Ok (), k)"
| "claim_each B p phys (a # as) k =
    (case k_claim B a p k of
       (Ok _, k) \<Rightarrow> claim_each B p phys as k
     | (Err e, k) \<Rightarrow> sbind (release_each B p (step_range phys a) k) (\<lambda>_ k. (Err e, k))
     | (Panic, k) \<Rightarrow> (Panic, k))"

fun unmap_each :: "memory_mapping \<Rightarrow> usize list \<Rightarrow> 'b kernel \<Rightarrow> unit kresult \<times> 'b kernel" where
  "unmap_each mp [] k = (Ok (), k)"
| "unmap_each mp (a # as) k = sbind (drop_error (on_vm (unmap_page mp a) k)) (\<lambda>_ k. unmap_each mp as k)"

text \<open>\<open>phys + size\<close> where the code adds them.\<close>

definition phys_end :: "usize \<Rightarrow> usize \<Rightarrow> usize kresult" where
  "phys_end phys sz = unwrap (checked_add phys sz)"

fun map_each ::
  "'b bitvec \<Rightarrow> memory_mapping \<Rightarrow> usize \<Rightarrow> usize \<Rightarrow> usize \<Rightarrow> memory_flags \<Rightarrow> bool \<Rightarrow> usize list \<Rightarrow>
    'b kernel \<Rightarrow> unit kresult \<times> 'b kernel" where
  "map_each B mp phys virt sz flags user [] k = (Ok (), k)"
| "map_each B mp phys virt sz flags user (off # offs) k =
    sbind (if phys = 0 then (Ok 0, k) else (phys_end phys off, k)) (\<lambda>phys_page k.
    (case on_vm (map_page B mp phys_page (virt + off) flags user) k of
       (Ok _, k) \<Rightarrow> map_each B mp phys virt sz flags user offs k
     | (Err e, k) \<Rightarrow>
         sbind (unmap_each mp (map ((+) virt) (step_range 0 off)) k) (\<lambda>_ k.
         sbind (if phys \<noteq> 0
                then sbind (phys_end phys sz, k) (\<lambda>stop k. release_each B (get_pid mp) (step_range phys stop) k)
                else (Ok (), k)) (\<lambda>_ k.
         (Err e, k)))
     | (Panic, k) \<Rightarrow> (Panic, k)))"

text \<open>The physical memory of the new range: claimed at the given address, or allocated.\<close>

definition range_memory ::
  "'b bitvec \<Rightarrow> pid \<Rightarrow> usize \<Rightarrow> usize \<Rightarrow> memory_flags \<Rightarrow> 'b kernel \<Rightarrow> usize kresult \<times> 'b kernel" where
  "range_memory B p phys sz flags k =
    sbind (if flags_is_set flags FLAG_POPULATE then
             if \<not> flags_is_set flags FLAG_W then (Err InvalidArguments, k)
             else if phys \<noteq> 0 then (Err InvalidArguments, k)
             else sbind (on_mm (\<lambda>m. alloc_range B m (unat sz div PAGE_SIZE) p) k) (\<lambda>(allocated, zeroed) k.
               if flags_is_set flags FLAG_PLAINTEXT \<or> flags_is_set flags FLAG_NO_CACHE \<or> flags_is_set flags FLAG_DEV
               then (Ok (to_plaintext_phys_addr allocated), k) else (Ok allocated, k))
           else if phys \<noteq> 0 then
             sbind (phys_end phys sz, k) (\<lambda>stop k.
             sbind (claim_each B p phys (step_range phys stop) k) (\<lambda>_ k. (Ok phys, k)))
           else (Ok 0, k)) (\<lambda>phys k.
    if phys = 0 then
      sbind (on_mm (\<lambda>m. alloc_range B m (unat sz div PAGE_SIZE) p) k) (\<lambda>(allocated, zeroed) k.
        (Ok allocated,
         if \<not> zeroed then k\<lparr>kvm := (kvm k)\<lparr>ram := zero_bytes (ram (kvm k)) (phys_to_virt allocated) sz\<rparr>\<rparr> else k))
    else (Ok phys, k))"

definition map_range ::
  "'b bitvec \<Rightarrow> usize \<Rightarrow> usize \<Rightarrow> usize \<Rightarrow> memory_flags \<Rightarrow> bool \<Rightarrow> 'b kernel \<Rightarrow>
    memory_range kresult \<times> 'b kernel" where
  "map_range B phys virt_ptr sz flags map_user k =
    (let mp = cur_map k in
     sbind (find_virtual_address mp virt_ptr sz k) (\<lambda>virt k.
     sbind (range_memory B (get_pid mp) phys sz flags k) (\<lambda>phys k.
     sbind (map_each B mp phys virt sz flags map_user (step_range 0 sz) k) (\<lambda>_ k.
     (memory_range_new virt sz, k)))))"

fun mirror_each ::
  "'b bitvec \<Rightarrow> memory_mapping \<Rightarrow> usize \<Rightarrow> usize \<Rightarrow> usize list \<Rightarrow> 'b kernel \<Rightarrow> unit kresult \<times> 'b kernel" where
  "mirror_each B mp phys virt [] k = (Ok (), k)"
| "mirror_each B mp phys virt (off # offs) k =
    sbind (phys_end off phys, k) (\<lambda>pa k.
    sbind (phys_end off virt, k) (\<lambda>va k.
    (case on_vm (map_page B mp pa va flags_empty True) k of
       (Ok _, k) \<Rightarrow> mirror_each B mp phys virt offs k
     | (Err e, k) \<Rightarrow>
         sbind (unmap_each mp (map ((+) virt) (step_range 0 off)) k) (\<lambda>_ k. (Err e, k))
     | (Panic, k) \<Rightarrow> (Panic, k))))"

definition saturating_add :: "usize \<Rightarrow> usize \<Rightarrow> usize" where
  "saturating_add a b = (case checked_add a b of Some c \<Rightarrow> c | None \<Rightarrow> - 1)"

definition checked_next_multiple :: "usize \<Rightarrow> nat \<Rightarrow> usize option" where
  "checked_next_multiple a n =
    (let r = unat a mod n in if r = 0 then Some a else checked_add a (of_nat (n - r)))"

definition map_range_readonly_mirror ::
  "'b bitvec \<Rightarrow> pid \<Rightarrow> usize \<Rightarrow> usize \<Rightarrow> 'b kernel \<Rightarrow> memory_range kresult \<times> 'b kernel" where
  "map_range_readonly_mirror B p phys sz k =
    sbind (process_of k p, k) (\<lambda>pr k.
      let virt = p_next_mirror_address pr in
      sbind (mirror_each B (cur_map k) phys virt (step_range 0 sz) k) (\<lambda>_ k.
        let next_addr = saturating_add virt sz;
            next = (case checked_next_multiple next_addr PAGE_SIZE of Some a \<Rightarrow> a | None \<Rightarrow> next_addr)
        in sbind (with_process p (\<lambda>pr. (Ok (), pr\<lparr>p_next_mirror_address := next\<rparr>)) k) (\<lambda>_ k.
           (memory_range_new virt sz, k))))"

section \<open>Unmapping\<close>

definition mm_unmap_page :: "'b bitvec \<Rightarrow> usize \<Rightarrow> 'b kernel \<Rightarrow> unit kresult \<times> 'b kernel" where
  "mm_unmap_page B virt k =
    (let mapping = cur_map k in
     sbind (case virt_to_phys (kvm k) mapping virt of
              Ok phys \<Rightarrow> drop_error (k_release B phys (get_pid mapping) k)
            | _ \<Rightarrow> (Ok (), k)) (\<lambda>_ k.
     on_vm (unmap_page mapping virt) k))"

fun unmap_pages :: "'b bitvec \<Rightarrow> usize list \<Rightarrow> unit kresult \<Rightarrow> 'b kernel \<Rightarrow> unit kresult \<times> 'b kernel" where
  "unmap_pages B [] result k = (result, k)"
| "unmap_pages B (a # as) result k =
    (case mm_unmap_page B a k of
       (Ok _, k) \<Rightarrow> unmap_pages B as result k
     | (Err e, k) \<Rightarrow> unmap_pages B as (if is_ok result then Err e else result) k
     | (Panic, k) \<Rightarrow> (Panic, k))"

definition unmap_range :: "'b bitvec \<Rightarrow> usize \<Rightarrow> usize \<Rightarrow> 'b kernel \<Rightarrow> unit kresult \<times> 'b kernel" where
  "unmap_range B virt len k =
    (if \<not> page_aligned virt \<or> \<not> page_aligned len then (Err BadAlignment, k)
     else sbind (phys_end virt len, k) (\<lambda>stop k. unmap_pages B (step_range virt stop) (Ok ()) k))"

definition next_multiple :: "usize \<Rightarrow> nat \<Rightarrow> usize kresult" where
  "next_multiple a n = unwrap (checked_next_multiple a n)"

definition check_range_accessible :: "'b kernel \<Rightarrow> memory_range \<Rightarrow> unit kresult" where
  "check_range_accessible k mr =
    (let start = as_ptr mr AND NOT (of_nat (PAGE_SIZE - 1)) in
     obind (phys_end (as_ptr mr) (memory_range_len mr)) (\<lambda>stop.
     obind (next_multiple stop PAGE_SIZE) (\<lambda>stop.
     if list_ex (\<lambda>addr. addr > USER_AREA_END \<or> \<not> address_user_accessible (kvm k) (cur_map k) addr)
          (step_range start stop)
     then Err BadAddress else Ok ())))"

section \<open>Moving and lending pages\<close>

definition mm_move_page ::
  "'b bitvec \<Rightarrow> memory_mapping \<Rightarrow> usize \<Rightarrow> memory_mapping \<Rightarrow> usize \<Rightarrow> 'b kernel \<Rightarrow> unit kresult \<times> 'b kernel" where
  "mm_move_page B src src_addr dest dest_addr k =
    sbind (virt_to_phys (kvm k) src src_addr, k) (\<lambda>phys_addr k.
    sbind (on_vm (move_page_between B src src_addr dest dest_addr) k) (\<lambda>_ k.
    on_mm (\<lambda>m. claim_release_move B (mem_allowed k) m phys_addr (get_pid dest) (MoveFrom (get_pid src))) k))"

definition move_page_raw :: "'b bitvec \<Rightarrow> usize \<Rightarrow> pid \<Rightarrow> 'b kernel \<Rightarrow> unit kresult \<times> 'b kernel" where
  "move_page_raw B phys_addr dest_pid k =
    on_mm (\<lambda>m. claim_release_move B (mem_allowed k) m phys_addr dest_pid (MoveFrom (cur_pid k))) k"

text \<open>The loops keep the error of the last failing page: \<open>unwrap_or_else(|e| error = Some(e))\<close>.\<close>

definition keep_error :: "unit kresult \<times> 's \<Rightarrow> error option \<Rightarrow> error option kresult \<times> 's" where
  "keep_error m old =
    (case m of (Ok _, s) \<Rightarrow> (Ok old, s) | (Err e, s) \<Rightarrow> (Ok (Some e), s) | (Panic, s) \<Rightarrow> (Panic, s))"

text \<open>A transfer within one process; \<open>lend_memory\<close> also asserts the alignment of each page.\<close>

fun ensure_each :: "'b bitvec \<Rightarrow> bool \<Rightarrow> usize \<Rightarrow> usize list \<Rightarrow> 'b kernel \<Rightarrow> unit kresult \<times> 'b kernel" where
  "ensure_each B assert src [] k = (Ok (), k)"
| "ensure_each B assert src (off # offs) k =
    (if assert \<and> \<not> page_aligned (src + off) then (Panic, k)
     else sbind (on_vm (ensure_page_exists B (cur_map k) (src + off)) k) (\<lambda>_ k. ensure_each B assert src offs k))"

fun move_each ::
  "'b bitvec \<Rightarrow> memory_mapping \<Rightarrow> usize \<Rightarrow> memory_mapping \<Rightarrow> usize \<Rightarrow> usize list \<Rightarrow> error option \<Rightarrow>
    'b kernel \<Rightarrow> error option kresult \<times> 'b kernel" where
  "move_each B src sv dest dv [] err k = (Ok err, k)"
| "move_each B src sv dest dv (off # offs) err k =
    (if \<not> page_aligned (sv + off) \<or> \<not> page_aligned (dv + off) then (Panic, k)
     else
       sbind (on_vm (ensure_page_exists B (cur_map k) (sv + off)) k) (\<lambda>_ k.
       sbind (keep_error (mm_move_page B src (sv + off) dest (dv + off) k) err) (\<lambda>err k.
       move_each B src sv dest dv offs err k)))"

definition send_memory :: "'b bitvec \<Rightarrow> usize \<Rightarrow> pid \<Rightarrow> usize \<Rightarrow> usize \<Rightarrow> 'b kernel \<Rightarrow> usize kresult \<times> 'b kernel" where
  "send_memory B src_virt dest_pid dest_virt len k =
    (if len = 0 then (Err BadAddress, k)
     else if \<not> page_aligned len then (Err BadAddress, k)
     else if \<not> page_aligned src_virt then (Err BadAddress, k)
     else if \<not> page_aligned dest_virt then (Err BadAddress, k)
     else sbind (phys_end dest_virt len, k) (\<lambda>dest_end k.
       if dest_end > USER_AREA_END then (Err BadAddress, k)
       else if cur_pid k = dest_pid then
         sbind (ensure_each B False src_virt (step_range 0 len) k) (\<lambda>_ k. (Ok src_virt, k))
       else
         sbind (process_of k (cur_pid k), k) (\<lambda>src k.
         sbind (process_of k dest_pid, k) (\<lambda>dest k.
         sbind (find_virtual_address (p_mapping dest) dest_virt len k) (\<lambda>dest_virt k.
         sbind (move_each B (p_mapping src) src_virt (p_mapping dest) dest_virt (step_range 0 len) None k) (\<lambda>err k.
         (if err = None then Ok dest_virt else Panic, k)))))))"

fun lend_each ::
  "'b bitvec \<Rightarrow> memory_mapping \<Rightarrow> usize \<Rightarrow> memory_mapping \<Rightarrow> usize \<Rightarrow> bool \<Rightarrow> usize list \<Rightarrow> error option \<Rightarrow>
    'b kernel \<Rightarrow> error option kresult \<times> 'b kernel" where
  "lend_each B src sv dest dv mut [] err k = (Ok err, k)"
| "lend_each B src sv dest dv mut (off # offs) err k =
    (if \<not> page_aligned (sv + off) \<or> \<not> page_aligned (dv + off) then (Panic, k)
     else
       sbind (on_vm (ensure_page_exists B (cur_map k) (sv + off)) k) (\<lambda>_ k.
       sbind (keep_error (on_vm (lend_page B src (sv + off) dest (dv + off) mut) k) err) (\<lambda>err k.
       lend_each B src sv dest dv mut offs err k)))"

definition lend_memory ::
  "'b bitvec \<Rightarrow> usize \<Rightarrow> pid \<Rightarrow> usize \<Rightarrow> usize \<Rightarrow> bool \<Rightarrow> 'b kernel \<Rightarrow> usize kresult \<times> 'b kernel" where
  "lend_memory B src_virt dest_pid dest_virt len mutable k =
    (if len = 0 then (Err BadAddress, k)
     else if \<not> page_aligned len then (Err BadAlignment, k)
     else if \<not> page_aligned src_virt then (Err BadAlignment, k)
     else if \<not> page_aligned dest_virt then (Err BadAlignment, k)
     else if cur_pid k = dest_pid then
       sbind (ensure_each B True src_virt (step_range 0 len) k) (\<lambda>_ k. (Ok src_virt, k))
     else
       sbind (process_of k (cur_pid k), k) (\<lambda>src k.
       sbind (process_of k dest_pid, k) (\<lambda>dest k.
       sbind (find_virtual_address (p_mapping dest) dest_virt len k) (\<lambda>dest_virt k.
       sbind (lend_each B (p_mapping src) src_virt (p_mapping dest) dest_virt mutable (step_range 0 len) None k) (\<lambda>err k.
       (if err = None then Ok dest_virt else Panic, k))))))"

fun return_each ::
  "memory_mapping \<Rightarrow> usize \<Rightarrow> memory_mapping \<Rightarrow> usize \<Rightarrow> usize list \<Rightarrow> error option \<Rightarrow>
    'b kernel \<Rightarrow> error option kresult \<times> 'b kernel" where
  "return_each src sv dest dv [] err k = (Ok err, k)"
| "return_each src sv dest dv (off # offs) err k =
    (if \<not> page_aligned (sv + off) \<or> \<not> page_aligned (dv + off) then (Panic, k)
     else
       sbind (keep_error (on_vm (return_page src (sv + off) dest (dv + off)) k) err) (\<lambda>err k.
       return_each src sv dest dv offs err k))"

definition return_memory :: "usize \<Rightarrow> pid \<Rightarrow> usize \<Rightarrow> usize \<Rightarrow> 'b kernel \<Rightarrow> usize kresult \<times> 'b kernel" where
  "return_memory src_virt dest_pid dest_virt len k =
    (if len = 0 then (Err BadAddress, k)
     else if \<not> page_aligned len then (Err BadAddress, k)
     else if \<not> page_aligned src_virt then (Err BadAddress, k)
     else if \<not> page_aligned dest_virt then (Err BadAddress, k)
     else if cur_pid k = dest_pid then (Ok src_virt, k)
     else
       sbind (process_of k (cur_pid k), k) (\<lambda>src k.
       sbind (process_of k dest_pid, k) (\<lambda>dest k.
       sbind (return_each (p_mapping src) src_virt (p_mapping dest) dest_virt (step_range 0 len) None k) (\<lambda>err k.
       (case err of None \<Rightarrow> Ok dest_virt | Some e \<Rightarrow> Err e, k)))))"

end
