(* ===== verification/Ipc.thy ===== *)
theory Ipc
  imports Memory_Mapping
begin

text \<open>
  Message passing between processes: kernel futures and their polling
  (\<open>xous/kernel/src/kfuture.rs\<close>), the choice of the next thread
  (\<open>Scheduler::activate_current\<close>), and the system calls that send, receive and answer
  messages (\<open>xous/kernel/src/syscall.rs\<close>).
\<close>

section \<open>Polling futures\<close>

datatype poll_result = PollReady "xous_result kresult" | PollPending

text \<open>The wake-up of senders that found the queue full, after a slot has become free.\<close>

definition wake_senders :: "bool \<Rightarrow> nat \<Rightarrow> 'b kernel \<Rightarrow> unit kresult \<times> 'b kernel" where
  "wake_senders was_full sidx k =
    (case server_from_sidx k sidx of
       Ok (Some sv) \<Rightarrow>
         if was_full \<and> \<not> is_queue_full sv then wake_threads_with_state (RetryQueueFull sidx) (- 1) k
         else (Ok (), k)
     | _ \<Rightarrow> (Panic, k))"

definition poll_receive_message :: "pid \<Rightarrow> nat \<Rightarrow> 'b kernel \<Rightarrow> poll_result kresult \<times> 'b kernel" where
  "poll_receive_message p sidx k =
    sbind (server_from_sidx k sidx, k) (\<lambda>sv k.
      case sv of
        None \<Rightarrow> (Ok (PollReady (Err ServerNotFound)), k)
      | Some sv \<Rightarrow>
          if srv_pid sv \<noteq> p then (Ok (PollReady (Err ServerNotFound)), k)
          else
            sbind (with_server sidx (\<lambda>sv. take_next_message sv (of_nat sidx)) k) (\<lambda>msg k.
              case msg of
                None \<Rightarrow> (Ok PollPending, k)
              | Some env \<Rightarrow>
                  sbind (wake_senders (is_queue_full sv) sidx k) (\<lambda>_ k.
                    (Ok (PollReady (Ok (RespMessageEnvelope env))), k))))"

definition poll_mailbox :: "pid \<Rightarrow> nat \<Rightarrow> 'b kernel \<Rightarrow> poll_result kresult \<times> 'b kernel" where
  "poll_mailbox p tid k =
    (case process_of k p of
       Ok pr \<Rightarrow>
         (case take_mailbox tid pr of
            (Some result, pr') \<Rightarrow> (Ok (PollReady (Ok result)), put_process p pr' k)
          | (None, pr') \<Rightarrow> (Ok PollPending, put_process p pr' k))
     | Err e \<Rightarrow> (Ok (PollReady (Err e)), k)
     | Panic \<Rightarrow> (Panic, k))"

fun poll :: "kernel_future \<Rightarrow> pid \<Rightarrow> nat \<Rightarrow> 'b kernel \<Rightarrow> poll_result kresult \<times> 'b kernel" where
  "poll (FReceiveMessage sidx) p tid k = poll_receive_message p sidx k"
| "poll FWaitBlocking p tid k = poll_mailbox p tid k"
| "poll (FWaitProcessExit _) p tid k = poll_mailbox p tid k"
| "poll (FWaitJoin _) p tid k = poll_mailbox p tid k"
| "poll (FWaitFutex _) p tid k = poll_mailbox p tid k"
| "poll FWaitDisplay p tid k = poll_mailbox p tid k"

section \<open>Choosing the next thread\<close>

text \<open>
  The CPU usage log and the preemption timer, which \<open>activate_current\<close> also updates
  when it switches, are read by debugging code only and are left out.
\<close>

definition switch_to :: "pid \<Rightarrow> nat \<Rightarrow> pid \<Rightarrow> nat \<Rightarrow> 'b kernel \<Rightarrow> xous_result kresult \<times> 'b kernel" where
  "switch_to cp ct np nt k =
    (if np = cp \<and> nt = ct then (Ok ResumeProcess, k)
     else
       sbind (unwrap_result (process_of k np, k)) (\<lambda>pr k.
       sbind (drop_error (on_ptable (set_tid (p_pid pr) nt) (activate_process pr k))) (\<lambda>_ k.
       (Ok ResumeProcess, k))))"

text \<open>
  A loop that never ends hangs the machine with interrupts masked, which is the outcome
  \<open>Panic\<close>; the fuel is more than the number of threads.
\<close>

fun activate_loop :: "nat \<Rightarrow> pid \<Rightarrow> nat \<Rightarrow> 'b kernel \<Rightarrow> xous_result kresult \<times> 'b kernel" where
  "activate_loop 0 cp ct k = (Panic, k)"
| "activate_loop (Suc n) cp ct k =
    (case next_thread (sched k) of
       None \<Rightarrow> (Ok ResumeProcess, k)
     | Some (np, nt) \<Rightarrow>
         sbind (unwrap_result (with_process np (\<lambda>pr. case take_kernel_future nt pr of (f, pr') \<Rightarrow> (Ok f, pr')) k))
         (\<lambda>future k.
           case future of
             None \<Rightarrow> switch_to cp ct np nt k
           | Some kf \<Rightarrow>
               sbind (poll kf np nt k) (\<lambda>polled k.
                 case polled of
                   PollReady result \<Rightarrow>
                     sbind (result, k) (\<lambda>r k.
                     sbind (drop_error (set_thread_result np nt r k)) (\<lambda>_ k.
                     switch_to cp ct np nt k))
                 | PollPending \<Rightarrow>
                     sbind (unwrap_result (with_proc_sched np (\<lambda>ps.
                       set_thread_state nt (WaitEvent (suspension_mask kf)) (set_kernel_future nt kf (fst ps), snd ps)) k))
                     (\<lambda>_ k. activate_loop n cp ct k))))"

definition activate_fuel :: nat where
  "activate_fuel = Suc (MAX_PROCESS_COUNT * MAX_THREAD_COUNT)"

definition activate_current :: "'b kernel \<Rightarrow> xous_result kresult \<times> 'b kernel" where
  "activate_current k =
    (if in_irq_handler (sched k) then (Ok ResumeProcess, k)
     else activate_loop activate_fuel (cur_pid k) (current_tid (ptable k) (cur_pid k)) k)"

section \<open>Sending\<close>

definition client_address :: "message \<Rightarrow> memory_address option" where
  "client_address msg =
    (case msg_memory_message msg of None \<Rightarrow> None | Some m \<Rightarrow> nz_new (as_ptr (mm_buf m)))"

definition with_buffer :: "usize \<Rightarrow> memory_message \<Rightarrow> (memory_message \<Rightarrow> message) \<Rightarrow> message kresult" where
  "with_buffer new_virt m f =
    obind (memory_range_new new_virt (memory_range_len (mm_buf m))) (\<lambda>buf. Ok (f (m\<lparr>mm_buf := buf\<rparr>)))"

text \<open>The transfer of the buffer into the server's address space.\<close>

fun translate_message :: "'b bitvec \<Rightarrow> pid \<Rightarrow> message \<Rightarrow> 'b kernel \<Rightarrow> message kresult \<times> 'b kernel" where
  "translate_message B server_pid (Move m) k =
    sbind (send_memory B (as_ptr (mm_buf m)) server_pid 0 (memory_range_len (mm_buf m)) k)
      (\<lambda>v k. (with_buffer v m Move, k))"
| "translate_message B server_pid (MutableBorrow m) k =
    sbind (lend_memory B (as_ptr (mm_buf m)) server_pid 0 (memory_range_len (mm_buf m)) True k)
      (\<lambda>v k. (with_buffer v m MutableBorrow, k))"
| "translate_message B server_pid (Borrow m) k =
    sbind (lend_memory B (as_ptr (mm_buf m)) server_pid 0 (memory_range_len (mm_buf m)) False k)
      (\<lambda>v k. (with_buffer v m Borrow, k))"
| "translate_message B server_pid msg k = (Ok msg, k)"

definition send_message_inner ::
  "'b bitvec \<Rightarrow> nat \<Rightarrow> nat \<Rightarrow> message \<Rightarrow> 'b kernel \<Rightarrow> unit kresult \<times> 'b kernel" where
  "send_message_inner B sender_tid sidx msg k =
    sbind (find_server sidx k) (\<lambda>sv k.
    if is_queue_full sv then (Err ServerQueueFull, k)
    else
      let server_pid = srv_pid sv; client = client_address msg in
      sbind (translate_message B server_pid msg k) (\<lambda>msg k.
      deliver_or_queue sidx server_pid sender_tid msg client k))"

text \<open>The events of \<open>Delivery\<close> are sent with the same function.\<close>

lemma send_message_inner_scalar:
  "send_message_inner B tid sidx (Scalar m) k = send_scalar tid sidx (Scalar m) k"
  by (simp add: send_message_inner_def send_scalar_def client_address_def Let_def cong: if_cong)

definition send_message ::
  "'b bitvec \<Rightarrow> nat \<Rightarrow> cid \<Rightarrow> message \<Rightarrow> 'b kernel \<Rightarrow> xous_result kresult \<times> 'b kernel" where
  "send_message B sender_tid cid msg k =
    sbind (current_process k, k) (\<lambda>pr k.
    sbind (connection pr cid, k) (\<lambda>slot k.
    case slot of
      Connected sx _ permissions \<Rightarrow>
        let sidx = unat sx in
        sbind (find_server sidx k) (\<lambda>sv k.
        if srv_pid sv \<noteq> cur_pid k \<and> \<not> is_permitted permissions (message_id msg) then (Err AccessDenied, k)
        else
          sbind (send_message_inner B sender_tid sidx msg k) (\<lambda>_ k.
          sbind (if is_blocking msg then suspend_with_future sender_tid FWaitBlocking EVENT_KERNEL k
                 else set_thread_result (cur_pid k) sender_tid RespOk k) (\<lambda>_ k.
          activate_current k)))
    | _ \<Rightarrow> (Err ServerNotFound, k)))"

section \<open>Answering\<close>

text \<open>The server a sender handle names, which must belong to the caller, and its waiting message.\<close>

definition own_server :: "nat \<Rightarrow> 'b kernel \<Rightarrow> server kresult \<times> 'b kernel" where
  "own_server sidx k =
    sbind (obind (server_from_sidx k sidx) (\<lambda>sv. ok_or sv ServerNotFound), k) (\<lambda>sv k.
    if srv_pid sv \<noteq> cur_pid k then (Err ServerNotFound, k) else (Ok sv, k))"

definition take_waiting ::
  "nat \<Rightarrow> nat \<Rightarrow> memory_range option \<Rightarrow> 'b kernel \<Rightarrow> waiting_message kresult \<times> 'b kernel" where
  "take_waiting sidx idx buf k =
    sbind (own_server sidx k) (\<lambda>sv k.
    sbind (with_server sidx (\<lambda>sv. take_waiting_message sv idx buf) k) (\<lambda>result k.
    sbind (wake_senders (is_queue_full sv) sidx k) (\<lambda>_ k. (Ok result, k))))"

definition finish_call :: "nat \<Rightarrow> 'b kernel \<Rightarrow> xous_result kresult \<times> 'b kernel" where
  "finish_call tid k =
    sbind (set_thread_result (cur_pid k) tid RespOk k) (\<lambda>_ k. activate_current k)"

definition sys_return_memory ::
  "'b bitvec \<Rightarrow> nat \<Rightarrow> sender \<Rightarrow> memory_range \<Rightarrow> memory_size option \<Rightarrow> memory_size option \<Rightarrow> 'b kernel \<Rightarrow>
    xous_result kresult \<times> 'b kernel" where
  "sys_return_memory B server_tid sender buf offset valid k =
    (let s = sender_id_from (sender_to_usize sender) in
     sbind (take_waiting (unat (snd_sidx s)) (unat (snd_idx s)) (Some buf) k) (\<lambda>result k.
     sbind (case result of
              BorrowedMemory p tid client_addr \<Rightarrow>
                sbind (return_memory (as_ptr buf) p (nz_get client_addr) (memory_range_len buf) k) (\<lambda>_ k.
                wake_thread_with_result p tid (MemoryReturned offset valid) k)
            | ForgetMemory r \<Rightarrow> unmap_range B (as_ptr r) (memory_range_len r) k
            | _ \<Rightarrow> (Err DoubleFree, k)) (\<lambda>_ k.
     finish_call server_tid k)))"

definition return_result :: "nat \<Rightarrow> sender \<Rightarrow> xous_result \<Rightarrow> 'b kernel \<Rightarrow> xous_result kresult \<times> 'b kernel" where
  "return_result server_tid sender value k =
    (let s = sender_id_from (sender_to_usize sender) in
     sbind (take_waiting (unat (snd_sidx s)) (unat (snd_idx s)) None k) (\<lambda>result k.
     sbind (case result of
              WaitingScalarMessage p tid \<Rightarrow> wake_thread_with_result p tid value k
            | ScalarMessageTerminated \<Rightarrow> (Ok (), k)
            | _ \<Rightarrow> (Err DoubleFree, k)) (\<lambda>_ k.
     finish_call server_tid k)))"

section \<open>Receiving\<close>

definition receive_message :: "nat \<Rightarrow> sid \<Rightarrow> bool \<Rightarrow> 'b kernel \<Rightarrow> xous_result kresult \<times> 'b kernel" where
  "receive_message tid s blocking k =
    sbind (ok_or (sidx_from_sid k s (cur_pid k)) ServerNotFound, k) (\<lambda>sidx k.
    sbind (own_server sidx k) (\<lambda>sv k.
    sbind (with_server sidx (\<lambda>sv. take_next_message sv (of_nat sidx)) k) (\<lambda>msg k.
    case msg of
      Some env \<Rightarrow>
        sbind (wake_senders (is_queue_full sv) sidx k) (\<lambda>_ k. (Ok (RespMessageEnvelope env), k))
    | None \<Rightarrow>
        if \<not> blocking then (Ok RespNone, k)
        else
          sbind (with_server sidx (\<lambda>sv. server_park_thread sv tid) k) (\<lambda>_ k.
          sbind (suspend_with_future tid (FReceiveMessage sidx) EVENT_SERVER_MSG k) (\<lambda>_ k.
          activate_current k)))))"

section \<open>Retrying\<close>

definition retry_syscall :: "nat \<Rightarrow> thread_state \<Rightarrow> 'b kernel \<Rightarrow> xous_result kresult \<times> 'b kernel" where
  "retry_syscall tid st k =
    sbind (on_ptable (retry_swi_instruction (cur_pid k) tid) k) (\<lambda>_ k.
    sbind (unwrap_result (with_proc_sched (cur_pid k) (set_thread_state tid st) k)) (\<lambda>_ k.
    activate_current k))"

end
