(* ===== verification/Display_Control.thy ===== *)
theory Display_Control
  imports Ipc
begin

text \<open>
  Display ownership and keyboard input at the level of the system services: the
  display methods of \<open>SystemServices\<close> (\<open>xous/kernel/src/services.rs\<close>) and the routing of
  input characters (\<open>xous/kernel/src/arch/aarch64/irq.rs\<close>).
\<close>

section \<open>The framebuffer\<close>

definition FB_PHYS :: usize where "FB_PHYS = 0x7FC00000"
definition FB_SIZE :: nat where "FB_SIZE = 4 * 1024 * 1024"
definition SHELL_FB_VA :: usize where "SHELL_FB_VA = 0x1002000000"

definition fb_offsets :: "usize list" where
  "fb_offsets = map (\<lambda>i. of_nat (i * PAGE_SIZE)) [0 ..< FB_SIZE div PAGE_SIZE]"

fun map_fb :: "'b bitvec \<Rightarrow> memory_mapping \<Rightarrow> usize list \<Rightarrow> 'b kernel \<Rightarrow> unit kresult \<times> 'b kernel" where
  "map_fb B mp [] k = (Ok (), k)"
| "map_fb B mp (off # offs) k =
    sbind (drop_error (on_vm (map_page B mp (FB_PHYS + off) (SHELL_FB_VA + off) (flags_or FLAG_W FLAG_DEV) True) k))
      (\<lambda>_ k. map_fb B mp offs k)"

definition map_fb_for :: "'b bitvec \<Rightarrow> pid \<Rightarrow> 'b kernel \<Rightarrow> unit kresult \<times> 'b kernel" where
  "map_fb_for B p k =
    (case process_of k p of
       Ok pr \<Rightarrow> map_fb B (p_mapping pr) fb_offsets k
     | Err _ \<Rightarrow> (Ok (), k)
     | Panic \<Rightarrow> (Panic, k))"

definition unmap_fb_for :: "pid \<Rightarrow> 'b kernel \<Rightarrow> unit kresult \<times> 'b kernel" where
  "unmap_fb_for p k =
    (case process_of k p of
       Ok pr \<Rightarrow> unmap_each (p_mapping pr) (map ((+) SHELL_FB_VA) fb_offsets) k
     | Err _ \<Rightarrow> (Ok (), k)
     | Panic \<Rightarrow> (Panic, k))"

section \<open>Ownership\<close>

definition set_display :: "display_state \<Rightarrow> 'b kernel \<Rightarrow> 'b kernel" where
  "set_display d k = k\<lparr>display := d\<rparr>"

definition try_acquire_display :: "'b bitvec \<Rightarrow> pid \<Rightarrow> nat \<Rightarrow> 'b kernel \<Rightarrow> bool kresult \<times> 'b kernel" where
  "try_acquire_display B p tid k =
    (if owner (display k) \<noteq> None then (Ok False, set_display (snd (push_waiter (display k) (p, tid))) k)
     else
       sbind (map_fb_for B p (set_display ((display k)\<lparr>owner := Some (p, tid)\<rparr>) k)) (\<lambda>_ k. (Ok True, k)))"

text \<open>The first waiter whose process still exists becomes the owner.\<close>

function hand_off :: "'b bitvec \<Rightarrow> usize \<Rightarrow> usize \<Rightarrow> 'b kernel \<Rightarrow> unit kresult \<times> 'b kernel" where
  "hand_off B row col k =
    (case pop_waiter (display k) of
       (None, d) \<Rightarrow> (Ok (), set_display d k)
     | (Some (wp, wt), d) \<Rightarrow>
         (case process_of k wp of
            Err _ \<Rightarrow> hand_off B row col (set_display d k)
          | Panic \<Rightarrow> (Panic, set_display d k)
          | Ok _ \<Rightarrow>
              sbind (map_fb_for B wp (set_display (d\<lparr>owner := Some (wp, wt)\<rparr>) k)) (\<lambda>_ k.
              wake_thread_with_result wp wt (Scalar2 row col) k)))"
  by pat_completeness auto
termination
  by (relation "measure (\<lambda>(_, _, _, k). waiter_count (display k))")
    (auto simp: pop_waiter_def set_display_def split: if_splits)

declare hand_off.simps [simp del]

definition owner_pid :: "display_state \<Rightarrow> pid option" where
  "owner_pid d = map_option fst (owner d)"

definition release_display :: "'b bitvec \<Rightarrow> usize \<Rightarrow> usize \<Rightarrow> 'b kernel \<Rightarrow> unit kresult \<times> 'b kernel" where
  "release_display B row col k =
    (if owner_pid (display k) \<noteq> Some (cur_pid k) then (Ok (), k)
     else
       sbind (unmap_fb_for (cur_pid k)
         (set_display ((display k)\<lparr>owner := None, cursor_row := row, cursor_col := col\<rparr>) k)) (\<lambda>_ k.
       hand_off B row col k))"

definition release_display_on_exit :: "'b bitvec \<Rightarrow> pid \<Rightarrow> 'b kernel \<Rightarrow> unit kresult \<times> 'b kernel" where
  "release_display_on_exit B p k =
    (if owner_pid (display k) = Some p then
       hand_off B (cursor_row (display k)) (cursor_col (display k))
         (set_display (clear_input_focus ((display k)\<lparr>owner := None\<rparr>)) k)
     else (Ok (), k))"

definition display_cursor :: "'b kernel \<Rightarrow> usize \<times> usize" where
  "display_cursor k = (cursor_row (display k), cursor_col (display k))"

section \<open>Input\<close>

definition release_input_focus :: "'b kernel \<Rightarrow> 'b kernel" where
  "release_input_focus k = set_display (clear_input_focus (display k)) k"

definition acquire_input_focus :: "pid \<Rightarrow> sid \<Rightarrow> 'b kernel \<Rightarrow> u8 list kresult \<times> 'b kernel" where
  "acquire_input_focus p s k =
    (if owner_pid (display k) \<noteq> Some p then (Err AccessDenied, k)
     else (case drain_input_buf (set_input_focus s (display k)) of (buf, d) \<Rightarrow> (Ok buf, set_display d k)))"

definition CONSOLE_CHAR :: usize where "CONSOLE_CHAR = 0"

definition char_message :: "u8 \<Rightarrow> message" where
  "char_message c = Scalar \<lparr>sm_id = CONSOLE_CHAR, sm_arg1 = ucast c, sm_arg2 = 0, sm_arg3 = 0, sm_arg4 = 0\<rparr>"

text \<open>\<open>if let Ok(p) = process_mut(..)\<close> around a method of the process.\<close>

definition ignore_missing :: "pid \<Rightarrow> 'b kernel \<Rightarrow> unit kresult \<times> 'b kernel \<Rightarrow> unit kresult \<times> 'b kernel" where
  "ignore_missing p k m = (case process_of k p of Ok _ \<Rightarrow> m | Err _ \<Rightarrow> (Ok (), k) | Panic \<Rightarrow> (Panic, k))"

definition deliver_char_to_sid :: "sid \<Rightarrow> u8 \<Rightarrow> 'b kernel \<Rightarrow> unit kresult \<times> 'b kernel" where
  "deliver_char_to_sid s c k =
    (case find (\<lambda>i. case servers k ! i of None \<Rightarrow> False | Some sv \<Rightarrow> srv_sid sv = s) [0 ..< length (servers k)] of
       None \<Rightarrow> (Ok (), k)
     | Some sidx \<Rightarrow>
         sbind (find_server sidx k) (\<lambda>sv k.
         let server_pid = srv_pid sv in
         sbind (take_server_thread sidx k) (\<lambda>available k.
         case available of
           Some tid \<Rightarrow>
             sbind (ignore_missing server_pid k (ready_server_thread server_pid tid k)) (\<lambda>_ k.
             drop_error (set_thread_result server_pid tid
               (RespMessageEnvelope \<lparr>env_sender = sender_from_usize 0, env_body = char_message c\<rparr>) k))
         | None \<Rightarrow>
             sbind (drop_error (queue_server_message sidx (nz_lit 1) 1 (char_message c) None k)) (\<lambda>_ k.
             ignore_missing server_pid k (notify_process server_pid 1 k)))))"

definition dispatch_input_char :: "u8 \<Rightarrow> 'b kernel \<Rightarrow> unit kresult \<times> 'b kernel" where
  "dispatch_input_char c k =
    (case input_sid (display k) of
       Some s \<Rightarrow> deliver_char_to_sid s c k
     | None \<Rightarrow> (Ok (), set_display (push_input_char c (display k)) k))"

fun deliver_chars :: "sid \<Rightarrow> u8 list \<Rightarrow> 'b kernel \<Rightarrow> unit kresult \<times> 'b kernel" where
  "deliver_chars s [] k = (Ok (), k)"
| "deliver_chars s (c # cs) k = sbind (deliver_char_to_sid s c k) (\<lambda>_ k. deliver_chars s cs k)"

end
