(* ===== verification/Elf_Loader.thy ===== *)
theory Elf_Loader
  imports Memory_Mapping
begin

text \<open>
  The ELF64 loader, \<open>xous/kernel/src/arch/aarch64/elf.rs\<close>.  The image and the new pages are
  bytes of the physical memory \<open>ram\<close>; the kernel reads the image at its own virtual
  addresses or through the active address space \<open>cur\<close>, and a fault there panics.  The
  random number of the address space layout is an argument.
\<close>

section \<open>Bytes in memory\<close>

definition read_byte :: "(usize \<Rightarrow> u64) \<Rightarrow> usize \<Rightarrow> u8" where
  "read_byte r a = ucast (drop_bit (8 * unat (a AND 7)) (r (a AND NOT 7)))"

definition write_byte :: "usize \<Rightarrow> u8 \<Rightarrow> (usize \<Rightarrow> u64) \<Rightarrow> usize \<Rightarrow> u64" where
  "write_byte a b r =
    (let n = 8 * unat (a AND 7); w = a AND NOT 7
     in r(w := (r w AND NOT (push_bit n 0xFF)) OR push_bit n (ucast b)))"

definition cpu_read :: "memory_mapping \<Rightarrow> 'b vm \<Rightarrow> usize \<Rightarrow> u8 kresult" where
  "cpu_read cur v a =
    (if a \<ge> KERNEL_VA_OFFSET then Ok (read_byte (ram v) a)
     else (case virt_to_phys v cur a of Ok pa \<Rightarrow> Ok (read_byte (ram v) (phys_to_virt pa)) | _ \<Rightarrow> Panic))"

text \<open>\<open>read_unaligned\<close> of a little-endian integer of \<open>n\<close> bytes.\<close>

fun read_le :: "memory_mapping \<Rightarrow> 'b vm \<Rightarrow> usize \<Rightarrow> nat \<Rightarrow> u64 kresult" where
  "read_le cur v a 0 = Ok 0"
| "read_le cur v a (Suc n) =
    obind (cpu_read cur v a) (\<lambda>b. obind (read_le cur v (a + 1) n) (\<lambda>w. Ok (ucast b OR push_bit 8 w)))"

fun write_le :: "usize \<Rightarrow> u64 \<Rightarrow> nat \<Rightarrow> (usize \<Rightarrow> u64) \<Rightarrow> usize \<Rightarrow> u64" where
  "write_le a w 0 r = r"
| "write_le a w (Suc n) r = write_le (a + 1) (drop_bit 8 w) n (write_byte a (ucast w) r)"

text \<open>\<open>copy_nonoverlapping\<close>, byte by byte.\<close>

fun copy_bytes :: "memory_mapping \<Rightarrow> usize \<Rightarrow> usize \<Rightarrow> nat \<Rightarrow> 'b vm \<Rightarrow> unit kresult \<times> 'b vm" where
  "copy_bytes cur src dst 0 v = (Ok (), v)"
| "copy_bytes cur src dst (Suc n) v =
    sbind (cpu_read cur v src, v) (\<lambda>b v.
      copy_bytes cur (src + 1) (dst + 1) n (v\<lparr>ram := write_byte dst b (ram v)\<rparr>))"

section \<open>Headers\<close>

definition ELF_MAGIC :: "u8 list" where "ELF_MAGIC = [0x7f, 0x45, 0x4C, 0x46]"
definition ELFCLASS64 :: u8 where "ELFCLASS64 = 2"
definition ELFDATA2LSB :: u8 where "ELFDATA2LSB = 1"
definition EM_AARCH64 :: u16 where "EM_AARCH64 = 183"
definition ET_DYN :: u16 where "ET_DYN = 3"
definition ET_EXEC :: u16 where "ET_EXEC = 2"
definition PT_LOAD :: u32 where "PT_LOAD = 1"
definition PT_DYNAMIC :: u32 where "PT_DYNAMIC = 2"
definition PF_X :: u32 where "PF_X = 1"
definition PF_W :: u32 where "PF_W = 2"
definition R_AARCH64_RELATIVE :: u32 where "R_AARCH64_RELATIVE = 1027"

record elf64_header =
  e_ident :: "u8 list"
  e_type :: u16
  e_machine :: u16
  e_entry :: u64
  e_phoff :: u64
  e_phnum :: u16

record elf64_phdr =
  ph_type :: u32
  ph_flags :: u32
  ph_offset :: u64
  ph_vaddr :: u64
  ph_filesz :: u64
  ph_memsz :: u64

record elf64_rela =
  r_offset :: u64
  r_info :: u64
  r_addend :: u64

definition HEADER_SIZE :: nat where "HEADER_SIZE = 64"
definition PHDR_SIZE :: usize where "PHDR_SIZE = 56"
definition DYN_SIZE :: nat where "DYN_SIZE = 16"
definition RELA_SIZE :: usize where "RELA_SIZE = 24"

fun read_ident :: "memory_mapping \<Rightarrow> 'b vm \<Rightarrow> usize \<Rightarrow> nat \<Rightarrow> u8 list kresult" where
  "read_ident cur v a 0 = Ok []"
| "read_ident cur v a (Suc n) =
    obind (cpu_read cur v a) (\<lambda>b. obind (read_ident cur v (a + 1) n) (\<lambda>bs. Ok (b # bs)))"

text \<open>The fields the loader uses, at their offsets in the \<open>repr(C)\<close> structures.\<close>

definition read_header :: "memory_mapping \<Rightarrow> 'b vm \<Rightarrow> usize \<Rightarrow> elf64_header kresult" where
  "read_header cur v base =
    obind (read_ident cur v base 16) (\<lambda>ident.
    obind (read_le cur v (base + 16) 2) (\<lambda>ty.
    obind (read_le cur v (base + 18) 2) (\<lambda>mach.
    obind (read_le cur v (base + 24) 8) (\<lambda>entry.
    obind (read_le cur v (base + 32) 8) (\<lambda>phoff.
    obind (read_le cur v (base + 56) 2) (\<lambda>phnum.
    Ok \<lparr>e_ident = ident, e_type = ucast ty, e_machine = ucast mach, e_entry = entry,
        e_phoff = phoff, e_phnum = ucast phnum\<rparr>))))))"

definition read_phdr :: "memory_mapping \<Rightarrow> 'b vm \<Rightarrow> usize \<Rightarrow> nat \<Rightarrow> elf64_phdr kresult" where
  "read_phdr cur v phdr_base i =
    (let a = phdr_base + of_nat i * PHDR_SIZE in
     obind (read_le cur v a 4) (\<lambda>ty.
     obind (read_le cur v (a + 4) 4) (\<lambda>flags.
     obind (read_le cur v (a + 8) 8) (\<lambda>offset.
     obind (read_le cur v (a + 16) 8) (\<lambda>vaddr.
     obind (read_le cur v (a + 32) 8) (\<lambda>filesz.
     obind (read_le cur v (a + 40) 8) (\<lambda>memsz.
     Ok \<lparr>ph_type = ucast ty, ph_flags = ucast flags, ph_offset = offset, ph_vaddr = vaddr,
         ph_filesz = filesz, ph_memsz = memsz\<rparr>)))))))"

definition read_rela :: "memory_mapping \<Rightarrow> 'b vm \<Rightarrow> usize \<Rightarrow> nat \<Rightarrow> elf64_rela kresult" where
  "read_rela cur v rela_base i =
    (let a = rela_base + of_nat i * RELA_SIZE in
     obind (read_le cur v a 8) (\<lambda>off.
     obind (read_le cur v (a + 8) 8) (\<lambda>info.
     obind (read_le cur v (a + 16) 8) (\<lambda>addend.
     Ok \<lparr>r_offset = off, r_info = info, r_addend = addend\<rparr>))))"

section \<open>Checks\<close>

definition header_ok :: "elf64_header \<Rightarrow> bool" where
  "header_ok h \<longleftrightarrow>
    take 4 (e_ident h) = ELF_MAGIC \<and> e_ident h ! 4 = ELFCLASS64 \<and> e_ident h ! 5 = ELFDATA2LSB \<and>
    e_machine h = EM_AARCH64 \<and> (e_type h = ET_DYN \<or> e_type h = ET_EXEC)"

definition ASLR_START :: usize where "ASLR_START = 0x10000"
definition ASLR_END :: usize where "ASLR_END = 0x300000000000"

definition elf_slide :: "elf64_header \<Rightarrow> u32 \<Rightarrow> usize" where
  "elf_slide h random =
    (if e_type h = ET_DYN then
       ASLR_START + ((ucast random :: usize) mod ((ASLR_END - ASLR_START) div of_nat PAGE_SIZE)) * of_nat PAGE_SIZE
     else 0)"

definition segment_wx :: "elf64_phdr \<Rightarrow> bool" where
  "segment_wx ph \<longleftrightarrow> ph_type ph = PT_LOAD \<and> ph_flags ph AND PF_W \<noteq> 0 \<and> ph_flags ph AND PF_X \<noteq> 0"

fun check_wx :: "memory_mapping \<Rightarrow> 'b vm \<Rightarrow> usize \<Rightarrow> nat list \<Rightarrow> unit kresult" where
  "check_wx cur v phdr_base [] = Ok ()"
| "check_wx cur v phdr_base (i # is) =
    obind (read_phdr cur v phdr_base i) (\<lambda>ph.
      if segment_wx ph then Err BadAddress else check_wx cur v phdr_base is)"

section \<open>Segments\<close>

definition segment_flags :: "elf64_phdr \<Rightarrow> memory_flags" where
  "segment_flags ph =
    (let f = flags_empty;
         f = (if ph_flags ph AND PF_W \<noteq> 0 then flags_or f FLAG_W else f)
     in if ph_flags ph AND PF_X \<noteq> 0 then flags_or f FLAG_X else f)"

text \<open>
  What is copied into the page at \<open>page_va\<close>: the offset in the file, the offset in the page
  and the number of bytes.
\<close>

definition copy_plan :: "nat \<Rightarrow> elf64_phdr \<Rightarrow> usize \<Rightarrow> usize \<Rightarrow> (usize \<times> usize \<times> nat) option kresult" where
  "copy_plan len ph vaddr page_va =
    obind (unwrap (checked_add vaddr (ph_filesz ph))) (\<lambda>file_end.
    if page_va < file_end then
      obind (if page_va \<ge> vaddr then unwrap (checked_add (ph_offset ph) (page_va - vaddr)) else Ok (ph_offset ph))
      (\<lambda>src_start.
        let dst_offset = (if page_va < vaddr then vaddr - page_va else 0);
            copy_len = min (PAGE_SIZE - unat dst_offset) (unat file_end - unat (page_va + dst_offset))
        in if copy_len > 0 \<and> unat src_start < len
           then Ok (Some (src_start, dst_offset, min copy_len (len - unat src_start)))
           else Ok None)
    else Ok None)"

definition load_page ::
  "'b bitvec \<Rightarrow> memory_mapping \<Rightarrow> usize \<Rightarrow> nat \<Rightarrow> pid \<Rightarrow> memory_mapping \<Rightarrow> elf64_phdr \<Rightarrow> usize \<Rightarrow> usize \<Rightarrow>
    'b vm \<Rightarrow> unit kresult \<times> 'b vm" where
  "load_page B cur base len p mp ph vaddr page_va v =
    sbind (alloc_table_page B p v) (\<lambda>page_phys v.
      let kva = phys_to_virt page_phys; v = v\<lparr>ram := zero_bytes (ram v) kva (of_nat PAGE_SIZE)\<rparr> in
      sbind (copy_plan len ph vaddr page_va, v) (\<lambda>plan v.
      sbind (case plan of
               None \<Rightarrow> (Ok (), v)
             | Some (src, dst, n) \<Rightarrow> copy_bytes cur (base + src) (kva + dst) n v) (\<lambda>_ v.
      map_page B mp page_phys page_va (segment_flags ph) True v)))"

fun load_pages ::
  "'b bitvec \<Rightarrow> memory_mapping \<Rightarrow> usize \<Rightarrow> nat \<Rightarrow> pid \<Rightarrow> memory_mapping \<Rightarrow> elf64_phdr \<Rightarrow> usize \<Rightarrow> usize list \<Rightarrow>
    'b vm \<Rightarrow> unit kresult \<times> 'b vm" where
  "load_pages B cur base len p mp ph vaddr [] v = (Ok (), v)"
| "load_pages B cur base len p mp ph vaddr (a # as) v =
    sbind (load_page B cur base len p mp ph vaddr a v) (\<lambda>_ v. load_pages B cur base len p mp ph vaddr as v)"

definition page_floor :: "usize \<Rightarrow> usize" where
  "page_floor a = a AND NOT (of_nat (PAGE_SIZE - 1))"

definition load_segment ::
  "'b bitvec \<Rightarrow> memory_mapping \<Rightarrow> usize \<Rightarrow> nat \<Rightarrow> pid \<Rightarrow> memory_mapping \<Rightarrow> usize \<Rightarrow> elf64_phdr \<Rightarrow>
    'b vm \<Rightarrow> unit kresult \<times> 'b vm" where
  "load_segment B cur base len p mp slide ph v =
    (if ph_type ph \<noteq> PT_LOAD then (Ok (), v)
     else
       sbind (unwrap (checked_add (ph_vaddr ph) slide), v) (\<lambda>vaddr v.
       sbind (unwrap (checked_add vaddr (ph_memsz ph)), v) (\<lambda>mem_end v.
       sbind (unwrap (checked_add mem_end (of_nat PAGE_SIZE)), v) (\<lambda>e v.
       load_pages B cur base len p mp ph vaddr (step_range (page_floor vaddr) (page_floor (e - 1))) v))))"

fun load_segments ::
  "'b bitvec \<Rightarrow> memory_mapping \<Rightarrow> usize \<Rightarrow> nat \<Rightarrow> pid \<Rightarrow> memory_mapping \<Rightarrow> usize \<Rightarrow> usize \<Rightarrow> nat list \<Rightarrow>
    'b vm \<Rightarrow> unit kresult \<times> 'b vm" where
  "load_segments B cur base len p mp slide phdr_base [] v = (Ok (), v)"
| "load_segments B cur base len p mp slide phdr_base (i # is) v =
    sbind (read_phdr cur v phdr_base i, v) (\<lambda>ph v.
    sbind (load_segment B cur base len p mp slide ph v) (\<lambda>_ v.
    load_segments B cur base len p mp slide phdr_base is v))"

section \<open>Relocations\<close>

text \<open>The entries of a dynamic table up to \<open>DT_NULL\<close>: address, size and entry size of the relocations.\<close>

fun scan_dynamic ::
  "memory_mapping \<Rightarrow> 'b vm \<Rightarrow> usize \<Rightarrow> nat \<Rightarrow> nat \<Rightarrow> u64 option \<times> u64 \<times> u64 \<Rightarrow>
    (u64 option \<times> u64 \<times> u64) kresult" where
  "scan_dynamic cur v a 0 j acc = Ok acc"
| "scan_dynamic cur v a (Suc n) j (addr, sz, ent) =
    obind (read_le cur v (a + of_nat j * of_nat DYN_SIZE) 8) (\<lambda>tag.
    obind (read_le cur v (a + of_nat j * of_nat DYN_SIZE + 8) 8) (\<lambda>val.
      if tag = 7 then scan_dynamic cur v a n (j + 1) (Some val, sz, ent)
      else if tag = 8 then scan_dynamic cur v a n (j + 1) (addr, val, ent)
      else if tag = 9 then scan_dynamic cur v a n (j + 1) (addr, sz, val)
      else if tag = 0 then Ok (addr, sz, ent)
      else scan_dynamic cur v a n (j + 1) (addr, sz, ent)))"

fun scan_phdrs ::
  "memory_mapping \<Rightarrow> 'b vm \<Rightarrow> usize \<Rightarrow> usize \<Rightarrow> nat list \<Rightarrow> u64 option \<times> u64 \<times> u64 \<Rightarrow>
    (u64 option \<times> u64 \<times> u64) kresult" where
  "scan_phdrs cur v base phdr_base [] acc = Ok acc"
| "scan_phdrs cur v base phdr_base (i # is) acc =
    obind (read_phdr cur v phdr_base i) (\<lambda>ph.
    obind (if ph_type ph = PT_DYNAMIC
           then scan_dynamic cur v (base + ph_offset ph) (unat (ph_filesz ph) div DYN_SIZE) 0 acc
           else Ok acc) (\<lambda>acc.
    scan_phdrs cur v base phdr_base is acc))"

fun va_to_file_offset :: "memory_mapping \<Rightarrow> 'b vm \<Rightarrow> u64 \<Rightarrow> usize \<Rightarrow> nat list \<Rightarrow> usize option kresult" where
  "va_to_file_offset cur v va phdr_base [] = Ok None"
| "va_to_file_offset cur v va phdr_base (i # is) =
    obind (read_phdr cur v phdr_base i) (\<lambda>ph.
      if ph_type ph = PT_LOAD \<and> va \<ge> ph_vaddr ph then
        obind (unwrap (checked_add (ph_vaddr ph) (ph_filesz ph))) (\<lambda>stop.
          if va < stop then obind (unwrap (checked_add (ph_offset ph) (va - ph_vaddr ph))) (\<lambda>off. Ok (Some off))
          else va_to_file_offset cur v va phdr_base is)
      else va_to_file_offset cur v va phdr_base is)"

definition apply_relocation ::
  "memory_mapping \<Rightarrow> usize \<Rightarrow> elf64_rela \<Rightarrow> 'b vm \<Rightarrow> unit kresult \<times> 'b vm" where
  "apply_relocation mp slide rela v =
    (if (ucast (r_info rela AND 0xFFFFFFFF) :: u32) \<noteq> R_AARCH64_RELATIVE then (Ok (), v)
     else
       sbind (unwrap (checked_add (r_offset rela) slide), v) (\<lambda>target v.
         case virt_to_phys v mp target of
           Ok phys \<Rightarrow> (Ok (), v\<lparr>ram := write_le (phys_to_virt phys) (r_addend rela + slide) 8 (ram v)\<rparr>)
         | Err _ \<Rightarrow> (Err BadAddress, v)
         | Panic \<Rightarrow> (Panic, v)))"

fun relocate_each ::
  "memory_mapping \<Rightarrow> memory_mapping \<Rightarrow> usize \<Rightarrow> usize \<Rightarrow> nat list \<Rightarrow> 'b vm \<Rightarrow> unit kresult \<times> 'b vm" where
  "relocate_each cur mp slide rela_base [] v = (Ok (), v)"
| "relocate_each cur mp slide rela_base (i # is) v =
    sbind (read_rela cur v rela_base i, v) (\<lambda>rela v.
    sbind (apply_relocation mp slide rela v) (\<lambda>_ v. relocate_each cur mp slide rela_base is v))"

definition apply_relocations ::
  "memory_mapping \<Rightarrow> usize \<Rightarrow> nat \<Rightarrow> elf64_header \<Rightarrow> usize \<Rightarrow> usize \<Rightarrow> memory_mapping \<Rightarrow>
    'b vm \<Rightarrow> unit kresult \<times> 'b vm" where
  "apply_relocations cur base len h phdr_base slide mp v =
    sbind (scan_phdrs cur v base phdr_base [0 ..< unat (e_phnum h)] (None, 0, 0), v) (\<lambda>(rela_addr, rela_size, rela_ent) v.
      case rela_addr of
        None \<Rightarrow> (Ok (), v)
      | Some rela_va \<Rightarrow>
          if rela_ent = 0 then (Ok (), v)
          else
            sbind (va_to_file_offset cur v rela_va phdr_base [0 ..< unat (e_phnum h)], v) (\<lambda>off v.
            sbind (ok_or off BadAddress, v) (\<lambda>rela_file_off v.
            if unat rela_file_off \<ge> len then (Err BadAddress, v)
            else relocate_each cur mp slide (base + rela_file_off) [0 ..< unat rela_size div unat rela_ent] v)))"

section \<open>Loading\<close>

definition load_elf ::
  "'b bitvec \<Rightarrow> u32 \<Rightarrow> memory_mapping \<Rightarrow> memory_range \<Rightarrow> pid \<Rightarrow> memory_mapping \<Rightarrow> 'b vm \<Rightarrow>
    (usize \<times> usize) kresult \<times> 'b vm" where
  "load_elf B random cur elf_data p mp v =
    (let base = as_ptr elf_data; len = unat (memory_range_len elf_data) in
     if len < HEADER_SIZE then (Err BadAddress, v)
     else
       sbind (read_header cur v base, v) (\<lambda>h v.
       if \<not> header_ok h then (Err BadAddress, v)
       else
         let slide = elf_slide h random; phdr_base = base + e_phoff h; phdrs = [0 ..< unat (e_phnum h)] in
         sbind (check_wx cur v phdr_base phdrs, v) (\<lambda>_ v.
         sbind (load_segments B cur base len p mp slide phdr_base phdrs v) (\<lambda>_ v.
         sbind (if e_type h = ET_DYN then apply_relocations cur base len h phdr_base slide mp v else (Ok (), v)) (\<lambda>_ v.
         sbind (unwrap (checked_add (e_entry h) slide), v) (\<lambda>entry v. (Ok (entry, slide), v)))))))"

end
