(* ===== verification/Process_Lifecycle.thy ===== *)
theory Process_Lifecycle
  imports Display_Control Elf_Loader
begin

text \<open>
  Creation and destruction of servers, threads and processes in \<open>SystemServices\<close>
  (\<open>xous/kernel/src/services.rs\<close>), with the methods they call: \<open>Server::destroy\<close>
  (\<open>server.rs\<close>), \<open>Process::terminate\<close> (\<open>process.rs\<close>) and the creation of a process
  from an ELF image (\<open>arch/aarch64/process.rs\<close>).
\<close>

section \<open>Destroying a server\<close>

definition ready_thread_of :: "pid \<Rightarrow> nat \<Rightarrow> 'b kernel \<Rightarrow> unit kresult \<times> 'b kernel" where
  "ready_thread_of p tid k = unwrap_result (with_proc_sched p (set_thread_state tid TReady) k)"

definition unblock_scalar :: "pid \<Rightarrow> u8 \<Rightarrow> 'b kernel \<Rightarrow> unit kresult \<times> 'b kernel" where
  "unblock_scalar p t k =
    sbind (unwrap_result (set_thread_result p (unat t) (RespError ServerNotFound) k)) (\<lambda>_ k.
    ready_thread_of p (unat t) k)"

definition unblock_lender ::
  "pid \<Rightarrow> u8 \<Rightarrow> memory_address \<Rightarrow> memory_address \<Rightarrow> memory_size \<Rightarrow> 'b kernel \<Rightarrow> unit kresult \<times> 'b kernel" where
  "unblock_lender p t client_addr server_addr buf_size k =
    sbind (unwrap_result (return_memory (nz_get server_addr) p (nz_get client_addr) (nz_get buf_size) k)) (\<lambda>_ k.
    sbind (ready_thread_of p (unat t) k) (\<lambda>_ k.
    unwrap_result (set_thread_result p (unat t) (RespError ServerNotFound) k)))"

definition free_buffer :: "'b bitvec \<Rightarrow> memory_address \<Rightarrow> memory_size \<Rightarrow> 'b kernel \<Rightarrow> unit kresult \<times> 'b kernel" where
  "free_buffer B server_addr buf_size k = unwrap_result (unmap_range B (nz_get server_addr) (nz_get buf_size) k)"

fun destroy_entry :: "'b bitvec \<Rightarrow> queued_message \<Rightarrow> 'b kernel \<Rightarrow> unit kresult \<times> 'b kernel" where
  "destroy_entry B Empty k = (Ok (), k)"
| "destroy_entry B (QScalar _ _ _ _ _ _ _) k = (Ok (), k)"
| "destroy_entry B (QBlockingScalarTerminated _ _ _ _ _ _) k = (Ok (), k)"
| "destroy_entry B WaitingReturnScalarTerminated k = (Ok (), k)"
| "destroy_entry B (QSend _ _ _ sa bs _ _) k = free_buffer B sa bs k"
| "destroy_entry B (WaitingForget sa bs) k = free_buffer B sa bs k"
| "destroy_entry B (QROLendTerminated _ _ sa bs _ _) k = free_buffer B sa bs k"
| "destroy_entry B (QRWLendTerminated _ _ sa bs _ _) k = free_buffer B sa bs k"
| "destroy_entry B (QBlockingScalar p t _ _ _ _ _ _) k = unblock_scalar p t k"
| "destroy_entry B (WaitingReturnScalar p t) k = unblock_scalar p t k"
| "destroy_entry B (QROLend p t _ _ ca sa bs _ _) k = unblock_lender p t ca sa bs k"
| "destroy_entry B (QRWLend p t _ _ ca sa bs _ _) k = unblock_lender p t ca sa bs k"
| "destroy_entry B (WaitingReturnMemory p t sa ca bs) k = unblock_lender p t ca sa bs k"

fun destroy_entries :: "'b bitvec \<Rightarrow> queued_message list \<Rightarrow> 'b kernel \<Rightarrow> unit kresult \<times> 'b kernel" where
  "destroy_entries B [] k = (Ok (), k)"
| "destroy_entries B (q # qs) k = sbind (destroy_entry B q k) (\<lambda>_ k. destroy_entries B qs k)"

text \<open>
  The loop that wakes the parked threads clears one of the 64 bits of \<open>ready_threads\<close> in each
  iteration, so 65 steps are enough.
\<close>

fun wake_parked :: "nat \<Rightarrow> server \<Rightarrow> 'b kernel \<Rightarrow> unit kresult \<times> 'b kernel" where
  "wake_parked 0 sv k = (Panic, k)"
| "wake_parked (Suc n) sv k =
    (case take_available_thread sv of
       Some (Ok None, _) \<Rightarrow> (Ok (), k)
     | Some (Ok (Some tid), sv) \<Rightarrow>
         sbind (ready_thread_of (cur_pid k) tid k) (\<lambda>_ k.
         sbind (unwrap_result (set_thread_result (cur_pid k) tid (RespError ServerNotFound) k)) (\<lambda>_ k.
         wake_parked n sv k))
     | _ \<Rightarrow> (Panic, k))"

definition QUEUED_MESSAGE_SIZE :: nat where "QUEUED_MESSAGE_SIZE = 8 * 8"

definition server_destroy :: "'b bitvec \<Rightarrow> server \<Rightarrow> 'b kernel \<Rightarrow> unit kresult \<times> 'b kernel" where
  "server_destroy B sv k =
    sbind (destroy_entries B (queue sv) k) (\<lambda>_ k.
    sbind (wake_parked 65 sv k) (\<lambda>_ k.
    unwrap_result (unmap_range B (queue_base sv) (of_nat (QUEUED_MESSAGE_SIZE * length (queue sv))) k)))"

fun tombstone_all :: "nat \<Rightarrow> nat list \<Rightarrow> 'b kernel \<Rightarrow> unit kresult \<times> 'b kernel" where
  "tombstone_all sidx [] k = (Ok (), k)"
| "tombstone_all sidx (i # is) k =
    (case processes k ! i of
       None \<Rightarrow> tombstone_all sidx is k
     | Some pr \<Rightarrow>
         (case tombstone_connection_by_sidx sidx pr of (cid, pr') \<Rightarrow>
            let k = k\<lparr>processes := (processes k)[i := Some pr']\<rparr> in
            sbind (case cid of
                     None \<Rightarrow> (Ok (), k)
                   | Some c \<Rightarrow> drop_error (send_event (p_pid pr) Disconnected [ucast c, 0, 0, 0] k)) (\<lambda>_ k.
            tombstone_all sidx is k)))"

definition destroy_sidx :: "'b bitvec \<Rightarrow> nat \<Rightarrow> 'b kernel \<Rightarrow> unit kresult \<times> 'b kernel" where
  "destroy_sidx B sidx k =
    (if sidx \<ge> length (servers k) then (Panic, k)
     else (case servers k ! sidx of
        None \<Rightarrow> (Panic, k)
      | Some sv \<Rightarrow>
          sbind (server_destroy B sv (k\<lparr>servers := (servers k)[sidx := None]\<rparr>)) (\<lambda>_ k.
          tombstone_all sidx [0 ..< length (processes k)] k)))"

definition destroy_server :: "'b bitvec \<Rightarrow> pid \<Rightarrow> sid \<Rightarrow> 'b kernel \<Rightarrow> unit kresult \<times> 'b kernel" where
  "destroy_server B p s k =
    sbind (ok_or (sidx_from_sid k s p) ServerNotFound, k) (\<lambda>sidx k. destroy_sidx B sidx k)"

section \<open>Creating a server\<close>

text \<open>
  The layout of a slot: the discriminant, then the fields of the variant in order, with
  the bytes \<open>pid\<close>, \<open>tid\<close> and \<open>idx\<close> in the second word.  A word that is no discriminant, or a
  zero in a non-zero field, is not a value of the type.
\<close>

definition word_byte :: "u64 \<Rightarrow> nat \<Rightarrow> u8" where
  "word_byte w i = ucast (drop_bit (8 * i) w)"

definition decode_slot :: "u64 list \<Rightarrow> queued_message option" where
  "decode_slot ws =
    (let b = word_byte (ws ! 1); p = nz_new (b 0) in
     if ws ! 0 = 0 then Some Empty
     else if ws ! 0 = 1 then
       map_option (\<lambda>p. QBlockingScalar p (b 1) (b 2) (ws ! 2) (ws ! 3) (ws ! 4) (ws ! 5) (ws ! 6)) p
     else if ws ! 0 = 2 then map_option (\<lambda>p. QScalar p (b 1) (ws ! 2) (ws ! 3) (ws ! 4) (ws ! 5) (ws ! 6)) p
     else if ws ! 0 = 3 then
       (case (p, nz_new (ws ! 3), nz_new (ws ! 4)) of
          (Some p, Some sa, Some bs) \<Rightarrow> Some (QSend p (b 1) (ws ! 2) sa bs (ws ! 5) (ws ! 6))
        | _ \<Rightarrow> None)
     else if ws ! 0 = 4 \<or> ws ! 0 = 5 then
       (case (p, nz_new (ws ! 3), nz_new (ws ! 4), nz_new (ws ! 5)) of
          (Some p, Some ca, Some sa, Some bs) \<Rightarrow>
            Some ((if ws ! 0 = 4 then QROLend else QRWLend) p (b 1) (b 2) (ws ! 2) ca sa bs (ws ! 6) (ws ! 7))
        | _ \<Rightarrow> None)
     else if ws ! 0 = 6 \<or> ws ! 0 = 7 then
       (case (nz_new (ws ! 3), nz_new (ws ! 4)) of
          (Some sa, Some bs) \<Rightarrow>
            Some ((if ws ! 0 = 6 then QROLendTerminated else QRWLendTerminated) (b 0) (ws ! 2) sa bs (ws ! 5) (ws ! 6))
        | _ \<Rightarrow> None)
     else if ws ! 0 = 8 then
       Some (QBlockingScalarTerminated (b 0) (ws ! 2) (ws ! 3) (ws ! 4) (ws ! 5) (ws ! 6))
     else if ws ! 0 = 9 then
       (case (p, nz_new (ws ! 2), nz_new (ws ! 3), nz_new (ws ! 4)) of
          (Some p, Some sa, Some ca, Some bs) \<Rightarrow> Some (WaitingReturnMemory p (b 1) sa ca bs)
        | _ \<Rightarrow> None)
     else if ws ! 0 = 10 then
       (case (nz_new (ws ! 1), nz_new (ws ! 2)) of (Some sa, Some bs) \<Rightarrow> Some (WaitingForget sa bs) | _ \<Rightarrow> None)
     else if ws ! 0 = 11 then map_option (\<lambda>p. WaitingReturnScalar p (b 1)) p
     else if ws ! 0 = 12 then Some WaitingReturnScalarTerminated
     else None)"

definition slot_words :: "(usize \<Rightarrow> u64) \<Rightarrow> usize \<Rightarrow> nat \<Rightarrow> u64 list" where
  "slot_words r base i = map (\<lambda>j. r (base + of_nat (QUEUED_MESSAGE_SIZE * i + 8 * j))) [0 ..< 8]"

text \<open>The page seen as slots; a page whose bytes are no slots is a \<open>Panic\<close> of the model.\<close>

definition view_slots :: "(usize \<Rightarrow> u64) \<Rightarrow> usize \<Rightarrow> queued_message list kresult" where
  "view_slots r base =
    (let slots = map (\<lambda>i. decode_slot (slot_words r base i)) [0 ..< PAGE_SIZE div QUEUED_MESSAGE_SIZE] in
     if list_all (\<lambda>q. q \<noteq> None) slots then Ok (map the slots) else Panic)"

definition create_server_with_address ::
  "'b bitvec \<Rightarrow> sid \<Rightarrow> usize \<times> usize \<Rightarrow> 'b kernel \<Rightarrow> sid kresult \<times> 'b kernel" where
  "create_server_with_address B s perms k =
    (case find (\<lambda>i. servers k ! i = None) [0 ..< length (servers k)] of
       None \<Rightarrow> (Err ServerNotFound, k)
     | Some i \<Rightarrow>
         let p = cur_pid k in
         sbind (map_range B 0 0 (of_nat PAGE_SIZE) (flags_or FLAG_W FLAG_POPULATE) False k) (\<lambda>backing k.
         sbind (unwrap_result (virt_to_phys (kvm k) (cur_map k) (as_ptr backing), k)) (\<lambda>phys k.
         sbind (view_slots (ram (kvm k)) (phys_to_virt phys), k) (\<lambda>slots k.
         case server_init None p s (as_ptr backing) slots perms of
           (Ok _, entry) \<Rightarrow>
             sbind (wake_threads_with_state (RetryConnect (quick_hash s)) (- 1)
               (k\<lparr>servers := (servers k)[i := entry]\<rparr>)) (\<lambda>_ k.
             (Ok s, k))
         | _ \<Rightarrow> (Panic, k)))))"

definition create_server_id :: "(nat \<Rightarrow> u32) \<Rightarrow> sid" where
  "create_server_id random = SID (random 0) (random 1) (random 2) (random 3)"

section \<open>Threads\<close>

fun wake_joiners :: "nat \<Rightarrow> usize \<Rightarrow> nat list \<Rightarrow> 'b kernel \<Rightarrow> unit kresult \<times> 'b kernel" where
  "wake_joiners tid value [] k = (Ok (), k)"
| "wake_joiners tid value (w # ws) k =
    sbind (current_process k, k) (\<lambda>pr k.
    sbind (if kernel_future_of pr w = Some (FWaitJoin tid)
           then wake_thread_with_result (cur_pid k) w (Scalar1 value) k else (Ok (), k)) (\<lambda>_ k.
    wake_joiners tid value ws k))"

definition thread_exited :: "'b bitvec \<Rightarrow> nat \<Rightarrow> 'b kernel \<Rightarrow> xous_result kresult \<times> 'b kernel" where
  "thread_exited B tid k =
    sbind (unwrap_result (with_proc_sched (cur_pid k) (set_thread_state tid TFree) k)) (\<lambda>_ k.
    sbind (unwrap_result (with_process (cur_pid k)
      (\<lambda>pr. (Ok (), snd (take_mailbox tid (snd (take_kernel_future tid pr))))) k)) (\<lambda>_ k.
    sbind (if tid \<noteq> IRQ_TID then
             sbind (on_ptable (destroy_thread (cur_pid k) tid) k) (\<lambda>destroyed k.
             let (value, stack) = (case destroyed of None \<Rightarrow> (0, None) | Some d \<Rightarrow> d) in
             sbind (case stack of
                      None \<Rightarrow> (Ok (), k)
                    | Some st \<Rightarrow> drop_error (unmap_range B (as_ptr st) (memory_range_len st) k)) (\<lambda>_ k.
             wake_joiners tid value [0 ..< MAX_THREAD_COUNT] k))
           else (Ok (), k)) (\<lambda>_ k.
    activate_current k)))"

definition join_thread :: "nat \<Rightarrow> nat \<Rightarrow> 'b kernel \<Rightarrow> xous_result kresult \<times> 'b kernel" where
  "join_thread tid join_tid k =
    sbind (current_process k, k) (\<lambda>pr k.
    if tid = join_tid then (Err ThreadNotAvailable, k)
    else
      sbind (thread_state_of pr join_tid, k) (\<lambda>st k.
      if st \<noteq> TFree then
        sbind (suspend_with_future tid (FWaitJoin join_tid) EVENT_KERNEL k) (\<lambda>_ k. activate_current k)
      else (Ok (Scalar1 0), k)))"

section \<open>Terminating a process\<close>

fun free_threads :: "nat list \<Rightarrow> proc_sched \<Rightarrow> unit kresult \<times> proc_sched" where
  "free_threads [] ps = (Ok (), ps)"
| "free_threads (tid # tids) ps =
    sbind (set_thread_state tid TFree ps) (\<lambda>_ ps.
    if tid < length (p_kernel_futures (fst ps)) \<and> tid < length (p_result_mailbox (fst ps)) then
      free_threads tids ((fst ps)\<lparr>p_kernel_futures := (p_kernel_futures (fst ps))[tid := None],
                                 p_result_mailbox := (p_result_mailbox (fst ps))[tid := None]\<rparr>, snd ps)
    else (Panic, ps))"

definition on_irqs :: "(irq_table \<Rightarrow> 'a kresult \<times> irq_table) \<Rightarrow> 'b kernel \<Rightarrow> 'a kresult \<times> 'b kernel" where
  "on_irqs f k = (case f (irqs k) of (r, t) \<Rightarrow> (r, k\<lparr>irqs := t\<rparr>))"

definition process_terminate :: "'b bitvec \<Rightarrow> pid \<Rightarrow> 'b kernel \<Rightarrow> unit kresult \<times> 'b kernel" where
  "process_terminate B p k =
    sbind (process_of k p, k) (\<lambda>pr k.
    sbind (with_proc_sched p (free_threads [1 ..< MAX_THREAD_COUNT]) k) (\<lambda>_ k.
    sbind (on_mm (\<lambda>m. release_all_memory_for_process B m (get_pid (p_mapping pr))) k) (\<lambda>_ k.
    sbind (on_irqs (release_interrupts_for_pid (p_pid pr)) k) (\<lambda>_ k.
    on_ptable (arch_destroy (p_pid pr)) k))))"

fun leave_servers :: "'b bitvec \<Rightarrow> pid \<Rightarrow> nat list \<Rightarrow> 'b kernel \<Rightarrow> unit kresult \<times> 'b kernel" where
  "leave_servers B p [] k = (Ok (), k)"
| "leave_servers B p (sidx # is) k =
    (case servers k ! sidx of
       None \<Rightarrow> leave_servers B p is k
     | Some sv \<Rightarrow>
         if srv_pid sv = p then sbind (destroy_sidx B sidx k) (\<lambda>_ k. leave_servers B p is k)
         else
           sbind (unwrap_result (process_of k (srv_pid sv), k)) (\<lambda>spr k.
           let k = activate_process spr k in
           let k = put_server sidx (discard_messages_for_pid sv p) k in
           sbind (process_of k p, k) (\<lambda>pr k.
           leave_servers B p is (activate_process pr k))))"

text \<open>The threads waiting for the exit of \<open>p\<close>, of which the first 64 are woken.\<close>

definition exit_waiters :: "'b kernel \<Rightarrow> pid \<Rightarrow> (pid \<times> nat) list" where
  "exit_waiters k p =
    take 64 (concat (map (\<lambda>pr. map (\<lambda>t. (p_pid pr, t))
      (filter (\<lambda>t. kernel_future_of pr t = Some (FWaitProcessExit p)) [1 ..< MAX_THREAD_COUNT]))
      (List.map_filter (\<lambda>x. x) (processes k))))"

fun wake_exit_waiters :: "usize \<Rightarrow> (pid \<times> nat) list \<Rightarrow> 'b kernel \<Rightarrow> unit kresult \<times> 'b kernel" where
  "wake_exit_waiters code [] k = (Ok (), k)"
| "wake_exit_waiters code ((p, t) # ws) k =
    sbind (wake_thread_with_result p t (Scalar1 code) k) (\<lambda>_ k. wake_exit_waiters code ws k)"

definition orphan_children :: "pid \<Rightarrow> 'b kernel \<Rightarrow> 'b kernel" where
  "orphan_children p k =
    k\<lparr>processes := map (map_option (\<lambda>pr. if p_ppid pr = Some p then pr\<lparr>p_ppid := None\<rparr> else pr)) (processes k)\<rparr>"

definition pid1 :: pid where "pid1 = nz_lit 1"

definition terminate_current_process :: "'b bitvec \<Rightarrow> u32 \<Rightarrow> 'b kernel \<Rightarrow> xous_result kresult \<times> 'b kernel" where
  "terminate_current_process B ret k =
    (let p = cur_pid k in
     sbind (current_process k, k) (\<lambda>pr k.
     if ret \<noteq> 0 \<and> p_ppid pr = Some pid1 then (Panic, k)
     else
       sbind (leave_servers B p [0 ..< length (servers k)] k) (\<lambda>_ k.
       sbind (current_process k, k) (\<lambda>pr k.
       sbind (case p_ppid pr of
                None \<Rightarrow> (Ok (), k)
              | Some pp \<Rightarrow> drop_error (send_event pp ChildTerminated [ucast ret, 0, 0, 0] k)) (\<lambda>_ k.
       sbind (wake_exit_waiters (ucast ret) (exit_waiters k p) k) (\<lambda>_ k.
       sbind (release_display_on_exit B p k) (\<lambda>_ k.
       sbind (process_terminate B p k) (\<lambda>_ k.
       sbind (free_process p k) (\<lambda>_ k.
       sbind (unwrap_result (process_of k pid1, k)) (\<lambda>idle k.
       activate_current (orphan_children p (activate_process idle k))))))))))))"

definition terminate_process :: "'b bitvec \<Rightarrow> nat \<Rightarrow> pid \<Rightarrow> u32 \<Rightarrow> 'b kernel \<Rightarrow> xous_result kresult \<times> 'b kernel" where
  "terminate_process B caller_tid p ret k =
    sbind (process_of k p, k) (\<lambda>pr k.
    if p_ppid pr = Some pid1 then (Err AccessDenied, k)
    else
      sbind (set_thread_result (cur_pid k) caller_tid RespOk k) (\<lambda>_ k.
      sbind (unwrap_result (process_of k p, k)) (\<lambda>pr k.
      terminate_current_process B ret (activate_process pr k))))"

section \<open>Creating a process\<close>

definition USER_IRQ_STACK_BOTTOM :: usize where "USER_IRQ_STACK_BOTTOM = 0x6FE000000000"
definition USER_IRQ_STACK_PAGE_COUNT :: nat where "USER_IRQ_STACK_PAGE_COUNT = 3"

text \<open>Fresh zeroed pages for a stack.\<close>

definition map_stack_page :: "'b bitvec \<Rightarrow> pid \<Rightarrow> memory_mapping \<Rightarrow> usize \<Rightarrow> 'b vm \<Rightarrow> unit kresult \<times> 'b vm" where
  "map_stack_page B p mp va v =
    sbind (alloc_table_page B p v) (\<lambda>phys v.
      map_page B mp phys va FLAG_W True
        (v\<lparr>ram := zero_bytes (ram v) (phys_to_virt phys) (of_nat PAGE_SIZE)\<rparr>))"

fun map_stack :: "'b bitvec \<Rightarrow> pid \<Rightarrow> memory_mapping \<Rightarrow> usize \<Rightarrow> nat list \<Rightarrow> 'b vm \<Rightarrow> unit kresult \<times> 'b vm" where
  "map_stack B p mp base [] v = (Ok (), v)"
| "map_stack B p mp base (i # is) v =
    sbind (map_stack_page B p mp (base + of_nat (i * PAGE_SIZE)) v) (\<lambda>_ v. map_stack B p mp base is v)"

definition stack_range :: "usize \<Rightarrow> nat \<Rightarrow> memory_range kresult" where
  "stack_range bottom pages =
    (case memory_range_new (bottom - of_nat (pages * PAGE_SIZE)) (of_nat (pages * PAGE_SIZE)) of
       Err _ \<Rightarrow> Err BadAddress | r \<Rightarrow> r)"

definition new_table_entry :: "pid \<Rightarrow> process_table \<Rightarrow> unit kresult \<times> process_table" where
  "new_table_entry p tab =
    (if pid_index p \<ge> MAX_PROCESS_COUNT then (Err OutOfMemory, tab)
     else sbind (table_slot tab p, tab) (\<lambda>slot tab.
       if slot \<noteq> None then (Err ProcessNotFound, tab)
       else (Ok (), table_put tab p
         (Some (update_thread (INITIAL_TID - 1) (\<lambda>t. t\<lparr>allocated := True\<rparr>) process_impl_new)))))"

definition arch_create :: "'b bitvec \<Rightarrow> u32 \<Rightarrow> pid \<Rightarrow> memory_range \<Rightarrow> 'b kernel \<Rightarrow> process_startup kresult \<times> 'b kernel" where
  "arch_create B random p elf k =
    sbind (on_ptable (new_table_entry p) k) (\<lambda>_ k.
    sbind (process_of k p, k) (\<lambda>pr k.
    sbind (on_vm (load_elf B random (cur_map k) elf p (p_mapping pr)) k) (\<lambda>(entry, slide) k.
    sbind (stack_range USER_STACK_BOTTOM STACK_PAGE_COUNT, k) (\<lambda>stack k.
    sbind (process_of k p, k) (\<lambda>pr k.
    sbind (on_vm (map_stack B p (p_mapping pr) (as_ptr stack) [0 ..< STACK_PAGE_COUNT]) k) (\<lambda>_ k.
    sbind (stack_range USER_IRQ_STACK_BOTTOM USER_IRQ_STACK_PAGE_COUNT, k) (\<lambda>irq_stack k.
    sbind (process_of k p, k) (\<lambda>pr k.
    sbind (on_vm (map_stack B p (p_mapping pr) (as_ptr irq_stack) [0 ..< USER_IRQ_STACK_PAGE_COUNT]) k) (\<lambda>_ k.
    sbind (on_ptable (setup_process \<lparr>su_pid = p, su_entry_point = entry, su_stack = stack,
                        su_irq_stack = irq_stack, su_aslr_slide = slide\<rparr>) k) (\<lambda>_ k.
    (Ok \<lparr>ps_pid = p\<rparr>, k)))))))))))"

definition mapping_default :: memory_mapping where
  "mapping_default = \<lparr>ttbr0 = 0, mapping_pid = 0, aslr_slide = 0\<rparr>"

text \<open>\<open>name\<close> reads the 64 bytes at the address of the name.\<close>

definition create_process_from ::
  "'b bitvec \<Rightarrow> u32 \<Rightarrow> memory_range \<Rightarrow> ('b kernel \<Rightarrow> u8 list kresult) \<Rightarrow> app_id \<Rightarrow> 'b kernel \<Rightarrow>
    process_startup kresult \<times> 'b kernel" where
  "create_process_from B random elf name app k =
    (let ppid = cur_pid k in
     case find (\<lambda>i. processes k ! i = None) [0 ..< length (processes k)] of
       None \<Rightarrow> (Err OutOfMemory, k)
     | Some i \<Rightarrow>
         sbind (pid_from_usize (of_nat (i + 1)), k) (\<lambda>p k.
         sbind (on_vm (mapping_allocate B p mapping_default) k) (\<lambda>mapping k.
         sbind (name k, k) (\<lambda>bs k.
         case set_name bs (process_new mapping p ppid app) of
           (Ok _, pr) \<Rightarrow>
             (case set_thread_state INITIAL_TID TReady (pr, sched k) of
                (Ok _, (pr, s)) \<Rightarrow>
                  unwrap_result (arch_create B random p elf
                    (k\<lparr>sched := s, processes := (processes k)[i := Some pr]\<rparr>))
              | _ \<Rightarrow> (Panic, k))
         | (Err e, _) \<Rightarrow> (Err e, k)
         | (Panic, _) \<Rightarrow> (Panic, k)))))"

definition create_process :: "'b bitvec \<Rightarrow> u32 \<Rightarrow> process_init \<Rightarrow> 'b kernel \<Rightarrow> process_startup kresult \<times> 'b kernel" where
  "create_process B random init k =
    create_process_from B random (pi_elf init)
      (\<lambda>k. read_ident (cur_map k) (kvm k) (nz_get (pi_name_addr init)) MAX_PROCESS_NAME_LEN) (pi_app_id init) k"

definition pid_from_app_id :: "'b kernel \<Rightarrow> app_id \<Rightarrow> pid option" where
  "pid_from_app_id k a =
    map_option p_pid (find (\<lambda>pr. p_app_id pr = a) (List.map_filter (\<lambda>x. x) (processes k)))"

section \<open>Spawning embedded programs\<close>

text \<open>
  \<open>BINARY_TABLE\<close>, the names and addresses of the programs the build embeds in the kernel
  image, is the argument \<open>bins\<close>.
\<close>

type_synonym binary_table = "(u8 list \<times> usize \<times> usize) list"

definition SHELL_UART_VA :: usize where "SHELL_UART_VA = 0x1001000000"
definition UART_PHYS :: usize where "UART_PHYS = 0x09000000"
definition ARGV_PAGE_VA :: usize where "ARGV_PAGE_VA = 0x1003000000"
definition ARGV_MAX_LEN :: nat where "ARGV_MAX_LEN = PAGE_SIZE"

definition lookup_binary :: "binary_table \<Rightarrow> u8 list \<Rightarrow> (usize \<times> usize) option" where
  "lookup_binary bins name = map_option snd (find (\<lambda>b. fst b = name) bins)"

definition set_thread_args :: "nat \<Rightarrow> usize \<Rightarrow> usize \<Rightarrow> usize \<Rightarrow> process_table \<Rightarrow> unit kresult \<times> process_table" where
  "set_thread_args i x0 x1 x2 tab =
    (if i \<ge> length tab then (Panic, tab)
     else (case tab ! i of
        None \<Rightarrow> (Ok (), tab)
      | Some pr \<Rightarrow>
          (Ok (), tab[i := Some (update_thread (INITIAL_TID - 1)
             (\<lambda>t. t\<lparr>gpr := (gpr t)[0 := x0, 1 := x1, 2 := x2]\<rparr>) pr)])))"

definition spawn_process ::
  "'b bitvec \<Rightarrow> u32 \<Rightarrow> binary_table \<Rightarrow> u8 list \<Rightarrow> 'b kernel \<Rightarrow> pid kresult \<times> 'b kernel" where
  "spawn_process B random bins name k =
    sbind (ok_or (lookup_binary bins name) ProcessNotFound, k) (\<lambda>(addr, len) k.
    sbind (case memory_range_new addr len of Err _ \<Rightarrow> (Err InternalError, k) | r \<Rightarrow> (r, k)) (\<lambda>elf k.
    let buf = take MAX_PROCESS_NAME_LEN (name @ replicate MAX_PROCESS_NAME_LEN 0) in
    sbind (create_process_from B random elf (\<lambda>_. Ok buf) (app_id_from_words 0 0 0 0) k) (\<lambda>startup k.
    let p = ps_pid startup in
    sbind (with_process p (\<lambda>pr. (Ok (), pr\<lparr>p_syscall_permissions := - 1\<rparr>)) k) (\<lambda>_ k.
    sbind (unwrap_result (process_of k p, k)) (\<lambda>pr k.
    sbind (drop_error (on_vm (map_page B (p_mapping pr) UART_PHYS SHELL_UART_VA (flags_or FLAG_W FLAG_DEV) True) k)) (\<lambda>_ k.
    (Ok p, k)))))))"

definition spawn_by_name ::
  "'b bitvec \<Rightarrow> u32 \<Rightarrow> binary_table \<Rightarrow> u8 list \<Rightarrow> 'b kernel \<Rightarrow> pid kresult \<times> 'b kernel" where
  "spawn_by_name B random bins name k =
    sbind (spawn_process B random bins name k) (\<lambda>p k.
    sbind (on_ptable (set_thread_args (pid_index p) SHELL_UART_VA 0 0) k) (\<lambda>_ k. (Ok p, k)))"

fun write_bytes_at :: "usize \<Rightarrow> u8 list \<Rightarrow> (usize \<Rightarrow> u64) \<Rightarrow> usize \<Rightarrow> u64" where
  "write_bytes_at a [] r = r"
| "write_bytes_at a (b # bs) r = write_bytes_at (a + 1) bs (write_byte a b r)"

definition argv_bytes :: "'b vm \<Rightarrow> memory_mapping \<Rightarrow> usize \<Rightarrow> usize \<Rightarrow> u8 list kresult" where
  "argv_bytes v caller ptr len =
    (case virt_to_phys v caller ptr of
       Ok pa \<Rightarrow>
         let use_len = min (min (unat len) ARGV_MAX_LEN) 256;
             safe_len = min use_len (PAGE_SIZE - unat ptr mod PAGE_SIZE)
         in Ok (map (\<lambda>i. read_byte (ram v) (phys_to_virt pa + of_nat i)) [0 ..< safe_len])
     | Err _ \<Rightarrow> Err BadAddress
     | Panic \<Rightarrow> Panic)"

definition map_argv :: "'b bitvec \<Rightarrow> pid \<Rightarrow> u8 list \<Rightarrow> memory_mapping \<Rightarrow> 'b vm \<Rightarrow> unit kresult \<times> 'b vm" where
  "map_argv B p bs mp v =
    (case alloc_range B (mm v) 1 p of
       (Ok (phys, zeroed), m) \<Rightarrow>
         let kva = phys_to_virt phys;
             r = (if zeroed then ram v else zero_bytes (ram v) kva (of_nat PAGE_SIZE))
         in (case map_page B mp phys ARGV_PAGE_VA flags_empty True (v\<lparr>mm := m, ram := write_bytes_at kva bs r\<rparr>) of
               (Err _, v) \<Rightarrow> (Err InternalError, v) | r \<Rightarrow> r)
     | (Err e, m) \<Rightarrow> (Err e, v\<lparr>mm := m\<rparr>)
     | (Panic, m) \<Rightarrow> (Panic, v\<lparr>mm := m\<rparr>))"

definition spawn_by_name_with_args ::
  "'b bitvec \<Rightarrow> u32 \<Rightarrow> binary_table \<Rightarrow> u8 list \<Rightarrow> usize \<Rightarrow> usize \<Rightarrow> 'b kernel \<Rightarrow> pid kresult \<times> 'b kernel" where
  "spawn_by_name_with_args B random bins name argv_ptr argv_len k =
    sbind (spawn_process B random bins name k) (\<lambda>p k.
    sbind (if argv_ptr \<noteq> 0 \<and> argv_len > 0 then
             sbind (case process_of k (cur_pid k) of Err _ \<Rightarrow> (Err InternalError, k) | r \<Rightarrow> (r, k)) (\<lambda>caller k.
             sbind (argv_bytes (kvm k) (p_mapping caller) argv_ptr argv_len, k) (\<lambda>bs k.
             sbind (unwrap_result (process_of k p, k)) (\<lambda>pr k.
             sbind (on_vm (map_argv B p bs (p_mapping pr)) k) (\<lambda>_ k. (Ok (length bs), k)))))
           else (Ok 0, k)) (\<lambda>actual k.
    sbind (on_ptable (set_thread_args (pid_index p) SHELL_UART_VA (if actual > 0 then ARGV_PAGE_VA else 0)
             (of_nat actual)) k) (\<lambda>_ k. (Ok p, k))))"

section \<open>The kernel process\<close>

definition KERNEL_STACK_BOTTOM :: usize where "KERNEL_STACK_BOTTOM = 0xFFFFFFFFFFF80000"
definition KERNEL_STACK_PAGE_COUNT :: nat where "KERNEL_STACK_PAGE_COUNT = 16"
definition KERNEL_IRQ_HANDLER_STACK_BOTTOM :: usize where "KERNEL_IRQ_HANDLER_STACK_BOTTOM = 0xFFFFFFFFFFFE4000"
definition KERNEL_IRQ_HANDLER_STACK_PAGE_COUNT :: nat where "KERNEL_IRQ_HANDLER_STACK_PAGE_COUNT = 4"

definition init_pid1 :: "'b kernel \<Rightarrow> unit kresult \<times> 'b kernel" where
  "init_pid1 k =
    (let pr = process_new (cur_map k) pid1 pid1 (app_id_from_words 0x31444950 0 0 0) in
     case set_thread_priority INITIAL_TID Idle (pr, sched k) of
       (Ok _, ps) \<Rightarrow>
         (case set_thread_state INITIAL_TID TReady ps of
            (Ok _, (pr, s)) \<Rightarrow>
              (case set_name [0x6B, 0x65, 0x72, 0x6E, 0x65, 0x6C] pr of
                 (Ok _, pr) \<Rightarrow>
                   sbind (unwrap_result (stack_range KERNEL_STACK_BOTTOM KERNEL_STACK_PAGE_COUNT,
                       k\<lparr>sched := s, processes := (processes k)[0 := Some (pr\<lparr>p_syscall_permissions := - 1\<rparr>)]\<rparr>)) (\<lambda>stack k.
                   sbind (unwrap_result (stack_range KERNEL_IRQ_HANDLER_STACK_BOTTOM
                       KERNEL_IRQ_HANDLER_STACK_PAGE_COUNT, k)) (\<lambda>irq_stack k.
                   unwrap_result (on_ptable (setup_process \<lparr>su_pid = pid1, su_entry_point = 0, su_stack = stack,
                       su_irq_stack = irq_stack, su_aslr_slide = 0\<rparr>) k)))
               | _ \<Rightarrow> (Panic, k))
          | _ \<Rightarrow> (Panic, k))
     | _ \<Rightarrow> (Panic, k))"

section \<open>Interrupts of user handlers\<close>

text \<open>\<open>irq::handle\<close>; the handlers of the kernel itself are the argument \<open>run\<close>.\<close>

definition irq_handle :: "(nat \<Rightarrow> 'b kernel \<Rightarrow> 'b kernel) \<Rightarrow> irq_number \<Rightarrow> 'b kernel \<Rightarrow> xous_result kresult \<times> 'b kernel" where
  "irq_handle run irq k =
    (case handlers (irqs k) ! irq_index irq of
       IrqUser p pc arg \<Rightarrow>
         sbind (unwrap_result (with_proc_sched p (set_thread_state IRQ_TID TReady) k)) (\<lambda>_ k.
         sbind (unwrap_result (process_of k p, k)) (\<lambda>pr k.
         sbind (drop_error (on_ptable (set_tid (p_pid pr) IRQ_TID) (activate_process pr k))) (\<lambda>_ k.
         sbind (on_ptable (run_irq_handler (cur_pid k) (nz_get pc) (of_nat (irq_index irq)) (opt_get arg)) k) (\<lambda>_ k.
         (Ok ResumeProcess, k)))))
     | IrqKernel f \<Rightarrow> (Ok ResumeProcess, run f k)
     | IrqFree \<Rightarrow>
         (Ok ResumeProcess, k\<lparr>irqs := (irqs k)\<lparr>irq_enabled := (irq_enabled (irqs k))[irq_index irq := False]\<rparr>\<rparr>))"

end
