(* ===== verification/Syscall_Codec.thy ===== *)
theory Syscall_Codec
  imports Result_Codec
begin

text \<open>
  The system calls of \<open>xous/xous-rs/src/syscall.rs\<close>: the enumeration \<open>SysCall\<close>, its
  numbers, the encoding in eight registers (\<open>as_args\<close>, run by the caller) and the
  decoder (\<open>from_args\<close>, run by the kernel on whatever the registers hold), in the
  configuration of the hardware kernel (\<open>cfg(beetos)\<close>).

  The variants of \<open>SysCall\<close> keep their names and arguments and are grouped by the
  service they ask for.  A range of message ids \<open>start..end\<close> is the pair of its
  bounds, the \<open>i32\<close> of \<open>Shutdown\<close> is its 32-bit pattern, and a \<open>SysCallNumber\<close> is its
  discriminant.  The lemmas give the round trip, and characterise the registers
  on which the decoder panics.
\<close>

section \<open>System calls and their numbers\<close>

type_synonym msg_range = "usize \<times> usize"

datatype memory_call =
    MapMemory "memory_address option" "memory_address option" memory_size memory_flags
  | UnmapMemory memory_range
  | IncreaseHeap memory_size
  | UpdateMemoryFlags memory_range memory_flags "pid option"
  | VirtToPhys usize
  | VirtToPhysPid pid usize
  | FlushCache memory_range cache_operation
  | MirrorMemoryToPid memory_range pid

datatype thread_call =
    Yield
  | SetThreadPriority thread_priority
  | ClaimInterrupt usize memory_address "memory_address option"
  | FreeInterrupt usize
  | FutexWait usize usize
  | FutexWake usize usize
  | CreateThread thread_init
  | GetThreadId
  | JoinThread usize
  | WaitEvent usize
  | PollEvent
  | PostEvent pid usize

datatype message_call =
    ReceiveMessage sid
  | TryReceiveMessage sid
  | SendMessage cid message
  | TrySendMessage cid message
  | ReturnMemory sender memory_range "memory_size option" "memory_size option"
  | ReturnScalar1 sender usize
  | ReturnScalar2 sender usize usize
  | ReturnScalar5 sender usize usize usize usize usize

datatype server_call =
    CreateServerWithAddress sid msg_range
  | Connect sid
  | TryConnect sid
  | CreateServer
  | CreateServerId
  | ConnectForProcess pid sid
  | GetRemoteProcessId cid
  | DestroyServer sid
  | Disconnect cid
  | AllowMessagesSID sid msg_range
  | AllowMessagesCID pid cid msg_range

datatype process_call =
    CreateProcess process_init
  | TerminateProcess u32
  | TerminatePid pid u32
  | Shutdown u32
  | GetProcessId
  | GetAppId pid
  | AppIdToPid app_id
  | SpawnByName usize usize usize usize
  | SpawnByNameWithArgs usize usize usize usize
  | WaitProcess pid

datatype system_call =
    PowerManagement dram_idle_mode
  | DebugCommand memory_range u8
  | GetSystemStats system_stat
  | RegisterEventHandler system_event sid usize
  | AppendPanicMessage usize usize usize usize usize usize usize
  | GetPanicMessage memory_range
  | NetGetInfo
  | GetBinaryName usize
  | AcquireDisplay
  | ReleaseDisplay usize usize
  | AcquireInputFocus u32 u32 u32 u32
  | ReleaseInputFocus

datatype syscall =
    MemoryCall memory_call
  | ThreadCall thread_call
  | MessageCall message_call
  | ServerCall server_call
  | ProcessCall process_call
  | SystemCall system_call
  | Invalid usize usize usize usize usize usize usize

abbreviation N_MapMemory :: usize where "N_MapMemory \<equiv> 2"
abbreviation N_Yield :: usize where "N_Yield \<equiv> 3"
abbreviation N_SetThreadPriority :: usize where "N_SetThreadPriority \<equiv> 4"
abbreviation N_ClaimInterrupt :: usize where "N_ClaimInterrupt \<equiv> 5"
abbreviation N_FreeInterrupt :: usize where "N_FreeInterrupt \<equiv> 6"
abbreviation N_FutexWait :: usize where "N_FutexWait \<equiv> 7"
abbreviation N_FutexWake :: usize where "N_FutexWake \<equiv> 8"
abbreviation N_IncreaseHeap :: usize where "N_IncreaseHeap \<equiv> 10"
abbreviation N_UpdateMemoryFlags :: usize where "N_UpdateMemoryFlags \<equiv> 12"
abbreviation N_CreateServerWithAddress :: usize where "N_CreateServerWithAddress \<equiv> 14"
abbreviation N_ReceiveMessage :: usize where "N_ReceiveMessage \<equiv> 15"
abbreviation N_SendMessage :: usize where "N_SendMessage \<equiv> 16"
abbreviation N_Connect :: usize where "N_Connect \<equiv> 17"
abbreviation N_CreateThread :: usize where "N_CreateThread \<equiv> 18"
abbreviation N_UnmapMemory :: usize where "N_UnmapMemory \<equiv> 19"
abbreviation N_ReturnMemory :: usize where "N_ReturnMemory \<equiv> 20"
abbreviation N_CreateProcess :: usize where "N_CreateProcess \<equiv> 21"
abbreviation N_TerminateProcess :: usize where "N_TerminateProcess \<equiv> 22"
abbreviation N_Shutdown :: usize where "N_Shutdown \<equiv> 23"
abbreviation N_TrySendMessage :: usize where "N_TrySendMessage \<equiv> 24"
abbreviation N_TryConnect :: usize where "N_TryConnect \<equiv> 25"
abbreviation N_ReturnScalar1 :: usize where "N_ReturnScalar1 \<equiv> 26"
abbreviation N_ReturnScalar2 :: usize where "N_ReturnScalar2 \<equiv> 27"
abbreviation N_TryReceiveMessage :: usize where "N_TryReceiveMessage \<equiv> 28"
abbreviation N_CreateServer :: usize where "N_CreateServer \<equiv> 29"
abbreviation N_ConnectForProcess :: usize where "N_ConnectForProcess \<equiv> 30"
abbreviation N_CreateServerId :: usize where "N_CreateServerId \<equiv> 31"
abbreviation N_GetThreadId :: usize where "N_GetThreadId \<equiv> 32"
abbreviation N_GetProcessId :: usize where "N_GetProcessId \<equiv> 33"
abbreviation N_DestroyServer :: usize where "N_DestroyServer \<equiv> 34"
abbreviation N_Disconnect :: usize where "N_Disconnect \<equiv> 35"
abbreviation N_JoinThread :: usize where "N_JoinThread \<equiv> 36"
abbreviation N_GetRemoteProcessId :: usize where "N_GetRemoteProcessId \<equiv> 37"
abbreviation N_VirtToPhys :: usize where "N_VirtToPhys \<equiv> 39"
abbreviation N_ReturnScalar5 :: usize where "N_ReturnScalar5 \<equiv> 40"
abbreviation N_VirtToPhysPid :: usize where "N_VirtToPhysPid \<equiv> 42"
abbreviation N_GetAppId :: usize where "N_GetAppId \<equiv> 43"
abbreviation N_AllowMessagesSID :: usize where "N_AllowMessagesSID \<equiv> 44"
abbreviation N_AllowMessagesCID :: usize where "N_AllowMessagesCID \<equiv> 45"
abbreviation N_InvalidateCache :: usize where "N_InvalidateCache \<equiv> 46"
abbreviation N_PowerManagement :: usize where "N_PowerManagement \<equiv> 47"
abbreviation N_AppIdToPid :: usize where "N_AppIdToPid \<equiv> 48"
abbreviation N_MirrorMemoryToPid :: usize where "N_MirrorMemoryToPid \<equiv> 50"
abbreviation N_DebugCommand :: usize where "N_DebugCommand \<equiv> 51"
abbreviation N_GetSystemStats :: usize where "N_GetSystemStats \<equiv> 52"
abbreviation N_TerminatePid :: usize where "N_TerminatePid \<equiv> 53"
abbreviation N_RegisterEventHandler :: usize where "N_RegisterEventHandler \<equiv> 54"
abbreviation N_AppendPanicMessage :: usize where "N_AppendPanicMessage \<equiv> 55"
abbreviation N_GetPanicMessage :: usize where "N_GetPanicMessage \<equiv> 56"
abbreviation N_SpawnByName :: usize where "N_SpawnByName \<equiv> 57"
abbreviation N_WaitProcess :: usize where "N_WaitProcess \<equiv> 58"
abbreviation N_SpawnByNameWithArgs :: usize where "N_SpawnByNameWithArgs \<equiv> 59"
abbreviation N_NetGetInfo :: usize where "N_NetGetInfo \<equiv> 60"
abbreviation N_WaitEvent :: usize where "N_WaitEvent \<equiv> 61"
abbreviation N_PollEvent :: usize where "N_PollEvent \<equiv> 62"
abbreviation N_PostEvent :: usize where "N_PostEvent \<equiv> 63"
abbreviation N_GetBinaryName :: usize where "N_GetBinaryName \<equiv> 64"
abbreviation N_AcquireDisplay :: usize where "N_AcquireDisplay \<equiv> 65"
abbreviation N_ReleaseDisplay :: usize where "N_ReleaseDisplay \<equiv> 66"
abbreviation N_AcquireInputFocus :: usize where "N_AcquireInputFocus \<equiv> 67"
abbreviation N_ReleaseInputFocus :: usize where "N_ReleaseInputFocus \<equiv> 68"
abbreviation N_Invalid :: usize where "N_Invalid \<equiv> 69"

definition syscall_numbers :: "usize list" where
  "syscall_numbers =
    [N_MapMemory, N_Yield, N_SetThreadPriority, N_ClaimInterrupt, N_FreeInterrupt, N_FutexWait,
     N_FutexWake, N_IncreaseHeap, N_UpdateMemoryFlags, N_CreateServerWithAddress,
     N_ReceiveMessage, N_SendMessage, N_Connect, N_CreateThread, N_UnmapMemory, N_ReturnMemory,
     N_CreateProcess, N_TerminateProcess, N_Shutdown, N_TrySendMessage, N_TryConnect,
     N_ReturnScalar1, N_ReturnScalar2, N_TryReceiveMessage, N_CreateServer,
     N_ConnectForProcess, N_CreateServerId, N_GetThreadId, N_GetProcessId, N_DestroyServer,
     N_Disconnect, N_JoinThread, N_GetRemoteProcessId, N_VirtToPhys, N_ReturnScalar5,
     N_VirtToPhysPid, N_GetAppId, N_AllowMessagesSID, N_AllowMessagesCID, N_InvalidateCache,
     N_PowerManagement, N_AppIdToPid, N_MirrorMemoryToPid, N_DebugCommand, N_GetSystemStats,
     N_TerminatePid, N_RegisterEventHandler, N_AppendPanicMessage, N_GetPanicMessage,
     N_SpawnByName, N_WaitProcess, N_SpawnByNameWithArgs, N_NetGetInfo, N_WaitEvent,
     N_PollEvent, N_PostEvent, N_GetBinaryName, N_AcquireDisplay, N_ReleaseDisplay,
     N_AcquireInputFocus, N_ReleaseInputFocus]"

definition syscall_number_from :: "usize \<Rightarrow> usize" where
  "syscall_number_from val = (if val \<in> set syscall_numbers then val else N_Invalid)"

section \<open>The encoder\<close>

text \<open>
  \<open>as_args\<close> opens with an assertion on \<open>size_of::<SysCall>()\<close>, a constant of the
  compiled caller; it has no part in the encoding.
\<close>

definition send_args :: "usize \<Rightarrow> cid \<Rightarrow> message \<Rightarrow> usize list" where
  "send_args n c m =
    (case m of
       MutableBorrow mm \<Rightarrow> [n, ucast c, message_type m, mm_id mm, as_ptr (mm_buf mm),
         memory_range_len (mm_buf mm), opt_get (mm_offset mm), opt_get (mm_valid mm)]
     | Borrow mm \<Rightarrow> [n, ucast c, message_type m, mm_id mm, as_ptr (mm_buf mm),
         memory_range_len (mm_buf mm), opt_get (mm_offset mm), opt_get (mm_valid mm)]
     | Move mm \<Rightarrow> [n, ucast c, message_type m, mm_id mm, as_ptr (mm_buf mm),
         memory_range_len (mm_buf mm), opt_get (mm_offset mm), opt_get (mm_valid mm)]
     | Scalar sc \<Rightarrow> [n, ucast c, message_type m,
         sm_id sc, sm_arg1 sc, sm_arg2 sc, sm_arg3 sc, sm_arg4 sc]
     | BlockingScalar sc \<Rightarrow> [n, ucast c, message_type m,
         sm_id sc, sm_arg1 sc, sm_arg2 sc, sm_arg3 sc, sm_arg4 sc])"

fun memory_call_args :: "memory_call \<Rightarrow> usize list" where
  "memory_call_args (MapMemory a1 a2 a3 a4) =
     [N_MapMemory, opt_get a1, opt_get a2, nz_get a3, flag_bits a4, 0, 0, 0]"
| "memory_call_args (UnmapMemory r) =
     [N_UnmapMemory, as_ptr r, memory_range_len r, 0, 0, 0, 0, 0]"
| "memory_call_args (IncreaseHeap n) = [N_IncreaseHeap, nz_get n, 0, 0, 0, 0, 0, 0]"
| "memory_call_args (UpdateMemoryFlags r f q) =
     [N_UpdateMemoryFlags, as_ptr r, memory_range_len r, flag_bits f, (case q of None \<Rightarrow> 0 | Some p \<Rightarrow> ucast (nz_get p)), 0, 0, 0]"
| "memory_call_args (VirtToPhys v) = [N_VirtToPhys, v, 0, 0, 0, 0, 0, 0]"
| "memory_call_args (VirtToPhysPid p v) = [N_VirtToPhysPid, ucast (nz_get p), v, 0, 0, 0, 0, 0]"
| "memory_call_args (FlushCache r op) =
     [N_InvalidateCache, as_ptr r, memory_range_len r, cache_operation_as_usize op, 0, 0, 0, 0]"
| "memory_call_args (MirrorMemoryToPid r p) =
     [N_MirrorMemoryToPid, as_ptr r, memory_range_len r, ucast (nz_get p), 0, 0, 0, 0]"

fun thread_call_args :: "thread_call \<Rightarrow> usize list" where
  "thread_call_args Yield = [N_Yield, 0, 0, 0, 0, 0, 0, 0]"
| "thread_call_args (SetThreadPriority q) =
     [N_SetThreadPriority, of_nat (priority_index q), 0, 0, 0, 0, 0, 0]"
| "thread_call_args (ClaimInterrupt a1 a2 a3) =
     [N_ClaimInterrupt, a1, nz_get a2, opt_get a3, 0, 0, 0, 0]"
| "thread_call_args (FreeInterrupt a1) = [N_FreeInterrupt, a1, 0, 0, 0, 0, 0, 0]"
| "thread_call_args (FutexWait a v) = [N_FutexWait, a, v, 0, 0, 0, 0, 0]"
| "thread_call_args (FutexWake a n) = [N_FutexWake, a, n, 0, 0, 0, 0, 0]"
| "thread_call_args (CreateThread init) = thread_to_args N_CreateThread init"
| "thread_call_args GetThreadId = [N_GetThreadId, 0, 0, 0, 0, 0, 0, 0]"
| "thread_call_args (JoinThread t) = [N_JoinThread, t, 0, 0, 0, 0, 0, 0]"
| "thread_call_args (WaitEvent m) = [N_WaitEvent, m, 0, 0, 0, 0, 0, 0]"
| "thread_call_args PollEvent = [N_PollEvent, 0, 0, 0, 0, 0, 0, 0]"
| "thread_call_args (PostEvent p bits) = [N_PostEvent, ucast (nz_get p), bits, 0, 0, 0, 0, 0]"

fun message_call_args :: "message_call \<Rightarrow> usize list" where
  "message_call_args (ReceiveMessage (SID s0 s1 s2 s3)) =
     [N_ReceiveMessage, ucast s0, ucast s1, ucast s2, ucast s3, 0, 0, 0]"
| "message_call_args (TryReceiveMessage (SID s0 s1 s2 s3)) =
     [N_TryReceiveMessage, ucast s0, ucast s1, ucast s2, ucast s3, 0, 0, 0]"
| "message_call_args (SendMessage c m) = send_args N_SendMessage c m"
| "message_call_args (TrySendMessage c m) = send_args N_TrySendMessage c m"
| "message_call_args (ReturnMemory s r off valid) =
     [N_ReturnMemory, sender_to_usize s, as_ptr r, memory_range_len r, opt_get off, opt_get valid, 0, 0]"
| "message_call_args (ReturnScalar1 s a1) =
     [N_ReturnScalar1, sender_to_usize s, a1, 0, 0, 0, 0, 0]"
| "message_call_args (ReturnScalar2 s a1 a2) =
     [N_ReturnScalar2, sender_to_usize s, a1, a2, 0, 0, 0, 0]"
| "message_call_args (ReturnScalar5 s a1 a2 a3 a4 a5) =
     [N_ReturnScalar5, sender_to_usize s, a1, a2, a3, a4, a5, 0]"

fun server_call_args :: "server_call \<Rightarrow> usize list" where
  "server_call_args (CreateServerWithAddress (SID s0 s1 s2 s3) (lo, hi)) =
     [N_CreateServerWithAddress, ucast s0, ucast s1, ucast s2, ucast s3, lo, hi, 0]"
| "server_call_args (Connect (SID s0 s1 s2 s3)) =
     [N_Connect, ucast s0, ucast s1, ucast s2, ucast s3, 0, 0, 0]"
| "server_call_args (TryConnect (SID s0 s1 s2 s3)) =
     [N_TryConnect, ucast s0, ucast s1, ucast s2, ucast s3, 0, 0, 0]"
| "server_call_args CreateServer = [N_CreateServer, 0, 0, 0, 0, 0, 0, 0]"
| "server_call_args CreateServerId = [N_CreateServerId, 0, 0, 0, 0, 0, 0, 0]"
| "server_call_args (ConnectForProcess p (SID s0 s1 s2 s3)) =
     [N_ConnectForProcess, ucast (nz_get p), ucast s0, ucast s1, ucast s2, ucast s3, 0, 0]"
| "server_call_args (GetRemoteProcessId c) = [N_GetRemoteProcessId, ucast c, 0, 0, 0, 0, 0, 0]"
| "server_call_args (DestroyServer (SID s0 s1 s2 s3)) =
     [N_DestroyServer, ucast s0, ucast s1, ucast s2, ucast s3, 0, 0, 0]"
| "server_call_args (Disconnect c) = [N_Disconnect, ucast c, 0, 0, 0, 0, 0, 0]"
| "server_call_args (AllowMessagesSID (SID s0 s1 s2 s3) (lo, hi)) =
     [N_AllowMessagesSID, ucast s0, ucast s1, ucast s2, ucast s3, lo, hi, 0]"
| "server_call_args (AllowMessagesCID p c (lo, hi)) =
     [N_AllowMessagesCID, ucast (nz_get p), ucast c, lo, hi, 0, 0, 0]"

fun process_call_args :: "process_call \<Rightarrow> usize list" where
  "process_call_args (CreateProcess init) =
     add_opcode N_CreateProcess (process_init_to_args init)"
| "process_call_args (TerminateProcess e) = [N_TerminateProcess, ucast e, 0, 0, 0, 0, 0, 0]"
| "process_call_args (TerminatePid p e) =
     [N_TerminatePid, ucast (nz_get p), ucast e, 0, 0, 0, 0, 0]"
| "process_call_args (Shutdown e) = [N_Shutdown, scast e, 0, 0, 0, 0, 0, 0]"
| "process_call_args GetProcessId = [N_GetProcessId, 0, 0, 0, 0, 0, 0, 0]"
| "process_call_args (GetAppId p) = [N_GetAppId, ucast (nz_get p), 0, 0, 0, 0, 0, 0]"
| "process_call_args (AppIdToPid a) =
     (case app_id_to_words a of (w0, w1, w2, w3) \<Rightarrow>
       [N_AppIdToPid, ucast w0, ucast w1, ucast w2, ucast w3, 0, 0, 0])"
| "process_call_args (SpawnByName a0 a1 a2 a3) = [N_SpawnByName, a0, a1, a2, a3, 0, 0, 0]"
| "process_call_args (SpawnByNameWithArgs a0 a1 ptr len) =
     [N_SpawnByNameWithArgs, a0, a1, ptr, len, 0, 0, 0]"
| "process_call_args (WaitProcess p) = [N_WaitProcess, ucast (nz_get p), 0, 0, 0, 0, 0, 0]"

fun system_call_args :: "system_call \<Rightarrow> usize list" where
  "system_call_args (PowerManagement d) =
     [N_PowerManagement, dram_idle_mode_as_usize d, 0, 0, 0, 0, 0, 0]"
| "system_call_args (DebugCommand r cmd) =
     [N_DebugCommand, as_ptr r, memory_range_len r, ucast cmd, 0, 0, 0, 0]"
| "system_call_args (GetSystemStats st) =
     [N_GetSystemStats, system_stat_as_usize st, 0, 0, 0, 0, 0, 0]"
| "system_call_args (RegisterEventHandler ev (SID s0 s1 s2 s3) i) =
     [N_RegisterEventHandler, system_event_as_usize ev, ucast s0, ucast s1, ucast s2, ucast s3, i, 0]"
| "system_call_args (AppendPanicMessage len a2 a3 a4 a5 a6 a7) =
     [N_AppendPanicMessage, len, a2, a3, a4, a5, a6, a7]"
| "system_call_args (GetPanicMessage r) =
     [N_GetPanicMessage, as_ptr r, memory_range_len r, 0, 0, 0, 0, 0]"
| "system_call_args NetGetInfo = [N_NetGetInfo, 0, 0, 0, 0, 0, 0, 0]"
| "system_call_args (GetBinaryName i) = [N_GetBinaryName, i, 0, 0, 0, 0, 0, 0]"
| "system_call_args AcquireDisplay = [N_AcquireDisplay, 0, 0, 0, 0, 0, 0, 0]"
| "system_call_args (ReleaseDisplay row col) = [N_ReleaseDisplay, row, col, 0, 0, 0, 0, 0]"
| "system_call_args (AcquireInputFocus a b c d) =
     [N_AcquireInputFocus, ucast a, ucast b, ucast c, ucast d, 0, 0, 0]"
| "system_call_args ReleaseInputFocus = [N_ReleaseInputFocus, 0, 0, 0, 0, 0, 0, 0]"

fun as_args :: "syscall \<Rightarrow> usize list" where
  "as_args (MemoryCall c) = memory_call_args c"
| "as_args (ThreadCall c) = thread_call_args c"
| "as_args (MessageCall c) = message_call_args c"
| "as_args (ServerCall c) = server_call_args c"
| "as_args (ProcessCall c) = process_call_args c"
| "as_args (SystemCall c) = system_call_args c"
| "as_args (Invalid a1 a2 a3 a4 a5 a6 a7) = [N_Invalid, a1, a2, a3, a4, a5, a6, a7]"

section \<open>The decoder\<close>

text \<open>\<open>usize::try_into::<u32>().unwrap()\<close>: a panic when the value does not fit.\<close>

definition try_into_u32 :: "usize \<Rightarrow> u32 kresult" where
  "try_into_u32 a = (if unat a < 2 ^ 32 then Ok (ucast a) else Panic)"

text \<open>\<open>PID::new(a as _).ok_or(Error::InvalidSyscall)\<close>: the register is cut to its low byte.\<close>

definition pid_arg :: "usize \<Rightarrow> pid kresult" where
  "pid_arg a = ok_or (nz_new (ucast a)) InvalidSyscall"

text \<open>The arm of \<open>SysCallNumber::TrySendMessage\<close>.\<close>

definition decode_try_send ::
  "usize \<Rightarrow> usize \<Rightarrow> usize \<Rightarrow> usize \<Rightarrow> usize \<Rightarrow> usize \<Rightarrow> usize \<Rightarrow> syscall kresult" where
  "decode_try_send a1 a2 a3 a4 a5 a6 a7 =
    (let mem = (\<lambda>r. \<lparr>mm_id = a3, mm_buf = r, mm_offset = nz_new a6, mm_valid = nz_new a7\<rparr>);
         scalar = \<lparr>sm_id = a3, sm_arg1 = a4, sm_arg2 = a5, sm_arg3 = a6, sm_arg4 = a7\<rparr>;
         call = (\<lambda>c m. Ok (MessageCall (TrySendMessage c m)))
     in if a2 = 1 then obind (memory_range_new a4 a5) (\<lambda>r. call (ucast a1) (MutableBorrow (mem r)))
        else if a2 = 2 then obind (memory_range_new a4 a5) (\<lambda>r. call (ucast a1) (Borrow (mem r)))
        else if a2 = 3 then obind (memory_range_new a4 a5) (\<lambda>r. call (ucast a1) (Move (mem r)))
        else if a2 = 4 then call (ucast a1) (Scalar scalar)
        else if a2 = 5 then obind (try_into_u32 a1) (\<lambda>c. call c (BlockingScalar scalar))
        else Ok (Invalid a1 a2 a3 a4 a5 a6 a7))"

text \<open>The arms of the decoder's match on \<open>SysCallNumber::from(a0)\<close>, in the source's order.\<close>

definition syscall_from_args ::
  "usize \<Rightarrow> usize \<Rightarrow> usize \<Rightarrow> usize \<Rightarrow> usize \<Rightarrow> usize \<Rightarrow> usize \<Rightarrow> usize \<Rightarrow> syscall kresult" where
  "syscall_from_args a0 a1 a2 a3 a4 a5 a6 a7 =
    (let n = syscall_number_from a0 in
     if n = N_MapMemory then
       obind (ok_or (nz_new a3) InvalidSyscall) (\<lambda>sz.
       Ok (MemoryCall (MapMemory (nz_new a1) (nz_new a2) sz (flags_from_bits a4))))
     else if n = N_UnmapMemory then
       (case memory_range_new a1 a2 of Ok r \<Rightarrow> Ok (MemoryCall (UnmapMemory r)) | _ \<Rightarrow> Err InvalidSyscall)
     else if n = N_Yield then Ok (ThreadCall Yield)
     else if n = N_SetThreadPriority then
       Ok (ThreadCall (SetThreadPriority (thread_priority_from a1)))
     else if n = N_ReceiveMessage then
       Ok (MessageCall (ReceiveMessage (SID (ucast a1) (ucast a2) (ucast a3) (ucast a4))))
     else if n = N_TryReceiveMessage then
       Ok (MessageCall (TryReceiveMessage (SID (ucast a1) (ucast a2) (ucast a3) (ucast a4))))
     else if n = N_ClaimInterrupt then
       obind (ok_or (nz_new a2) InvalidSyscall) (\<lambda>f. Ok (ThreadCall (ClaimInterrupt a1 f (nz_new a3))))
     else if n = N_FreeInterrupt then Ok (ThreadCall (FreeInterrupt a1))
     else if n = N_FutexWait then Ok (ThreadCall (FutexWait a1 a2))
     else if n = N_FutexWake then Ok (ThreadCall (FutexWake a1 a2))
     else if n = N_IncreaseHeap then
       obind (ok_or (nz_new a1) InvalidSyscall) (\<lambda>sz. Ok (MemoryCall (IncreaseHeap sz)))
     else if n = N_UpdateMemoryFlags then
       obind (memory_range_new a1 a2) (\<lambda>r.
       Ok (MemoryCall (UpdateMemoryFlags r (flags_from_bits a3) (nz_new (ucast a4)))))
     else if n = N_CreateServerWithAddress then
       Ok (ServerCall (CreateServerWithAddress (SID (ucast a1) (ucast a2) (ucast a3) (ucast a4)) (a5, a6)))
     else if n = N_CreateServer then Ok (ServerCall CreateServer)
     else if n = N_Connect then
       Ok (ServerCall (Connect (SID (ucast a1) (ucast a2) (ucast a3) (ucast a4))))
     else if n = N_SendMessage then
       (case message_try_from a2 a3 a4 a5 a6 a7 of
       Some m \<Rightarrow> obind (try_into_u32 a1) (\<lambda>c. Ok (MessageCall (SendMessage c m)))
     | None \<Rightarrow> Ok (Invalid a1 a2 a3 a4 a5 a6 a7))
     else if n = N_ReturnMemory then
       obind (memory_range_new a2 a3) (\<lambda>r.
       Ok (MessageCall (ReturnMemory (sender_from_usize a1) r (nz_new a4) (nz_new a5))))
     else if n = N_CreateThread then
       obind (args_to_thread a1 a2 a3 a4 a5 a6 a7) (\<lambda>i. Ok (ThreadCall (CreateThread i)))
     else if n = N_CreateProcess then
       obind (process_init_try_from a1 a2 a3 a4 a5 a6 a7) (\<lambda>i. Ok (ProcessCall (CreateProcess i)))
     else if n = N_TerminateProcess then Ok (ProcessCall (TerminateProcess (ucast a1)))
     else if n = N_Shutdown then Ok (ProcessCall (Shutdown (ucast a1)))
     else if n = N_TryConnect then
       Ok (ServerCall (TryConnect (SID (ucast a1) (ucast a2) (ucast a3) (ucast a4))))
     else if n = N_TrySendMessage then decode_try_send a1 a2 a3 a4 a5 a6 a7
     else if n = N_ReturnScalar1 then Ok (MessageCall (ReturnScalar1 (sender_from_usize a1) a2))
     else if n = N_ReturnScalar2 then
       Ok (MessageCall (ReturnScalar2 (sender_from_usize a1) a2 a3))
     else if n = N_ConnectForProcess then
       obind (pid_arg a1) (\<lambda>p.
       Ok (ServerCall (ConnectForProcess p (SID (ucast a2) (ucast a3) (ucast a4) (ucast a5)))))
     else if n = N_CreateServerId then Ok (ServerCall CreateServerId)
     else if n = N_GetThreadId then Ok (ThreadCall GetThreadId)
     else if n = N_GetProcessId then Ok (ProcessCall GetProcessId)
     else if n = N_DestroyServer then
       Ok (ServerCall (DestroyServer (SID (ucast a1) (ucast a2) (ucast a3) (ucast a4))))
     else if n = N_Disconnect then Ok (ServerCall (Disconnect (ucast a1)))
     else if n = N_JoinThread then Ok (ThreadCall (JoinThread a1))
     else if n = N_GetRemoteProcessId then Ok (ServerCall (GetRemoteProcessId (ucast a1)))
     else if n = N_VirtToPhys then Ok (MemoryCall (VirtToPhys a1))
     else if n = N_VirtToPhysPid then
       obind (pid_from_usize a1) (\<lambda>p. Ok (MemoryCall (VirtToPhysPid p a2)))
     else if n = N_ReturnScalar5 then
       Ok (MessageCall (ReturnScalar5 (sender_from_usize a1) a2 a3 a4 a5 a6))
     else if n = N_GetAppId then obind (pid_arg a1) (\<lambda>p. Ok (ProcessCall (GetAppId p)))
     else if n = N_AllowMessagesSID then
       Ok (ServerCall (AllowMessagesSID (SID (ucast a1) (ucast a2) (ucast a3) (ucast a4)) (a5, a6)))
     else if n = N_AllowMessagesCID then
       obind (pid_arg a1) (\<lambda>p. Ok (ServerCall (AllowMessagesCID p (ucast a2) (a3, a4))))
     else if n = N_InvalidateCache then
       obind (memory_range_new a1 a2) (\<lambda>r. Ok (MemoryCall (FlushCache r (cache_operation_from a3))))
     else if n = N_PowerManagement then Ok (SystemCall (PowerManagement (dram_idle_mode_from a1)))
     else if n = N_AppIdToPid then
       Ok (ProcessCall (AppIdToPid (app_id_from_words (ucast a1) (ucast a2) (ucast a3) (ucast a4))))
     else if n = N_MirrorMemoryToPid then
       obind (memory_range_new a1 a2) (\<lambda>r. obind (pid_arg a3) (\<lambda>p. Ok (MemoryCall (MirrorMemoryToPid r p))))
     else if n = N_DebugCommand then
       obind (memory_range_new a1 a2) (\<lambda>r. Ok (SystemCall (DebugCommand r (ucast a3))))
     else if n = N_GetSystemStats then Ok (SystemCall (GetSystemStats (system_stat_from a1)))
     else if n = N_RegisterEventHandler then
       Ok (SystemCall (RegisterEventHandler (system_event_from a1) (SID (ucast a2) (ucast a3) (ucast a4) (ucast a5)) a6))
     else if n = N_AppendPanicMessage then
       Ok (SystemCall (AppendPanicMessage a1 a2 a3 a4 a5 a6 a7))
     else if n = N_GetPanicMessage then
       obind (memory_range_new a1 a2) (\<lambda>r. Ok (SystemCall (GetPanicMessage r)))
     else if n = N_TerminatePid then
       obind (pid_arg a1) (\<lambda>p. Ok (ProcessCall (TerminatePid p (ucast a2))))
     else if n = N_SpawnByName then Ok (ProcessCall (SpawnByName a1 a2 a3 a4))
     else if n = N_SpawnByNameWithArgs then Ok (ProcessCall (SpawnByNameWithArgs a1 a2 a3 a4))
     else if n = N_WaitProcess then
       obind (pid_arg a1) (\<lambda>p. Ok (ProcessCall (WaitProcess p)))
     else if n = N_NetGetInfo then Ok (SystemCall NetGetInfo)
     else if n = N_WaitEvent then Ok (ThreadCall (WaitEvent a1))
     else if n = N_PollEvent then Ok (ThreadCall PollEvent)
     else if n = N_PostEvent then
       obind (pid_arg a1) (\<lambda>p. Ok (ThreadCall (PostEvent p a2)))
     else if n = N_GetBinaryName then Ok (SystemCall (GetBinaryName a1))
     else if n = N_AcquireDisplay then Ok (SystemCall AcquireDisplay)
     else if n = N_ReleaseDisplay then Ok (SystemCall (ReleaseDisplay a1 a2))
     else if n = N_AcquireInputFocus then
       Ok (SystemCall (AcquireInputFocus (ucast a1) (ucast a2) (ucast a3) (ucast a4)))
     else if n = N_ReleaseInputFocus then Ok (SystemCall ReleaseInputFocus)
     else Ok (Invalid a1 a2 a3 a4 a5 a6 a7))"

text \<open>
  The kernel's SVC handler (\<open>_handle_svc\<close> in \<open>xous/kernel/src/arch/aarch64/irq.rs\<close>)
  decodes the eight argument registers of the saved frame.
\<close>

definition decode_registers :: "usize list \<Rightarrow> syscall kresult" where
  "decode_registers args =
    syscall_from_args (args ! 0) (args ! 1) (args ! 2) (args ! 3)
      (args ! 4) (args ! 5) (args ! 6) (args ! 7)"

section \<open>Queries on a system call\<close>

fun call_message :: "syscall \<Rightarrow> message option" where
  "call_message (MessageCall (TrySendMessage _ msg)) = Some msg"
| "call_message (MessageCall (SendMessage _ msg)) = Some msg"
| "call_message _ = None"

definition is_return_memory :: "syscall \<Rightarrow> bool" where
  "is_return_memory c = (case c of MessageCall (ReturnMemory _ _ _ _) \<Rightarrow> True | _ \<Rightarrow> False)"

definition call_has_memory :: "syscall \<Rightarrow> bool" where
  "call_has_memory c = (case call_message c of
     Some msg \<Rightarrow> (case msg of Move _ \<Rightarrow> True | Borrow _ \<Rightarrow> True | MutableBorrow _ \<Rightarrow> True | _ \<Rightarrow> False)
   | None \<Rightarrow> is_return_memory c)"

definition is_move :: "syscall \<Rightarrow> bool" where
  "is_move c = (case call_message c of Some (Move _) \<Rightarrow> True | _ \<Rightarrow> False)"

definition is_borrow :: "syscall \<Rightarrow> bool" where
  "is_borrow c = (case call_message c of Some (Borrow _) \<Rightarrow> True | _ \<Rightarrow> False)"

definition is_mutableborrow :: "syscall \<Rightarrow> bool" where
  "is_mutableborrow c = (case call_message c of Some (MutableBorrow _) \<Rightarrow> True | _ \<Rightarrow> False)"

fun call_memory :: "syscall \<Rightarrow> memory_range option" where
  "call_memory (MessageCall (TrySendMessage _ msg)) = message_memory msg"
| "call_memory (MessageCall (SendMessage _ msg)) = message_memory msg"
| "call_memory (MessageCall (ReturnMemory _ r _ _)) = Some r"
| "call_memory (MemoryCall (FlushCache r _)) = Some r"
| "call_memory _ = None"

fun message_replace_memory :: "memory_range \<Rightarrow> message \<Rightarrow> message" where
  "message_replace_memory r (MutableBorrow m) = MutableBorrow (m\<lparr>mm_buf := r\<rparr>)"
| "message_replace_memory r (Borrow m) = Borrow (m\<lparr>mm_buf := r\<rparr>)"
| "message_replace_memory r (Move m) = Move (m\<lparr>mm_buf := r\<rparr>)"
| "message_replace_memory r m = m"

fun replace_memory :: "memory_range \<Rightarrow> syscall \<Rightarrow> syscall" where
  "replace_memory r (MessageCall (TrySendMessage c msg)) =
     MessageCall (TrySendMessage c (message_replace_memory r msg))"
| "replace_memory r (MessageCall (SendMessage c msg)) =
     MessageCall (SendMessage c (message_replace_memory r msg))"
| "replace_memory r (MessageCall (ReturnMemory s _ off valid)) =
     MessageCall (ReturnMemory s r off valid)"
| "replace_memory r (MemoryCall (FlushCache _ op)) = MemoryCall (FlushCache r op)"
| "replace_memory r c = c"

fun can_call_from_interrupt :: "syscall \<Rightarrow> bool" where
  "can_call_from_interrupt (MessageCall (TrySendMessage _ msg)) = (\<not> is_blocking msg)"
| "can_call_from_interrupt (ServerCall (TryConnect _)) = True"
| "can_call_from_interrupt (ThreadCall (FreeInterrupt _)) = True"
| "can_call_from_interrupt (ThreadCall (ClaimInterrupt _ _ _)) = True"
| "can_call_from_interrupt (MessageCall (TryReceiveMessage _)) = True"
| "can_call_from_interrupt (MessageCall (ReturnScalar5 _ _ _ _ _ _)) = True"
| "can_call_from_interrupt (MessageCall (ReturnScalar2 _ _ _)) = True"
| "can_call_from_interrupt (MessageCall (ReturnScalar1 _ _)) = True"
| "can_call_from_interrupt (MessageCall (ReturnMemory _ _ _ _)) = True"
| "can_call_from_interrupt (MemoryCall (MapMemory _ _ _ _)) = True"
| "can_call_from_interrupt (MemoryCall (UnmapMemory _)) = True"
| "can_call_from_interrupt (ThreadCall (PostEvent _ _)) = True"
| "can_call_from_interrupt (ThreadCall PollEvent) = True"
| "can_call_from_interrupt _ = False"

section \<open>The round trip\<close>

text \<open>
  What the Rust types guarantee and the model's lists and words do not: an
  application id has sixteen bytes, and memory flags have no bit outside
  \<open>FLAGS_ALL\<close> (all constructors but the operator \<open>!\<close> keep it so).
\<close>

fun syscall_wf :: "syscall \<Rightarrow> bool" where
  "syscall_wf (MemoryCall (MapMemory _ _ _ f)) \<longleftrightarrow> flag_bits f AND FLAGS_ALL = flag_bits f"
| "syscall_wf (MemoryCall (UpdateMemoryFlags _ f _)) \<longleftrightarrow> flag_bits f AND FLAGS_ALL = flag_bits f"
| "syscall_wf (ProcessCall (CreateProcess i)) \<longleftrightarrow> app_id_wf (pi_app_id i)"
| "syscall_wf (ProcessCall (AppIdToPid a)) \<longleftrightarrow> app_id_wf a"
| "syscall_wf _ \<longleftrightarrow> True"

lemma flags_from_bits_wf [simp]:
  "flag_bits f AND FLAGS_ALL = flag_bits f \<Longrightarrow> flags_from_bits (flag_bits f) = f"
  by (simp add: flags_from_bits_def)

lemma try_into_u32_ucast [simp, codec_simps]: "try_into_u32 (ucast c) = Ok c"
  using unat_bound [of c] by (simp add: try_into_u32_def)

lemma pid_arg_get [simp, codec_simps]: "pid_arg (ucast (nz_get p)) = Ok p"
  by (simp add: pid_arg_def)

lemma ucast_scast_u32 [simp]: "ucast (scast (e :: u32) :: usize) = e"
  by (rule bit_word_eqI) (simp add: bit_simps)

lemma sender_from_to [simp, codec_simps]: "sender_from_usize (sender_to_usize s) = s"
  by (simp add: sender_from_usize_def sender_to_usize_def)

lemmas decode_simps = decode_registers_def syscall_from_args_def syscall_number_from_def
  syscall_numbers_def as_ptr_def memory_range_len_def Let_def

lemma memory_call_round_trip:
  "syscall_wf (MemoryCall c) \<Longrightarrow> decode_registers (memory_call_args c) = Ok (MemoryCall c)"
  by (cases c) (simp_all add: decode_simps split: option.split)

lemma thread_call_round_trip: "decode_registers (thread_call_args c) = Ok (ThreadCall c)"
proof (cases c)
  case (CreateThread init)
  then show ?thesis
    using args_to_thread_to_args [of N_CreateThread init]
    by (simp add: decode_simps thread_to_args_def)
qed (simp_all add: decode_simps)

lemma message_try_from_payload:
  "message_try_from (message_type m) (message_args m ! 0) (message_args m ! 1)
     (message_args m ! 2) (message_args m ! 3) (message_args m ! 4) = Some m"
  by (cases m) (simp_all add: message_args_def message_try_from_def memory_message_to_usize_def
      scalar_message_to_usize_def)

lemma send_args_payload: "send_args n c m = n # ucast c # message_type m # message_args m"
  by (cases m) (simp_all add: send_args_def message_args_def memory_message_to_usize_def
      scalar_message_to_usize_def as_ptr_def memory_range_len_def)

lemma decode_try_send_payload:
  "decode_try_send (ucast c) (message_type m) (message_args m ! 0) (message_args m ! 1)
     (message_args m ! 2) (message_args m ! 3) (message_args m ! 4)
   = Ok (MessageCall (TrySendMessage c m))"
  by (cases m) (simp_all add: decode_try_send_def message_args_def memory_message_to_usize_def
      scalar_message_to_usize_def)

lemma message_call_round_trip: "decode_registers (message_call_args c) = Ok (MessageCall c)"
proof (cases c)
  case (SendMessage i m)
  then show ?thesis
    using message_try_from_payload [of m] by (simp add: decode_simps send_args_payload)
next
  case (TrySendMessage i m)
  then show ?thesis
    using decode_try_send_payload [of i m] by (simp add: decode_simps send_args_payload)
next
  case (ReceiveMessage s)
  then show ?thesis by (cases s) (simp add: decode_simps)
next
  case (TryReceiveMessage s)
  then show ?thesis by (cases s) (simp add: decode_simps)
qed (simp_all add: decode_simps)

lemma server_call_round_trip: "decode_registers (server_call_args c) = Ok (ServerCall c)"
  by (cases c rule: server_call_args.cases) (simp_all add: decode_simps)

lemma process_call_round_trip:
  "syscall_wf (ProcessCall c) \<Longrightarrow> decode_registers (process_call_args c) = Ok (ProcessCall c)"
proof (cases c)
  case (CreateProcess init)
  moreover assume "syscall_wf (ProcessCall c)"
  moreover obtain w0 w1 w2 w3 where "app_id_to_words (pi_app_id init) = (w0, w1, w2, w3)"
    by (metis prod_cases4)
  ultimately show ?thesis
    using process_init_try_from_to_args [of init]
    by (simp add: decode_simps process_init_to_args_def)
next
  case (AppIdToPid a)
  moreover assume "syscall_wf (ProcessCall c)"
  moreover obtain w0 w1 w2 w3 where "app_id_to_words a = (w0, w1, w2, w3)"
    by (metis prod_cases4)
  ultimately show ?thesis
    using app_id_from_to_words [of a] by (simp add: decode_simps)
qed (simp_all add: decode_simps)

lemma system_call_round_trip: "decode_registers (system_call_args c) = Ok (SystemCall c)"
  by (cases c rule: system_call_args.cases) (simp_all add: decode_simps)

lemma invalid_round_trip:
  "decode_registers [N_Invalid, a1, a2, a3, a4, a5, a6, a7] = Ok (Invalid a1 a2 a3 a4 a5 a6 a7)"
  by (simp add: decode_simps)

lemma decode_as_args: "syscall_wf c \<Longrightarrow> decode_registers (as_args c) = Ok c"
  by (cases c)
    (auto simp: memory_call_round_trip thread_call_round_trip message_call_round_trip
      server_call_round_trip process_call_round_trip system_call_round_trip invalid_round_trip)

interpretation syscall_registers: codec syscall_wf as_args decode_registers
  by unfold_locales (rule decode_as_args)

section \<open>Panics of the decoder\<close>

lemma obind_eq_Panic [outcome_simps]:
  "obind m f = Panic \<longleftrightarrow> m = Panic \<or> (\<exists>a. m = Ok a \<and> f a = Panic)"
  by (cases m) auto

lemma no_panic_simps [simp]:
  "ok_or x e \<noteq> Panic" "memory_range_new a b \<noteq> Panic" "pid_arg c \<noteq> Panic"
  "pid_from_usize c \<noteq> Panic" "args_to_thread a1 a2 a3 a4 a5 a6 a7 \<noteq> Panic"
  "process_init_try_from a1 a2 a3 a4 a5 a6 a7 \<noteq> Panic"
  by (auto simp: ok_or_def memory_range_new_def pid_arg_def pid_from_usize_def args_to_thread_def
      process_init_try_from_def obind_def split: option.splits)

lemma if_eq_Panic: "(if b then x else y) = Panic \<longleftrightarrow> (if b then x = Panic else y = Panic)"
  by simp

lemma try_into_u32_eq_Panic: "try_into_u32 a = Panic \<longleftrightarrow> 2 ^ 32 \<le> unat a"
  by (simp add: try_into_u32_def not_less)

lemma decode_try_send_eq_Panic:
  "decode_try_send a1 a2 a3 a4 a5 a6 a7 = Panic \<longleftrightarrow> a2 = 5 \<and> 2 ^ 32 \<le> unat a1"
  by (simp add: decode_try_send_def Let_def if_eq_Panic obind_eq_Panic try_into_u32_eq_Panic)

lemma syscall_number_from_eq:
  "k \<in> set syscall_numbers \<Longrightarrow> syscall_number_from a = k \<longleftrightarrow> a = k"
  by (auto simp: syscall_number_from_def syscall_numbers_def)

lemma message_try_from_eq_None:
  "message_try_from t a b c d e = None \<longleftrightarrow>
     \<not> (t \<in> {1, 2, 3} \<and> b \<noteq> 0 \<and> c \<noteq> 0 \<or> t \<in> {4, 5})"
  by (auto simp: message_try_from_def memory_range_new_def nz_new_def Let_def)

lemma syscall_from_args_eq_Panic:
  "syscall_from_args a0 a1 a2 a3 a4 a5 a6 a7 = Panic \<longleftrightarrow>
     syscall_number_from a0 = N_SendMessage \<and>
       message_try_from a2 a3 a4 a5 a6 a7 \<noteq> None \<and> 2 ^ 32 \<le> unat a1
     \<or> syscall_number_from a0 = N_TrySendMessage \<and> a2 = 5 \<and> 2 ^ 32 \<le> unat a1"
  by (simp add: syscall_from_args_def Let_def if_eq_Panic obind_eq_Panic try_into_u32_eq_Panic
      decode_try_send_eq_Panic split: option.split outcome.split)

section \<open>Properties\<close>

text \<open>
  Property C5: the kernel decodes every system call a client can encode to the
  same call, argument by argument (the flags within \<open>FLAGS_ALL\<close>, the application
  ids of sixteen bytes).
\<close>

theorem syscall_round_trip:
  assumes "syscall_wf c"
  shows "decode_registers (as_args c) = Ok c"
  using assms by (rule syscall_registers.dec_enc)

theorem syscall_round_trip_witness:
  "decode_registers (as_args (MemoryCall (MapMemory None (nz_new 0x4000) (nz_lit 0x8000)
      \<lparr>flag_bits = 0x0C\<rparr>)))
   = Ok (MemoryCall (MapMemory None (nz_new 0x4000) (nz_lit 0x8000) \<lparr>flag_bits = 0x0C\<rparr>))"
  by (rule syscall_round_trip) (simp add: FLAGS_ALL_def)

text \<open>
  Property C36: the decoder, which the kernel runs on registers an unprivileged
  process chose, panics exactly when the call is a send whose connection id does
  not fit in 32 bits: \<open>SendMessage\<close> with any message that decodes, and
  \<open>TrySendMessage\<close> with a blocking scalar.
\<close>

theorem decoder_panics_iff:
  "syscall_from_args a0 a1 a2 a3 a4 a5 a6 a7 = Panic \<longleftrightarrow>
     2 ^ 32 \<le> unat a1 \<and>
     (a0 = 16 \<and> (a2 \<in> {1, 2, 3} \<and> a4 \<noteq> 0 \<and> a5 \<noteq> 0 \<or> a2 \<in> {4, 5}) \<or> a0 = 24 \<and> a2 = 5)"
  using syscall_number_from_eq [of N_SendMessage a0] syscall_number_from_eq [of N_TrySendMessage a0]
  by (auto simp: syscall_from_args_eq_Panic message_try_from_eq_None syscall_numbers_def
      simp del: not_None_eq)

end
