(* ===== verification/Syscall_Handler.thy ===== *)
theory Syscall_Handler
  imports Process_Lifecycle Syscall_Codec
begin

text \<open>
  The system call handler, \<open>xous/kernel/src/syscall.rs\<close>: the permission check and the
  dispatch of every call, and the supervisor call entry of
  \<open>arch/aarch64/irq.rs\<close> that saves and restores the contexts around it.  The inputs of the
  outside world (random numbers, the embedded programs, the network addresses, the output
  of the debug commands) are the fields of \<open>world\<close>.
\<close>

record world =
  w_random :: "nat \<Rightarrow> u32"
  w_binaries :: binary_table
  w_net :: "usize \<times> usize \<times> usize"
  w_debug :: "u8 \<Rightarrow> u8 list"

section \<open>Permissions\<close>

text \<open>\<open>1 << call.as_args()[0]\<close> overflows for call numbers from 64.\<close>

definition permitted_by_mask :: "syscall \<Rightarrow> 'b kernel \<Rightarrow> unit kresult" where
  "permitted_by_mask call k =
    obind (current_process k) (\<lambda>pr.
      let n = unat (as_args call ! 0) in
      if n \<ge> 64 then Panic
      else if p_syscall_permissions pr AND push_bit n 1 \<noteq> 0 then Ok () else Err AccessDenied)"

definition connected_server :: "'b kernel \<Rightarrow> process \<Rightarrow> cid \<Rightarrow> nat kresult" where
  "connected_server k pr cid =
    obind (connection pr cid) (\<lambda>slot.
      case slot of Connected sidx _ _ \<Rightarrow> Ok (unat sidx) | _ \<Rightarrow> Err ServerNotFound)"

definition server_is_current :: "'b kernel \<Rightarrow> pid \<Rightarrow> cid \<Rightarrow> bool kresult" where
  "server_is_current k p cid =
    obind (process_of k p) (\<lambda>pr.
    obind (connected_server k pr cid) (\<lambda>sidx.
    obind (server_from_sidx k sidx) (\<lambda>sv.
    obind (ok_or sv ServerNotFound) (\<lambda>sv. Ok (srv_pid sv = cur_pid k)))))"

fun privileged :: "syscall \<Rightarrow> bool" where
  "privileged (ThreadCall (SetThreadPriority prio)) \<longleftrightarrow> \<not> prio < System0"
| "privileged (ThreadCall (ClaimInterrupt _ _ _)) \<longleftrightarrow> True"
| "privileged (ThreadCall (FreeInterrupt _)) \<longleftrightarrow> True"
| "privileged (ProcessCall (CreateProcess _)) \<longleftrightarrow> True"
| "privileged (ProcessCall (Shutdown _)) \<longleftrightarrow> True"
| "privileged (SystemCall (PowerManagement _)) \<longleftrightarrow> True"
| "privileged (ProcessCall (TerminatePid _ _)) \<longleftrightarrow> True"
| "privileged (SystemCall (GetSystemStats _)) \<longleftrightarrow> True"
| "privileged (SystemCall (GetPanicMessage _)) \<longleftrightarrow> True"
| "privileged (MemoryCall (VirtToPhys _)) \<longleftrightarrow> True"
| "privileged (MemoryCall (VirtToPhysPid _ _)) \<longleftrightarrow> True"
| "privileged (SystemCall (DebugCommand _ _)) \<longleftrightarrow> True"
| "privileged (ProcessCall (SpawnByName _ _ _ _)) \<longleftrightarrow> True"
| "privileged (ProcessCall (SpawnByNameWithArgs _ _ _ _)) \<longleftrightarrow> True"
| "privileged (ProcessCall (WaitProcess _)) \<longleftrightarrow> True"
| "privileged _ \<longleftrightarrow> False"

fun check_syscall_permission :: "syscall \<Rightarrow> 'b kernel \<Rightarrow> unit kresult" where
  "check_syscall_permission (ServerCall (AllowMessagesSID s msgs)) k =
    (if sidx_from_sid k s (cur_pid k) \<noteq> None then Ok ()
     else permitted_by_mask (ServerCall (AllowMessagesSID s msgs)) k)"
| "check_syscall_permission (ServerCall (AllowMessagesCID p cid msgs)) k =
    obind (server_is_current k p cid) (\<lambda>own.
      if own then Ok () else permitted_by_mask (ServerCall (AllowMessagesCID p cid msgs)) k)"
| "check_syscall_permission (Invalid a b c d e f g) k = Err UnhandledSyscall"
| "check_syscall_permission call k = (if privileged call then permitted_by_mask call k else Ok ())"

section \<open>Memory\<close>

text \<open>A read of user memory by the kernel; a fault in the kernel panics.\<close>

definition user_load :: "'b kernel \<Rightarrow> usize \<Rightarrow> u64 kresult" where
  "user_load k addr =
    (case virt_to_phys (kvm k) (cur_map k) addr of Ok pa \<Rightarrow> Ok (ram (kvm k) (phys_to_virt pa)) | _ \<Rightarrow> Panic)"

fun check_contiguous :: "'b kernel \<Rightarrow> usize \<Rightarrow> (nat \<times> usize) list \<Rightarrow> unit kresult" where
  "check_contiguous k phys [] = Ok ()"
| "check_contiguous k phys ((i, page) # ps) =
    obind (virt_to_phys (kvm k) (cur_map k) page) (\<lambda>pa.
    obind (phys_end phys (of_nat (i * PAGE_SIZE))) (\<lambda>expected.
    if pa \<noteq> expected then Err AccessDenied else check_contiguous k phys ps))"

definition mirror_memory_to_pid ::
  "'b bitvec \<Rightarrow> memory_range \<Rightarrow> pid \<Rightarrow> 'b kernel \<Rightarrow> xous_result kresult \<times> 'b kernel" where
  "mirror_memory_to_pid B mem p k =
    (let source = cur_map k in
     sbind (virt_to_phys (kvm k) source (as_ptr mem), k) (\<lambda>mem_phys k.
     sbind (phys_end (as_ptr mem) (memory_range_len mem), k) (\<lambda>stop k.
     sbind (check_contiguous k mem_phys (enumerate 0 (step_range (as_ptr mem) stop)), k) (\<lambda>_ k.
     sbind (process_of k p, k) (\<lambda>pr k.
     case map_range_readonly_mirror B p mem_phys (memory_range_len mem) (activate_mapping pr k) of
       (r, k) \<Rightarrow>
         if r = Panic then (Panic, k)
         else sbind (r, k\<lparr>cur_map := source\<rparr>) (\<lambda>range k. (Ok (RespMemoryRange range), k)))))))"

fun handle_memory :: "'b bitvec \<Rightarrow> memory_call \<Rightarrow> 'b kernel \<Rightarrow> xous_result kresult \<times> 'b kernel" where
  "handle_memory B (MapMemory phys virt sz flags) k =
    (if nz_get (cur_pid k) \<noteq> 1 \<and> (case virt of None \<Rightarrow> False | Some v \<Rightarrow> nz_get v \<ge> USER_AREA_END)
     then (Err BadAddress, k)
     else if \<not> page_aligned (nz_get sz) then (Err BadAlignment, k)
     else if flags_is_set flags (flags_or FLAG_W FLAG_X) then (Err InvalidArguments, k)
     else
       sbind (map_range B (opt_get phys) (opt_get virt) (nz_get sz) flags True k) (\<lambda>mr k. (Ok (RespMemoryRange mr), k)))"
| "handle_memory B (UnmapMemory mr) k =
    sbind (check_range_accessible k mr, k) (\<lambda>_ k.
    sbind (unmap_range B (as_ptr mr) (memory_range_len mr) k) (\<lambda>_ k. (Ok RespOk, k)))"
| "handle_memory B (IncreaseHeap sz) k =
    (if \<not> page_aligned (nz_get sz) then (Err BadAlignment, k)
     else
       sbind (map_range B 0 0 (nz_get sz) (flags_or FLAG_POPULATE FLAG_W) True k) (\<lambda>mr k. (Ok (RespMemoryRange mr), k)))"
| "handle_memory B (UpdateMemoryFlags mr flags p) k =
    (if p \<noteq> None then (Err ProcessNotChild, k) else (Panic, k))"
| "handle_memory B (VirtToPhys va) k =
    sbind (virt_to_phys (kvm k) (cur_map k) (page_floor va), k) (\<lambda>pa k.
      (Ok (Scalar1 (pa OR (va AND of_nat (PAGE_SIZE - 1)))), k))"
| "handle_memory B (VirtToPhysPid p va) k =
    sbind (process_of k p, k) (\<lambda>pr k.
    sbind (virt_to_phys (kvm k) (p_mapping pr) (page_floor va), k) (\<lambda>pa k.
      (Ok (Scalar1 (pa OR (va AND of_nat (PAGE_SIZE - 1)))), k)))"
| "handle_memory B (FlushCache mr op) k =
    sbind (check_range_accessible k mr, k) (\<lambda>_ k. (Ok RespOk, k))"
| "handle_memory B (MirrorMemoryToPid mr p) k = mirror_memory_to_pid B mr p k"

section \<open>Threads\<close>

fun futex_wake :: "usize \<Rightarrow> usize \<Rightarrow> nat list \<Rightarrow> 'b kernel \<Rightarrow> unit kresult \<times> 'b kernel" where
  "futex_wake addr n [] k = (Ok (), k)"
| "futex_wake addr n (t # ts) k =
    (if n = 0 then (Ok (), k)
     else
       sbind (current_process k, k) (\<lambda>pr k.
       if kernel_future_of pr t = Some (FWaitFutex addr) then
         sbind (unwrap_result (with_proc_sched (cur_pid k)
           (\<lambda>ps. set_thread_state t TReady (set_mailbox t RespOk (fst ps), snd ps)) k)) (\<lambda>_ k.
         futex_wake addr (n - 1) ts k)
       else futex_wake addr n ts k))"

definition futex_wait :: "nat \<Rightarrow> usize \<Rightarrow> usize \<Rightarrow> 'b kernel \<Rightarrow> xous_result kresult \<times> 'b kernel" where
  "futex_wait tid addr val k =
    (if addr AND 7 \<noteq> 0 then (Err BadAlignment, k)
     else
       sbind (obind (memory_range_new addr 8) (check_range_accessible k), k) (\<lambda>_ k.
       sbind (user_load k addr, k) (\<lambda>got k.
       if val \<noteq> got then (Err Again, k)
       else
         sbind (set_thread_result (cur_pid k) tid RespOk k) (\<lambda>_ k.
         sbind (suspend_with_future tid (FWaitFutex addr) EVENT_KERNEL k) (\<lambda>_ k.
         activate_current k)))))"

definition sys_yield :: "nat \<Rightarrow> 'b kernel \<Rightarrow> xous_result kresult \<times> 'b kernel" where
  "sys_yield tid k =
    sbind (set_thread_result (cur_pid k) tid RespOk k) (\<lambda>_ k.
    sbind (obind (current_process k) (\<lambda>pr. thread_priority_of pr tid), k) (\<lambda>prio k.
    sbind (case yield_thread (sched k) (cur_pid k, tid) prio of
             Ok s \<Rightarrow> (Ok (), k\<lparr>sched := s\<rparr>) | Err e \<Rightarrow> (Err e, k) | Panic \<Rightarrow> (Panic, k)) (\<lambda>_ k.
    activate_current k)))"

definition wait_event :: "nat \<Rightarrow> usize \<Rightarrow> 'b kernel \<Rightarrow> xous_result kresult \<times> 'b kernel" where
  "wait_event tid msk k =
    (if msk = 0 then (Err InvalidArguments, k)
     else
       sbind (unwrap_result (with_process (cur_pid k)
         (\<lambda>pr. case take_notification_bits_masked msk pr of (fired, pr') \<Rightarrow> (Ok fired, pr')) k)) (\<lambda>fired k.
       if fired \<noteq> 0 then (Ok (Scalar1 fired), k)
       else
         sbind (set_thread_result (cur_pid k) tid RespOk k) (\<lambda>_ k.
         sbind (unwrap_result (with_proc_sched (cur_pid k) (set_thread_state tid (thread_state.WaitEvent msk)) k)) (\<lambda>_ k.
         activate_current k))))"

fun handle_thread :: "nat \<Rightarrow> thread_call \<Rightarrow> 'b kernel \<Rightarrow> xous_result kresult \<times> 'b kernel" where
  "handle_thread tid Yield k = sys_yield tid k"
| "handle_thread tid (SetThreadPriority prio) k =
    (if prio = Idle then (Err InvalidArguments, k)
     else
       sbind (unwrap_result (with_proc_sched (cur_pid k) (set_thread_priority tid prio) k)) (\<lambda>_ k.
       finish_call tid k))"
| "handle_thread tid (ClaimInterrupt no callback arg) k =
    (case irq_number_from no of
       Ok irq \<Rightarrow>
         sbind (on_irqs (interrupt_claim_user irq (cur_pid k) callback arg) k) (\<lambda>_ k. (Ok RespOk, k))
     | _ \<Rightarrow> (Err InvalidArguments, k))"
| "handle_thread tid (FreeInterrupt no) k =
    (case irq_number_from no of
       Ok irq \<Rightarrow> sbind (on_irqs (interrupt_free irq (cur_pid k)) k) (\<lambda>_ k. (Ok RespOk, k))
     | _ \<Rightarrow> (Err InvalidArguments, k))"
| "handle_thread tid (FutexWait addr val) k = futex_wait tid addr val k"
| "handle_thread tid (FutexWake addr n) k =
    sbind (futex_wake addr n [1 ..< MAX_THREAD_COUNT] k) (\<lambda>_ k. (Ok RespOk, k))"
| "handle_thread tid (CreateThread init) k =
    sbind (create_thread tid init k) (\<lambda>t k. (Ok (ThreadID (of_nat t)), k))"
| "handle_thread tid GetThreadId k = (Ok (ThreadID (of_nat tid)), k)"
| "handle_thread tid (JoinThread other) k = join_thread tid (unat other) k"
| "handle_thread tid (thread_call.WaitEvent msk) k = wait_event tid msk k"
| "handle_thread tid PollEvent k =
    sbind (unwrap_result (with_process (cur_pid k)
      (\<lambda>pr. case take_notification_bits pr of (bits, pr') \<Rightarrow> (Ok bits, pr')) k)) (\<lambda>bits k. (Ok (Scalar1 bits), k))"
| "handle_thread tid (PostEvent p bits) k =
    (if bits = 0 then (Ok RespOk, k)
     else if p \<noteq> cur_pid k then (Err AccessDenied, k)
     else sbind (notify_process p bits k) (\<lambda>_ k. (Ok RespOk, k)))"

section \<open>Messages\<close>

fun handle_message :: "'b bitvec \<Rightarrow> nat \<Rightarrow> message_call \<Rightarrow> 'b kernel \<Rightarrow> xous_result kresult \<times> 'b kernel" where
  "handle_message B tid (ReceiveMessage s) k = receive_message tid s True k"
| "handle_message B tid (TryReceiveMessage s) k = receive_message tid s False k"
| "handle_message B tid (SendMessage cid msg) k =
    (case send_message B tid cid msg k of
       (Err ServerQueueFull, k) \<Rightarrow>
         sbind (obind (current_process k) (\<lambda>pr. connected_server k pr cid), k) (\<lambda>sidx k.
         retry_syscall tid (RetryQueueFull sidx) k)
     | r \<Rightarrow> r)"
| "handle_message B tid (TrySendMessage cid msg) k = send_message B tid cid msg k"
| "handle_message B tid (ReturnMemory sender buf offset valid) k = sys_return_memory B tid sender buf offset valid k"
| "handle_message B tid (ReturnScalar1 sender a) k = return_result tid sender (Scalar1 a) k"
| "handle_message B tid (ReturnScalar2 sender a b) k = return_result tid sender (Scalar2 a b) k"
| "handle_message B tid (ReturnScalar5 sender a b c d e) k = return_result tid sender (Scalar5 a b c d e) k"

section \<open>Servers\<close>

definition allow_messages_cid :: "pid \<Rightarrow> cid \<Rightarrow> msg_range \<Rightarrow> 'b kernel \<Rightarrow> xous_result kresult \<times> 'b kernel" where
  "allow_messages_cid p cid msgs k =
    (if cid < 2 then (Err ServerNotFound, k)
     else
       with_process p (\<lambda>pr.
         case connection pr cid of
           Ok (Connected sidx n perms) \<Rightarrow>
             (case permissions_add perms msgs of (r, perms') \<Rightarrow>
                sbind (r, pr\<lparr>p_connections := (p_connections pr)[unat cid - 2 := Connected sidx n perms']\<rparr>)
                  (\<lambda>_ pr. (Ok RespOk, pr)))
         | _ \<Rightarrow> (Err ServerNotFound, pr)) k)"

fun handle_server :: "'b bitvec \<Rightarrow> world \<Rightarrow> server_call \<Rightarrow> 'b kernel \<Rightarrow> xous_result kresult \<times> 'b kernel" where
  "handle_server B w (CreateServerWithAddress s msgs) k =
    sbind (create_server_with_address B s msgs k) (\<lambda>s k. (Ok (NewServerID s), k))"
| "handle_server B w (Connect s) k =
    sbind (connect_to_server (cur_pid k) s k) (\<lambda>c k. (Ok (ConnectionID c), k))"
| "handle_server B w (TryConnect s) k =
    sbind (connect_to_server (cur_pid k) s k) (\<lambda>c k. (Ok (ConnectionID c), k))"
| "handle_server B w CreateServer k =
    sbind (create_server_with_address B (create_server_id (w_random w)) (0, 0) k) (\<lambda>s k. (Ok (NewServerID s), k))"
| "handle_server B w CreateServerId k = (Ok (ServerID (create_server_id (w_random w))), k)"
| "handle_server B w (ConnectForProcess p s) k =
    sbind (connect_to_server p s k) (\<lambda>c k. (Ok (ConnectionID c), k))"
| "handle_server B w (GetRemoteProcessId cid) k =
    sbind (obind (current_process k) (\<lambda>pr. connected_server k pr cid), k) (\<lambda>sidx k.
    sbind (obind (server_from_sidx k sidx) (\<lambda>sv. ok_or sv ServerNotFound), k) (\<lambda>sv k.
    (Ok (ProcessID (srv_pid sv)), k)))"
| "handle_server B w (DestroyServer s) k = sbind (destroy_server B (cur_pid k) s k) (\<lambda>_ k. (Ok RespOk, k))"
| "handle_server B w (Disconnect cid) k = sbind (disconnect_from_server cid k) (\<lambda>_ k. (Ok RespOk, k))"
| "handle_server B w (AllowMessagesSID s msgs) k =
    (case sidx_from_sid k s (cur_pid k) of
       None \<Rightarrow> (Err ServerNotFound, k)
     | Some sidx \<Rightarrow>
         with_server sidx (\<lambda>sv.
           case permissions_add (default_permissions sv) msgs of (r, perms) \<Rightarrow>
             sbind (r, sv\<lparr>default_permissions := perms\<rparr>) (\<lambda>_ sv. (Ok RespOk, sv))) k)"
| "handle_server B w (AllowMessagesCID p cid msgs) k = allow_messages_cid p cid msgs k"

section \<open>Processes\<close>

definition name_of_words :: "usize list \<Rightarrow> u8 list" where
  "name_of_words ws = takeWhile (\<lambda>b. b \<noteq> 0) (concat (map (\<lambda>w. map (word_byte w) [0 ..< 8]) ws))"

definition get_app_id :: "pid \<Rightarrow> 'b kernel \<Rightarrow> xous_result kresult" where
  "get_app_id p k =
    (case process_of k p of
       Ok pr \<Rightarrow>
         (case app_id_to_words (p_app_id pr) of (a, b, c, d) \<Rightarrow> Ok (Scalar5 (ucast a) (ucast b) (ucast c) (ucast d) 1))
     | Err _ \<Rightarrow> Ok (Scalar5 0 0 0 0 0)
     | Panic \<Rightarrow> Panic)"

fun handle_process :: "'b bitvec \<Rightarrow> world \<Rightarrow> nat \<Rightarrow> process_call \<Rightarrow> 'b kernel \<Rightarrow> xous_result kresult \<times> 'b kernel" where
  "handle_process B w tid (CreateProcess init) k =
    sbind (create_process B (w_random w 0) init k) (\<lambda>startup k. (Ok (NewProcess startup), k))"
| "handle_process B w tid (TerminateProcess ret) k = terminate_current_process B ret k"
| "handle_process B w tid (TerminatePid p code) k =
    sbind (current_process k, k) (\<lambda>pr k.
    if p = p_pid pr then (Err InvalidArguments, k) else terminate_process B tid p code k)"
| "handle_process B w tid (Shutdown code) k = (Panic, k)"
| "handle_process B w tid GetProcessId k = (Ok (ProcessID (cur_pid k)), k)"
| "handle_process B w tid (GetAppId p) k = (get_app_id p k, k)"
| "handle_process B w tid (AppIdToPid a) k =
    (case pid_from_app_id k a of Some p \<Rightarrow> (Ok (ProcessID p), k) | None \<Rightarrow> (Ok RespNone, k))"
| "handle_process B w tid (SpawnByName a b c d) k =
    (case from_utf8 (name_of_words [a, b, c, d]) of
       None \<Rightarrow> (Err InvalidString, k)
     | Some name \<Rightarrow>
         sbind (spawn_by_name B (w_random w 0) (w_binaries w) name k) (\<lambda>p k. (Ok (ProcessID p), k)))"
| "handle_process B w tid (SpawnByNameWithArgs a b argv len) k =
    (case from_utf8 (name_of_words [a, b]) of
       None \<Rightarrow> (Err InvalidString, k)
     | Some name \<Rightarrow>
         sbind (spawn_by_name_with_args B (w_random w 0) (w_binaries w) name argv len k) (\<lambda>p k. (Ok (ProcessID p), k)))"
| "handle_process B w tid (WaitProcess p) k =
    (case process_of k p of
       Err _ \<Rightarrow> (Ok (Scalar1 0), k)
     | Panic \<Rightarrow> (Panic, k)
     | Ok _ \<Rightarrow>
         sbind (suspend_with_future tid (FWaitProcessExit p) EVENT_KERNEL k) (\<lambda>_ k. activate_current k))"

section \<open>System\<close>

definition PANIC_MESSAGE_SIZE :: nat where "PANIC_MESSAGE_SIZE = 1024"

text \<open>\<open>BufStr::write_str\<close> keeps what fits.\<close>

definition buf_write :: "u8 list \<Rightarrow> u8 list \<Rightarrow> u8 list" where
  "buf_write buf s = buf @ take (PANIC_MESSAGE_SIZE - length buf) s"

definition append_panic_message :: "u8 list \<Rightarrow> 'b kernel \<Rightarrow> unit kresult \<times> 'b kernel" where
  "append_panic_message bs k =
    (let p = cur_pid k;
         k = (if panic_message_pid k \<noteq> Some p then k\<lparr>panic_message := [], panic_message_pid := Some p\<rparr> else k)
     in case from_utf8 bs of
          None \<Rightarrow> (Err InvalidString, k)
        | Some s \<Rightarrow> (Ok (), k\<lparr>panic_message := buf_write (panic_message k) s\<rparr>))"

text \<open>The bytes of one register: the inner loop stops once \<open>len\<close> bytes are in the buffer.\<close>

fun put_bytes :: "nat \<Rightarrow> u8 list \<Rightarrow> u8 list \<times> nat \<Rightarrow> u8 list \<times> nat" where
  "put_bytes len [] (buf, n) = (buf, n)"
| "put_bytes len (b # bs) (buf, n) =
    (if n + 1 \<ge> len then (buf[n := b], n + 1) else put_bytes len bs (buf[n := b], n + 1))"

definition panic_bytes :: "usize \<Rightarrow> usize list \<Rightarrow> u8 list" where
  "panic_bytes len ws =
    (let n = min (unat len) 48 in
     take n (fst (fold (\<lambda>w. put_bytes n (map (word_byte w) [0 ..< 8])) ws (replicate 48 0, 0))))"

text \<open>
  The kernel writes through the caller's address space, where a page that the caller may only
  read faults.
\<close>

definition user_store :: "usize \<Rightarrow> u8 \<Rightarrow> 'b kernel \<Rightarrow> unit kresult \<times> 'b kernel" where
  "user_store addr b k =
    (let v = kvm k; t = ttbr0 (cur_map k);
         l2 = pte (ram v) t (l1_index addr) AND PTE_ADDR_MASK;
         l3 = pte (ram v) l2 (l2_index addr) AND PTE_ADDR_MASK
     in case virt_to_phys v (cur_map k) addr of
          Ok pa \<Rightarrow>
            if el1_writable (pte (ram v) l3 (l3_index addr))
            then (Ok (), k\<lparr>kvm := v\<lparr>ram := write_byte (phys_to_virt pa) b (ram v)\<rparr>\<rparr>)
            else (Panic, k)
        | _ \<Rightarrow> (Panic, k))"

fun user_copy :: "usize \<Rightarrow> u8 list \<Rightarrow> 'b kernel \<Rightarrow> unit kresult \<times> 'b kernel" where
  "user_copy addr [] k = (Ok (), k)"
| "user_copy addr (b # bs) k = sbind (user_store addr b k) (\<lambda>_ k. user_copy (addr + 1) bs k)"

definition get_panic_message :: "memory_range \<Rightarrow> 'b kernel \<Rightarrow> xous_result kresult \<times> 'b kernel" where
  "get_panic_message buf k =
    sbind (check_range_accessible k buf, k) (\<lambda>_ k.
      let p = (case panic_message_pid k of None \<Rightarrow> 0 | Some p \<Rightarrow> ucast (nz_get p));
          msg = take (unat (memory_range_len buf)) (panic_message k)
      in sbind (user_copy (as_ptr buf) msg (k\<lparr>panic_message_pid := None\<rparr>)) (\<lambda>_ k.
         (Ok (Scalar2 p (of_nat (length msg))), k)))"

definition INTERNAL_SERVICES :: "u8 list list" where
  "INTERNAL_SERVICES =
    [[0x6C, 0x6F, 0x67], [0x69, 0x64, 0x6C, 0x65], [0x73, 0x68, 0x65, 0x6C, 0x6C],
     [0x70, 0x72, 0x6F, 0x63, 0x6D, 0x61, 0x6E], [0x66, 0x73],
     [0x62, 0x65, 0x65, 0x74, 0x6F, 0x73, 0x2D, 0x74, 0x65, 0x73, 0x74]]"

definition get_user_binary_at :: "binary_table \<Rightarrow> nat \<Rightarrow> u8 list option" where
  "get_user_binary_at bins i =
    (let names = filter (\<lambda>n. n \<notin> set INTERNAL_SERVICES) (map fst bins) in
     if i < length names then Some (names ! i) else None)"

definition name_word :: "u8 list \<Rightarrow> nat \<Rightarrow> usize" where
  "name_word bs i = foldr (\<lambda>b w. ucast b OR push_bit 8 w) (take 8 (drop (8 * i) bs)) 0"

fun ensure_range :: "'b bitvec \<Rightarrow> usize list \<Rightarrow> 'b kernel \<Rightarrow> unit kresult \<times> 'b kernel" where
  "ensure_range B [] k = (Ok (), k)"
| "ensure_range B (a # as) k =
    sbind (on_vm (ensure_page_exists B (cur_map k) a) k) (\<lambda>_ k. ensure_range B as k)"

definition debug_call :: "'b bitvec \<Rightarrow> world \<Rightarrow> memory_range \<Rightarrow> u8 \<Rightarrow> 'b kernel \<Rightarrow> xous_result kresult \<times> 'b kernel" where
  "debug_call B w buf cmd k =
    sbind (check_range_accessible k buf, k) (\<lambda>_ k.
    sbind (obind (phys_end (as_ptr buf) (memory_range_len buf)) (\<lambda>e. next_multiple e PAGE_SIZE), k) (\<lambda>stop k.
    sbind (ensure_range B (step_range (page_floor (as_ptr buf)) stop) k) (\<lambda>_ k.
    let out = take (unat (memory_range_len buf)) (w_debug w cmd) in
    sbind (user_copy (as_ptr buf) out k) (\<lambda>_ k. (Ok (Scalar1 (of_nat (length out))), k)))))"

definition acquire_display :: "'b bitvec \<Rightarrow> nat \<Rightarrow> 'b kernel \<Rightarrow> xous_result kresult \<times> 'b kernel" where
  "acquire_display B tid k =
    (case display_cursor k of (row, col) \<Rightarrow>
       sbind (try_acquire_display B (cur_pid k) tid k) (\<lambda>granted k.
       if granted then (Ok (Scalar2 row col), k)
       else sbind (suspend_with_future tid FWaitDisplay EVENT_KERNEL k) (\<lambda>_ k. activate_current k)))"

fun handle_system :: "'b bitvec \<Rightarrow> world \<Rightarrow> nat \<Rightarrow> system_call \<Rightarrow> 'b kernel \<Rightarrow> xous_result kresult \<times> 'b kernel" where
  "handle_system B w tid (PowerManagement mode) k = (Ok RespOk, k)"
| "handle_system B w tid (DebugCommand buf cmd) k = debug_call B w buf cmd k"
| "handle_system B w tid (GetSystemStats FreeMemory) k = (Ok (Scalar1 (of_nat (ram_free (mm (kvm k))))), k)"
| "handle_system B w tid (GetSystemStats IsSystemLowOnMemory) k =
    (Ok (Scalar1 (if low_memory (mm (kvm k)) then 1 else 0)), k)"
| "handle_system B w tid (RegisterEventHandler event s mid) k =
    sbind (unwrap_result (current_process k, k)) (\<lambda>_ k.
    sbind (with_process (cur_pid k) (set_event_handler event s mid) k) (\<lambda>_ k. (Ok RespOk, k)))"
| "handle_system B w tid (AppendPanicMessage len a b c d e f) k =
    sbind (append_panic_message (panic_bytes len [a, b, c, d, e, f]) k) (\<lambda>_ k. (Ok RespOk, k))"
| "handle_system B w tid (GetPanicMessage buf) k = get_panic_message buf k"
| "handle_system B w tid NetGetInfo k = (case w_net w of (ip, hi, lo) \<Rightarrow> (Ok (Scalar5 ip hi lo 0 0), k))"
| "handle_system B w tid (GetBinaryName i) k =
    (case get_user_binary_at (w_binaries w) (unat i) of
       Some bs \<Rightarrow> (Ok (Scalar5 (name_word bs 0) (name_word bs 1) (name_word bs 2) (name_word bs 3) 0), k)
     | None \<Rightarrow> (Err ProcessNotFound, k))"
| "handle_system B w tid AcquireDisplay k = acquire_display B tid k"
| "handle_system B w tid (ReleaseDisplay row col) k = sbind (release_display B row col k) (\<lambda>_ k. (Ok RespOk, k))"
| "handle_system B w tid (AcquireInputFocus a b c d) k =
    sbind (acquire_input_focus (cur_pid k) (SID a b c d) k) (\<lambda>buf k.
    sbind (deliver_chars (SID a b c d) buf k) (\<lambda>_ k. (Ok RespOk, k)))"
| "handle_system B w tid ReleaseInputFocus k = (Ok RespOk, release_input_focus k)"

section \<open>The handler\<close>

fun dispatch :: "'b bitvec \<Rightarrow> world \<Rightarrow> nat \<Rightarrow> syscall \<Rightarrow> 'b kernel \<Rightarrow> xous_result kresult \<times> 'b kernel" where
  "dispatch B w tid (MemoryCall c) k = handle_memory B c k"
| "dispatch B w tid (ThreadCall c) k = handle_thread tid c k"
| "dispatch B w tid (MessageCall c) k = handle_message B tid c k"
| "dispatch B w tid (ServerCall c) k = handle_server B w c k"
| "dispatch B w tid (ProcessCall c) k = handle_process B w tid c k"
| "dispatch B w tid (SystemCall c) k = handle_system B w tid c k"
| "dispatch B w tid (Invalid _ _ _ _ _ _ _) k = (Err UnhandledSyscall, k)"

definition handle :: "'b bitvec \<Rightarrow> world \<Rightarrow> nat \<Rightarrow> syscall \<Rightarrow> 'b kernel \<Rightarrow> xous_result kresult \<times> 'b kernel" where
  "handle B w tid call k =
    (if tid = IRQ_TID \<and> \<not> can_call_from_interrupt call then (Err InvalidSyscall, k)
     else sbind (check_syscall_permission call k, k) (\<lambda>_ k. dispatch B w tid call k))"

end
