(* ===== verification/Exceptions.thy ===== *)
theory Exceptions
  imports Syscall_Handler
begin

text \<open>
  The exception entries of \<open>xous/kernel/src/arch/aarch64/irq.rs\<close> on the QEMU platform:
  the supervisor call, the aborts, the interrupts from user and kernel mode, and the idle loop.
  What the interrupt controller and the devices report is an input: one \<open>irq_event\<close> per
  interrupt.  \<open>None\<close> stands for a kernel that still waits for the next interrupt.
\<close>

datatype irq_event = Spurious | TimerTick | UartInput "u8 list" | KeyboardInput "u8 list" | DeviceIrq u32

fun dispatch_chars :: "u8 list \<Rightarrow> 'b kernel \<Rightarrow> unit kresult \<times> 'b kernel" where
  "dispatch_chars [] k = (Ok (), k)"
| "dispatch_chars (c # cs) k = sbind (dispatch_input_char c k) (\<lambda>_ k. dispatch_chars cs k)"

fun handle_irq :: "irq_event \<Rightarrow> 'b kernel \<Rightarrow> bool kresult \<times> 'b kernel" where
  "handle_irq Spurious k = (Ok False, k)"
| "handle_irq TimerTick k = (Ok True, k)"
| "handle_irq (UartInput cs) k = sbind (dispatch_chars cs k) (\<lambda>_ k. (Ok False, k))"
| "handle_irq (KeyboardInput cs) k = sbind (dispatch_chars cs k) (\<lambda>_ k. (Ok False, k))"
| "handle_irq (DeviceIrq n) k = (Ok False, k)"

text \<open>The running thread, and the contexts of the table loaded into the frame of the exception.\<close>

definition running_tid :: "'b kernel \<Rightarrow> nat" where
  "running_tid k = current_tid (ptable k) (cur_pid k)"

definition load_current :: "thread_context \<Rightarrow> 'b kernel \<Rightarrow> thread_context kresult \<times> 'b kernel" where
  "load_current frame k = (load_context_from_table (ptable k) (cur_pid k) (running_tid k) frame, k)"

definition save_current :: "thread_context \<Rightarrow> 'b kernel \<Rightarrow> unit kresult \<times> 'b kernel" where
  "save_current frame k = on_ptable (save_context_to_table (cur_pid k) (running_tid k) frame) k"

text \<open>An error of \<open>activate_current\<close> is discarded on these paths.\<close>

definition reschedule :: "'b kernel \<Rightarrow> unit kresult \<times> 'b kernel" where
  "reschedule k = drop_error (activate_current k)"

definition preempt :: "pid \<Rightarrow> nat \<Rightarrow> 'b kernel \<Rightarrow> unit kresult \<times> 'b kernel" where
  "preempt p tid k =
    sbind (unwrap_result (obind (current_process k) (\<lambda>pr. thread_priority_of pr tid), k)) (\<lambda>prio k.
    sbind (case yield_thread (sched k) (p, tid) prio of
             Ok s \<Rightarrow> (Ok (), k\<lparr>sched := s\<rparr>) | Err e \<Rightarrow> (Err e, k) | Panic \<Rightarrow> (Panic, k)) (\<lambda>_ k.
    reschedule k))"

definition user_irq_handler ::
  "irq_event \<Rightarrow> thread_context \<Rightarrow> 'b kernel \<Rightarrow> thread_context kresult \<times> 'b kernel" where
  "user_irq_handler ev frame k =
    (let p = cur_pid k; tid = running_tid k in
     sbind (save_current frame k) (\<lambda>_ k.
     sbind (handle_irq ev k) (\<lambda>was_timer k.
     sbind (if was_timer then preempt p tid k else (Ok (), k)) (\<lambda>_ k.
     load_current frame k))))"

definition kernel_irq_handler ::
  "irq_event \<Rightarrow> thread_context \<Rightarrow> 'b kernel \<Rightarrow> thread_context kresult \<times> 'b kernel" where
  "kernel_irq_handler ev frame k =
    sbind (handle_irq ev k) (\<lambda>_ k. (Ok (frame\<lparr>ctx_spsr := ctx_spsr frame AND NOT 0x80\<rparr>), k))"

fun idle_wait_then_load ::
  "irq_event list \<Rightarrow> thread_context \<Rightarrow> 'b kernel \<Rightarrow> thread_context option kresult \<times> 'b kernel" where
  "idle_wait_then_load evs frame k =
    (if nz_get (cur_pid k) \<noteq> 1 then sbind (load_current frame k) (\<lambda>f k. (Ok (Some f), k))
     else case evs of
       [] \<Rightarrow> (Ok None, k)
     | ev # evs \<Rightarrow>
         sbind (handle_irq ev k) (\<lambda>_ k.
         sbind (reschedule k) (\<lambda>_ k.
         idle_wait_then_load evs frame k)))"

declare idle_wait_then_load.simps [simp del]

definition handle_svc ::
  "'b bitvec \<Rightarrow> world \<Rightarrow> irq_event list \<Rightarrow> thread_context \<Rightarrow> 'b kernel \<Rightarrow>
   thread_context option kresult \<times> 'b kernel" where
  "handle_svc B w evs frame k =
    (let p = cur_pid k; tid = running_tid k in
     sbind (save_current frame k) (\<lambda>_ k.
     case decode_registers (get_args frame) of
       Panic \<Rightarrow> (Panic, k)
     | Err _ \<Rightarrow> (Ok (Some (set_args (to_args (RespError InvalidSyscall)) frame)), k)
     | Ok call \<Rightarrow>
         (case handle B w tid call k of
            (Panic, k) \<Rightarrow> (Panic, k)
          | (r, k) \<Rightarrow>
              let response = (case r of Ok v \<Rightarrow> v | Err e \<Rightarrow> RespError e) in
              sbind (if response = ResumeProcess then (Ok (), k)
                     else on_ptable (arch_set_thread_result p tid response) k) (\<lambda>_ k.
              idle_wait_then_load evs frame k))))"

definition handle_abort ::
  "'b bitvec \<Rightarrow> irq_event list \<Rightarrow> thread_context \<Rightarrow> 'b kernel \<Rightarrow> thread_context option kresult \<times> 'b kernel" where
  "handle_abort B evs frame k =
    sbind (save_current frame k) (\<lambda>_ k.
    sbind (drop_error (terminate_current_process B 1 k)) (\<lambda>_ k.
    idle_wait_then_load evs frame k))"

text \<open>The exception class is in the top six bits of the syndrome; an unknown one halts the core.\<close>

definition user_sync_handler ::
  "'b bitvec \<Rightarrow> world \<Rightarrow> u64 \<Rightarrow> irq_event list \<Rightarrow> thread_context \<Rightarrow> 'b kernel \<Rightarrow>
   thread_context option kresult \<times> 'b kernel" where
  "user_sync_handler B w esr evs frame k =
    (let ec = drop_bit 26 esr AND 0x3F in
     if ec = 0x15 then handle_svc B w evs frame k
     else if ec \<in> {0x20, 0x21, 0x24, 0x25} then handle_abort B evs frame k
     else (Panic, k))"

end
