(* ===== verification/Boot.thy ===== *)
theory Boot
  imports Exceptions
begin

text \<open>
  The start of the system: the initial value of the globals (\<open>services.rs\<close>,
  \<open>scheduler.rs\<close>) and \<open>launch_first_process\<close> of \<open>xous/kernel/src/arch/aarch64/boot.rs\<close>,
  which creates the first four processes, hands the disk to the file service and enters the
  shell.  The addresses of the embedded programs and of their names, the random slides and
  the contents of the disk are arguments.
\<close>

section \<open>The initial state\<close>

definition kernel_init :: "'b vm \<Rightarrow> memory_mapping \<Rightarrow> 'b kernel" where
  "kernel_init v mp =
    \<lparr>processes = replicate MAX_PROCESS_COUNT None, servers = replicate MAX_SERVER_COUNT None,
     sched = scheduler_init, kvm = v, ptable = replicate MAX_PROCESS_COUNT None,
     irqs = irq_table_init, display = display_new, panic_message = [], panic_message_pid = None,
     cur_pid = pid1, cur_map = mp\<rparr>"

section \<open>The first processes\<close>

definition DISK_DATA_VA :: usize where "DISK_DATA_VA = 0x1002000000"

record boot_image =
  bi_range :: "usize \<times> usize"
  bi_name :: memory_address

definition create_elf_process :: "'b bitvec \<Rightarrow> u32 \<Rightarrow> pid \<Rightarrow> boot_image \<Rightarrow> 'b kernel \<Rightarrow> unit kresult \<times> 'b kernel" where
  "create_elf_process B random p im k =
    sbind (unwrap_result (memory_range_new (fst (bi_range im)) (snd (bi_range im)), k)) (\<lambda>elf k.
    sbind (unwrap_result (create_process B random
      \<lparr>pi_elf = elf, pi_name_addr = bi_name im, pi_app_id = app_id_from_words (ucast (nz_get p)) 0 0 0\<rparr> k)) (\<lambda>_ k.
    unwrap_result (with_process p (\<lambda>pr. (Ok (), pr\<lparr>p_syscall_permissions := - 1\<rparr>)) k)))"

fun create_each :: "'b bitvec \<Rightarrow> (nat \<Rightarrow> u32) \<Rightarrow> (pid \<times> boot_image) list \<Rightarrow> 'b kernel \<Rightarrow> unit kresult \<times> 'b kernel" where
  "create_each B random [] k = (Ok (), k)"
| "create_each B random ((p, im) # ps) k =
    sbind (create_elf_process B (random (pid_index p)) p im k) (\<lambda>_ k. create_each B random ps k)"

fun map_uart :: "'b bitvec \<Rightarrow> pid list \<Rightarrow> 'b kernel \<Rightarrow> unit kresult \<times> 'b kernel" where
  "map_uart B [] k = (Ok (), k)"
| "map_uart B (p # ps) k =
    sbind (unwrap_result (process_of k p, k)) (\<lambda>pr k.
    sbind (unwrap_result (on_vm (map_page B (p_mapping pr) UART_PHYS SHELL_UART_VA (flags_or FLAG_W FLAG_DEV) True) k)) (\<lambda>_ k.
    map_uart B ps k))"

section \<open>The disk\<close>

text \<open>
  The size in bytes the block device reports and the outcome of reading each page: the bytes
  that were transferred and whether the read succeeded.  A failed allocation makes the whole
  attempt fail after the remaining pages are allocated.
\<close>

type_synonym disk = "(nat \<times> (nat \<Rightarrow> u8 list \<times> bool)) option"

fun alloc_disk :: "'b bitvec \<Rightarrow> nat \<Rightarrow> 'b kernel \<Rightarrow> (usize list \<times> bool) kresult \<times> 'b kernel" where
  "alloc_disk B 0 k = (Ok ([], True), k)"
| "alloc_disk B (Suc n) k =
    (case on_mm (\<lambda>m. alloc_range B m 1 pid1) k of
       (Ok (pa, _), k) \<Rightarrow>
         sbind (alloc_disk B n (k\<lparr>kvm := (kvm k)\<lparr>ram := zero_bytes (ram (kvm k)) (phys_to_virt pa) (of_nat PAGE_SIZE)\<rparr>\<rparr>))
           (\<lambda>(pas, good) k. (Ok (pa # pas, good), k))
     | (Err _, k) \<Rightarrow> sbind (alloc_disk B n k) (\<lambda>(pas, _) k. (Ok (0 # pas, False), k))
     | (Panic, k) \<Rightarrow> (Panic, k))"

fun fill_disk :: "nat \<Rightarrow> usize list \<Rightarrow> (nat \<Rightarrow> u8 list \<times> bool) \<Rightarrow> 'b kernel \<Rightarrow> bool \<times> 'b kernel" where
  "fill_disk i [] rd k = (True, k)"
| "fill_disk i (pa # pas) rd k =
    (case rd i of (bs, good) \<Rightarrow>
       let k = k\<lparr>kvm := (kvm k)\<lparr>ram := write_bytes_at (phys_to_virt pa) (take PAGE_SIZE bs) (ram (kvm k))\<rparr>\<rparr> in
       if good then fill_disk (Suc i) pas rd k else (False, k))"

fun map_disk :: "'b bitvec \<Rightarrow> memory_mapping \<Rightarrow> nat \<Rightarrow> usize list \<Rightarrow> 'b kernel \<Rightarrow> unit kresult \<times> 'b kernel" where
  "map_disk B mp i [] k = (Ok (), k)"
| "map_disk B mp i (pa # pas) k =
    sbind (drop_error (on_vm (map_page B mp pa (DISK_DATA_VA + of_nat (i * PAGE_SIZE)) flags_empty True) k)) (\<lambda>_ k.
    map_disk B mp (Suc i) pas k)"

definition attach_disk :: "'b bitvec \<Rightarrow> pid \<Rightarrow> disk \<Rightarrow> 'b kernel \<Rightarrow> (usize \<times> usize) kresult \<times> 'b kernel" where
  "attach_disk B fs disk k =
    (case disk of
       None \<Rightarrow> (Ok (0, 0), k)
     | Some (bytes, rd) \<Rightarrow>
         let pages = (bytes + PAGE_SIZE - 1) div PAGE_SIZE in
         if pages > 0 \<and> pages \<le> 256 then
           sbind (alloc_disk B pages k) (\<lambda>(pas, good) k.
           if \<not> good then (Ok (0, 0), k)
           else (case fill_disk 0 pas rd k of
               (False, k) \<Rightarrow> (Ok (0, 0), k)
             | (True, k) \<Rightarrow>
                 sbind (unwrap_result (process_of k fs, k)) (\<lambda>pr k.
                 sbind (map_disk B (p_mapping pr) 0 pas k) (\<lambda>_ k.
                 (Ok (DISK_DATA_VA, of_nat bytes), k)))))
         else (Ok (0, 0), k))"

section \<open>Entering the shell\<close>

definition set_thread_arg0 :: "nat \<Rightarrow> usize \<Rightarrow> process_table \<Rightarrow> unit kresult \<times> process_table" where
  "set_thread_arg0 i x0 tab =
    (if i \<ge> length tab then (Panic, tab)
     else (case tab ! i of
        None \<Rightarrow> (Ok (), tab)
      | Some pr \<Rightarrow> (Ok (), tab[i := Some (update_thread (INITIAL_TID - 1) (\<lambda>t. t\<lparr>gpr := (gpr t)[0 := x0]\<rparr>) pr)])))"

record boot_images =
  im_log :: boot_image
  im_procman :: boot_image
  im_shell :: boot_image
  im_fs :: boot_image

definition launch_first_process ::
  "'b bitvec \<Rightarrow> (nat \<Rightarrow> u32) \<Rightarrow> boot_images \<Rightarrow> disk \<Rightarrow> thread_context \<Rightarrow> 'b kernel \<Rightarrow>
    thread_context kresult \<times> 'b kernel" where
  "launch_first_process B random ims disk frame k =
    (let log = nz_lit 2; procman = nz_lit 3; shell = nz_lit 4; fs = nz_lit 5 in
     sbind (create_each B random [(log, im_log ims), (procman, im_procman ims), (shell, im_shell ims), (fs, im_fs ims)] k) (\<lambda>_ k.
     sbind (map_uart B [log, procman, shell, fs] k) (\<lambda>_ k.
     sbind (attach_disk B fs disk k) (\<lambda>(disk_va, disk_size) k.
     sbind (on_ptable (set_thread_arg0 1 SHELL_UART_VA) k) (\<lambda>_ k.
     sbind (on_ptable (set_thread_arg0 2 SHELL_UART_VA) k) (\<lambda>_ k.
     sbind (on_ptable (set_thread_arg0 3 SHELL_UART_VA) k) (\<lambda>_ k.
     sbind (on_ptable (set_thread_args 4 SHELL_UART_VA disk_va disk_size) k) (\<lambda>_ k.
     sbind (unwrap_result (process_of k shell, k)) (\<lambda>pr k.
     load_current frame (activate_process pr k))))))))))"

text \<open>From the globals to the first instruction of the shell.\<close>

definition boot ::
  "'b bitvec \<Rightarrow> (nat \<Rightarrow> u32) \<Rightarrow> boot_images \<Rightarrow> disk \<Rightarrow> thread_context \<Rightarrow> 'b vm \<Rightarrow> memory_mapping \<Rightarrow>
    thread_context kresult \<times> 'b kernel" where
  "boot B random ims disk frame v mp =
    sbind (init_pid1 (kernel_init v mp)) (\<lambda>_ k. launch_first_process B random ims disk frame k)"

end
