(* ===== verification/Kernel_Threads.thy ===== *)
theory Kernel_Threads
  imports Kernel_State
begin

text \<open>
  The reasoning rules for kernel invariants: \<open>holds I m\<close> says that the call \<open>m\<close> panics or ends
  in a state with \<open>I\<close>, and \<open>proc_step\<close> collects what a method of a process may do to the process
  and to the scheduler.  The invariant \<open>threads_inv\<close> ties the thread states of all processes to
  the ready queues of the scheduler.
\<close>

section \<open>Calls that keep an invariant\<close>

named_theorems keeps \<open>calls that keep an invariant\<close>

definition holds :: "('s \<Rightarrow> bool) \<Rightarrow> ('e, 'a) outcome \<times> 's \<Rightarrow> bool" where
  "holds I m \<longleftrightarrow> fst m = Panic \<or> I (snd m)"

lemma holds_ret [keeps]: "I s \<Longrightarrow> holds I (r, s)"
  by (simp add: holds_def)

lemma holds_Panic [simp, keeps]: "holds I (Panic, s)"
  by (simp add: holds_def)

lemma holds_Ok [simp]: "holds I (Ok a, s) = I s" "holds I (Err e, s) = I s"
  by (simp_all add: holds_def)

lemma holds_sbind [keeps]:
  "holds I m \<Longrightarrow> (\<And>a s. I s \<Longrightarrow> holds I (f a s)) \<Longrightarrow> holds I (sbind m f)"
  by (cases m; cases "fst m") auto

lemma holds_sbind_value [keeps]:
  "I s \<Longrightarrow> (\<And>a. r = Ok a \<Longrightarrow> holds I (f a s)) \<Longrightarrow> holds I (sbind (r, s) f)"
  by (cases r) auto

lemma holds_sbind_mid:
  "holds J m \<Longrightarrow> (\<And>a s. J s \<Longrightarrow> holds I (f a s)) \<Longrightarrow> (\<And>s. J s \<Longrightarrow> I s) \<Longrightarrow> holds I (sbind m f)"
  by (cases m; cases "fst m") auto

lemma holds_unwrap [keeps]: "holds I m \<Longrightarrow> holds I (unwrap_result m)"
  by (cases m; cases "fst m") (auto simp: unwrap_result_def)

lemma holds_drop [keeps]: "holds I m \<Longrightarrow> holds I (drop_error m)"
  by (cases m; cases "fst m") (auto simp: drop_error_def)

lemma holds_if [keeps]: "(c \<Longrightarrow> holds I a) \<Longrightarrow> (\<not> c \<Longrightarrow> holds I b) \<Longrightarrow> holds I (if c then a else b)"
  by simp

lemma holds_option [keeps]:
  "(x = None \<Longrightarrow> holds I a) \<Longrightarrow> (\<And>y. x = Some y \<Longrightarrow> holds I (b y)) \<Longrightarrow>
    holds I (case x of None \<Rightarrow> a | Some y \<Rightarrow> b y)"
  by (cases x) auto

lemma holds_outcome [keeps]:
  "(\<And>y. r = Ok y \<Longrightarrow> holds I (a y)) \<Longrightarrow> (\<And>e. r = Err e \<Longrightarrow> holds I (b e)) \<Longrightarrow> (r = Panic \<Longrightarrow> holds I c) \<Longrightarrow>
    holds I (case r of Ok y \<Rightarrow> a y | Err e \<Rightarrow> b e | Panic \<Rightarrow> c)"
  by (cases r) auto

lemma holds_prod: "(\<And>x y. p = (x, y) \<Longrightarrow> holds I (f x y)) \<Longrightarrow> holds I (case p of (x, y) \<Rightarrow> f x y)"
  by (cases p) auto

lemma holds_case [keeps]:
  "holds I m \<Longrightarrow> (\<And>a s. I s \<Longrightarrow> holds I (f a s)) \<Longrightarrow> (\<And>e s. I s \<Longrightarrow> holds I (g e s)) \<Longrightarrow>
    (\<And>s. holds I (h s)) \<Longrightarrow> holds I (case m of (Ok a, s) \<Rightarrow> f a s | (Err e, s) \<Rightarrow> g e s | (Panic, s) \<Rightarrow> h s)"
  by (cases m; cases "fst m") auto

lemma holds_panic_case [keeps]:
  "holds I m \<Longrightarrow> (\<And>r s. I s \<Longrightarrow> holds I (f r s)) \<Longrightarrow>
    holds I (case m of (r, s) \<Rightarrow> if r = Panic then (Panic, s) else f r s)"
  by (cases m) (auto simp: holds_def)

lemma holdsD: "holds I m \<Longrightarrow> m = (r, s) \<Longrightarrow> r \<noteq> Panic \<Longrightarrow> I s"
  by (simp add: holds_def)

lemma holds_mono: "holds I m \<Longrightarrow> (\<And>s. I s \<Longrightarrow> J s) \<Longrightarrow> holds J m"
  by (auto simp: holds_def)

section \<open>Steps of a process\<close>

definition process_wf :: "process \<Rightarrow> bool" where
  "process_wf pr \<longleftrightarrow> length (p_threads pr) = MAX_THREAD_COUNT \<and> length (p_priorities pr) = MAX_THREAD_COUNT \<and>
    length (p_kernel_futures pr) = MAX_THREAD_COUNT \<and> length (p_result_mailbox pr) = MAX_THREAD_COUNT \<and>
    length (p_event_handlers pr) = NUM_SYSTEM_EVENTS \<and> length (p_connections pr) = MAX_CONNECTIONS \<and>
    length (p_memory_permissions pr) = MEMORY_PERMISSION_COUNT"

text \<open>Updates that leave the identity, the rights and the states and priorities of the threads alone.\<close>

definition same_threads :: "process \<Rightarrow> process \<Rightarrow> bool" where
  "same_threads pr pr' \<longleftrightarrow> p_pid pr' = p_pid pr \<and> p_threads pr' = p_threads pr \<and> p_priorities pr' = p_priorities pr \<and>
    p_syscall_permissions pr' = p_syscall_permissions pr \<and> (process_wf pr \<longrightarrow> process_wf pr')"

inductive proc_step :: "proc_sched \<Rightarrow> proc_sched \<Rightarrow> bool" where
  step_fields: "same_threads pr pr' \<Longrightarrow> proc_step (pr, s) (pr', s)"
| step_state: "set_thread_state tid st ps = (Ok (), ps') \<Longrightarrow> proc_step ps ps'"
| step_priority: "set_thread_priority tid prio ps = (Ok (), ps') \<Longrightarrow> proc_step ps ps'"
| step_trans: "proc_step a b \<Longrightarrow> proc_step b c \<Longrightarrow> proc_step a c"

lemma same_threads_refl [simp]: "same_threads pr pr"
  by (simp add: same_threads_def)

lemma same_threads_simps [simp]:
  "same_threads pr (set_mailbox tid r pr)" "same_threads pr (set_kernel_future tid f pr)"
  "same_threads pr (snd (take_kernel_future tid pr))" "same_threads pr (snd (take_mailbox tid pr))"
  "same_threads pr (pr\<lparr>p_notification_bits := w\<rparr>)" "same_threads pr (pr\<lparr>p_allocation_hint := w\<rparr>)"
  "same_threads pr (pr\<lparr>p_next_mirror_address := w\<rparr>)" "same_threads pr (pr\<lparr>p_ppid := x\<rparr>)"
  "same_threads pr (pr\<lparr>p_connections := (p_connections pr)[i := c]\<rparr>)"
  "same_threads pr (snd (take_notification_bits pr))" "same_threads pr (snd (take_notification_bits_masked w pr))"
  "same_threads pr (snd (tombstone_connection_by_sidx sidx pr))"
  "same_threads pr (snd (set_event_handler ev sd mid pr))"
  by (auto simp: same_threads_def process_wf_def set_mailbox_def set_kernel_future_def take_kernel_future_def
      take_mailbox_def take_notification_bits_def take_notification_bits_masked_def
      tombstone_connection_by_sidx_def set_event_handler_def Let_def split: option.split connection_slot.split)

lemma same_threads_trans: "same_threads a b \<Longrightarrow> same_threads b c \<Longrightarrow> same_threads a c"
  by (simp add: same_threads_def)

lemma proc_step_refl [simp]: "proc_step ps ps"
  using step_fields [of "fst ps" "fst ps" "snd ps"] by simp

lemma sched_ops_no_error: "ready_thread s th prio \<noteq> Err e" "park_thread s th prio \<noteq> Err e" "yield_thread s th prio \<noteq> Err e"
  by (auto simp: ready_thread_def park_thread_def yield_thread_def link_set_def link_copy_def link_update_def Let_def
      unwrap_def obind_def split: option.splits outcome.splits if_splits)

definition no_error :: "('e, 'a) outcome \<times> 's \<Rightarrow> bool" where
  "no_error m \<longleftrightarrow> (\<forall>e. fst m \<noteq> Err e)"

lemma no_error_intros:
  "no_error (Ok a, s)" "no_error (Panic, s)"
  "(\<And>s e. f s \<noteq> Err e) \<Longrightarrow> no_error (sched_call f ps)"
  "no_error m \<Longrightarrow> (\<And>a s. no_error (g a s)) \<Longrightarrow> no_error (sbind m g)"
  "no_error (thread_priority_of pr tid, ps)" "no_error (thread_state_of pr tid, ps)"
  by (auto simp: no_error_def sched_call_def sbind_def thread_priority_of_def thread_state_of_def
      split: outcome.splits prod.splits)

lemma set_thread_no_error: "no_error (set_thread_state tid st ps)" "no_error (set_thread_priority tid prio ps)"
  by (auto simp: set_thread_state_def set_thread_priority_def intro!: no_error_intros sched_ops_no_error)

lemma holds_set_thread [keeps]:
  assumes "proc_step ps0 ps"
  shows "holds (proc_step ps0) (set_thread_state tid st ps)" "holds (proc_step ps0) (set_thread_priority tid prio ps)"
proof -
  have "holds (proc_step ps0) (f ps)"
    if "no_error (f ps)" "\<And>ps'. f ps = (Ok (), ps') \<Longrightarrow> proc_step ps ps'"
    for f :: "proc_sched \<Rightarrow> unit kresult \<times> proc_sched"
    using that assms by (cases "f ps"; cases "fst (f ps)") (auto simp: no_error_def intro: step_trans)
  then show "holds (proc_step ps0) (set_thread_state tid st ps)" "holds (proc_step ps0) (set_thread_priority tid prio ps)"
    using set_thread_no_error step_state step_priority by blast+
qed

lemma step_update [keeps]: "proc_step ps0 ps \<Longrightarrow> same_threads (fst ps) pr' \<Longrightarrow> proc_step ps0 (pr', snd ps)"
  using step_fields [of "fst ps" pr' "snd ps"] step_trans by fastforce

lemma holds_post_loop [keeps]: "proc_step ps0 ps \<Longrightarrow> holds (proc_step ps0) (post_loop tids ps)"
  by (induction tids ps rule: post_loop.induct)
    (auto simp: Let_def split: outcome.split thread_state.split intro!: keeps)

lemma holds_wake_loop [keeps]: "proc_step ps0 ps \<Longrightarrow> holds (proc_step ps0) (wake_loop st n tids ps)"
  by (induction st n tids ps rule: wake_loop.induct) (auto simp: Let_def split: outcome.split intro!: keeps)

lemma holds_process_methods [keeps]:
  assumes "proc_step ps0 ps"
  shows "holds (proc_step ps0) (post_notification_bits bits ps)" "holds (proc_step ps0) (wake_process_threads st n ps)"
  using assms by (auto simp: post_notification_bits_def wake_process_threads_def intro!: keeps)

section \<open>The processes of a kernel\<close>

definition proc_at :: "'b kernel \<Rightarrow> pid \<Rightarrow> process option" where
  "proc_at k p = (if pid_index p < length (processes k) then processes k ! pid_index p else None)"

lemma pid_index_inject: "pid_index p = pid_index q \<longleftrightarrow> p = q"
proof -
  have "unat (nz_get p) \<noteq> 0" "unat (nz_get q) \<noteq> 0" by (metis nz_get_nonzero unat_eq_zero)+
  then show ?thesis unfolding pid_index_def by (metis One_nat_def Suc_pred nz_get_inject word_unat_eq_iff bot_nat_0.not_eq_extremum)
qed

lemma process_of_iff: "process_of k p = Ok pr \<longleftrightarrow> proc_at k p = Some pr"
  by (auto simp: proc_at_def process_of_def ok_or_def split: option.split)

lemma current_process_iff: "current_process k = Ok pr \<longleftrightarrow> proc_at k (cur_pid k) = Some pr"
  by (auto simp: current_process_def process_of_iff [symmetric] split: outcome.split)

lemma proc_at_put [simp]:
  "proc_at k p \<noteq> None \<Longrightarrow> proc_at (put_process p pr k) q = (if q = p then Some pr else proc_at k q)"
  by (auto simp: proc_at_def put_process_def pid_index_inject nth_list_update split: if_splits)

lemma proc_at_update [simp]:
  "proc_at (k\<lparr>sched := s\<rparr>) p = proc_at k p" "proc_at (k\<lparr>ptable := t\<rparr>) p = proc_at k p"
  "proc_at (k\<lparr>servers := v\<rparr>) p = proc_at k p" "proc_at (k\<lparr>kvm := w\<rparr>) p = proc_at k p"
  "proc_at (k\<lparr>cur_pid := c\<rparr>) p = proc_at k p" "proc_at (k\<lparr>cur_map := m\<rparr>) p = proc_at k p"
  "proc_at (k\<lparr>irqs := i\<rparr>) p = proc_at k p" "proc_at (k\<lparr>display := d\<rparr>) p = proc_at k p"
  "proc_at (k\<lparr>panic_message := bs\<rparr>) p = proc_at k p" "proc_at (k\<lparr>panic_message_pid := x\<rparr>) p = proc_at k p"
  by (simp_all add: proc_at_def)

text \<open>The table entry at an index is the process with that index.\<close>

definition pid_at :: "nat \<Rightarrow> pid" where
  "pid_at i = nz_lit (of_nat (Suc i))"

lemma pid_index_at: "i < MAX_PROCESS_COUNT \<Longrightarrow> pid_index (pid_at i) = i"
proof -
  assume "i < MAX_PROCESS_COUNT"
  then have i: "Suc i < 2 ^ 8" by (simp add: MAX_PROCESS_COUNT_def)
  then have u: "unat (of_nat (Suc i) :: u8) = Suc i" by (simp add: unat_of_nat del: of_nat_Suc)
  then have "(of_nat (Suc i) :: u8) \<noteq> 0" by (metis Zero_not_Suc unsigned_0)
  then show ?thesis using u by (simp add: pid_index_def pid_at_def del: of_nat_Suc)
qed

lemma processes_update:
  assumes "length (processes k) = MAX_PROCESS_COUNT" "i < MAX_PROCESS_COUNT"
  shows "processes k ! i = proc_at k (pid_at i)"
    and "k\<lparr>processes := (processes k)[i := Some pr], sched := s\<rparr> = (put_process (pid_at i) pr k)\<lparr>sched := s\<rparr>"
  using assms by (simp_all add: proc_at_def put_process_def pid_index_at)

section \<open>Thread states and the ready queues\<close>

definition runnable :: "process \<Rightarrow> nat \<Rightarrow> nat \<Rightarrow> bool" where
  "runnable pr tid q \<longleftrightarrow> 1 \<le> tid \<and> tid < MAX_THREAD_COUNT \<and> p_threads pr ! tid = TReady \<and>
    priority_index (p_priorities pr ! tid) = q"

text \<open>
  The process in slot \<open>i\<close> has pid \<open>i + 1\<close>, and the ready queue of each priority holds
  exactly the threads of that priority whose state is \<open>Ready\<close>.
\<close>

definition threads_inv :: "'b kernel \<Rightarrow> bool" where
  "threads_inv k \<longleftrightarrow> length (processes k) = MAX_PROCESS_COUNT \<and>
    (\<forall>p pr. proc_at k p = Some pr \<longrightarrow> p_pid pr = p \<and> process_wf pr) \<and>
    sched_inv (sched k) \<and>
    (\<forall>p tid q. q < NUM_PRIORITIES \<longrightarrow>
      (p, tid) \<in> set (ready_list (sched k) q) \<longleftrightarrow> (\<exists>pr. proc_at k p = Some pr \<and> runnable pr tid q))"

lemma threads_inv_other [simp]:
  "threads_inv (k\<lparr>ptable := t\<rparr>) = threads_inv k" "threads_inv (k\<lparr>servers := v\<rparr>) = threads_inv k"
  "threads_inv (k\<lparr>kvm := w\<rparr>) = threads_inv k" "threads_inv (k\<lparr>cur_pid := c\<rparr>) = threads_inv k"
  "threads_inv (k\<lparr>cur_map := m\<rparr>) = threads_inv k" "threads_inv (k\<lparr>irqs := i\<rparr>) = threads_inv k"
  "threads_inv (k\<lparr>display := d\<rparr>) = threads_inv k" "threads_inv (k\<lparr>panic_message := bs\<rparr>) = threads_inv k"
  "threads_inv (k\<lparr>panic_message_pid := x\<rparr>) = threads_inv k"
  by (simp_all add: threads_inv_def)

lemma threads_invD:
  assumes "threads_inv k"
  shows "length (processes k) = MAX_PROCESS_COUNT" "sched_rel (sched k) (ready_list (sched k))"
    "proc_at k p = Some pr \<Longrightarrow> p_pid pr = p" "proc_at k p = Some pr \<Longrightarrow> process_wf pr"
    "q < NUM_PRIORITIES \<Longrightarrow> (p, tid) \<in> set (ready_list (sched k) q) \<longleftrightarrow> (\<exists>pr. proc_at k p = Some pr \<and> runnable pr tid q)"
  using assms by (simp_all add: threads_inv_def sched_inv_def)

lemma threads_inv_update:
  assumes inv: "threads_inv k" and pr: "proc_at k p = Some pr" and wf: "p_pid pr' = p" "process_wf pr'" and s': "sched_inv s'"
    and mem: "\<And>r t q. q < NUM_PRIORITIES \<Longrightarrow>
      (r, t) \<in> set (ready_list s' q) \<longleftrightarrow> (if r = p then runnable pr' t q else (r, t) \<in> set (ready_list (sched k) q))"
  shows "threads_inv ((put_process p pr' k)\<lparr>sched := s'\<rparr>)"
proof -
  have at: "proc_at ((put_process p pr' k)\<lparr>sched := s'\<rparr>) r = (if r = p then Some pr' else proc_at k r)" for r
    using pr by simp
  have "length (processes ((put_process p pr' k)\<lparr>sched := s'\<rparr>)) = MAX_PROCESS_COUNT"
    using threads_invD(1) [OF inv] by (simp add: put_process_def)
  then show ?thesis
    using wf s' mem threads_invD(3-5) [OF inv] unfolding threads_inv_def at by auto
qed

lemma ready_list_flag [simp]: "ready_list (s\<lparr>in_irq_handler := b\<rparr>) = ready_list s"
  by (rule ext) (simp add: ready_list_def split: option.split)

lemma sched_inv_flag [simp]: "sched_inv (s\<lparr>in_irq_handler := b\<rparr>) = sched_inv s"
  by (simp add: sched_inv_def sched_rel_def)

lemma runnable_link_ok: "threads_inv k \<Longrightarrow> proc_at k p = Some pr \<Longrightarrow> 1 \<le> tid \<Longrightarrow> tid < MAX_THREAD_COUNT \<Longrightarrow> link_index_ok (p, tid)"
  by (auto simp: threads_inv_def proc_at_def link_index_ok_def pid_index_def split: if_splits)

lemma set_state_inv:
  assumes inv: "threads_inv k" and pr: "proc_at k p = Some pr"
    and step: "set_thread_state tid st (pr, sched k) = (Ok (), (pr', s'))"
  shows "threads_inv ((put_process p pr' k)\<lparr>sched := s'\<rparr>)"
proof -
  note D = threads_invD [OF inv]
  let ?Q = "ready_list (sched k)" and ?prio = "p_priorities pr ! tid" and ?th = "(p, tid)"
  have wf: "p_pid pr = p" "process_wf pr" using D(3,4) pr by auto
  have tid: "tid < MAX_THREAD_COUNT" using step wf(2)
    by (auto simp: set_thread_state_def thread_priority_of_def process_wf_def split: if_splits)
  then have len: "tid < length (p_threads pr)" "tid < length (p_priorities pr)" using wf(2) by (simp_all add: process_wf_def)
  let ?old = "p_threads pr ! tid"
  have pr': "pr' = pr\<lparr>p_threads := (p_threads pr)[tid := st]\<rparr>" and
    call: "s' = sched k \<and> (?old = TReady \<longleftrightarrow> st = TReady) \<or>
      ?old = TReady \<and> st \<noteq> TReady \<and> park_thread (sched k) ?th ?prio = Ok s' \<or>
      ?old \<noteq> TReady \<and> st = TReady \<and> ready_thread (sched k) ?th ?prio = Ok s'"
    using step len wf(1) unfolding set_thread_state_def thread_priority_of_def thread_state_of_def sched_call_def
    by (auto split: if_splits outcome.splits)
  have wf': "p_pid pr' = p" "process_wf pr'" using wf by (simp_all add: pr' process_wf_def)
  have run': "runnable pr' t q \<longleftrightarrow> (if t = tid then 1 \<le> tid \<and> st = TReady \<and> priority_index ?prio = q else runnable pr t q)" for t q
    using len tid by (auto simp: runnable_def pr')
  have Q: "(p, t) \<in> set (?Q q) \<longleftrightarrow> runnable pr t q" if "q < NUM_PRIORITIES" for t q
    using D(5) [OF that] pr by auto
  show ?thesis
  proof (cases "tid = 0")
    case True
    then have "ready_list s' = ?Q" "sched_inv s'"
      using call inv by (auto simp: park_thread_def ready_thread_def IRQ_TID_def threads_inv_def split: if_splits)
    moreover have "runnable pr' t q = runnable pr t q" for t q using run' [of t q] True by (simp add: runnable_def)
    ultimately show ?thesis using threads_inv_update [OF inv pr wf', of s'] Q by simp
  next
    case False
    have ok: "link_index_ok ?th" using runnable_link_ok [OF inv pr] False tid by simp
    define X where "X = (if ?old = TReady \<and> st \<noteq> TReady then [ParkOp ?th ?prio]
      else if ?old \<noteq> TReady \<and> st = TReady then [ReadyOp ?th ?prio] else [])"
    have inQ: "?th \<in> set (?Q q) \<longleftrightarrow> ?old = TReady \<and> priority_index ?prio = q" if "q < NUM_PRIORITIES" for q
      using Q [OF that, of tid] False tid by (simp add: runnable_def)
    have "ops_legal ?Q X" using inQ ok by (auto simp: X_def list_all_iff)
    then have rel: "sched_rel s' (foldl lists_apply ?Q X)"
      using sched_run_rel [OF D(2), of X] call by (auto simp: X_def split: if_splits)
    have dist: "distinct (?Q (priority_index ?prio))" using sched_relD(3) [OF D(2), of "priority_index ?prio"] by simp
    have "(r, t) \<in> set (ready_list s' q) \<longleftrightarrow> (if r = p then runnable pr' t q else (r, t) \<in> set (?Q q))"
      if "q < NUM_PRIORITIES" for r t q
      using ready_list_rel [OF rel that] Q [OF that, of t] inQ [OF that] dist run' [of t q] False
      by (auto simp: X_def set_remove1_eq split: if_splits)
    then show ?thesis using threads_inv_update [OF inv pr wf' sched_rel_inv [OF rel]] by blast
  qed
qed

lemma set_priority_inv:
  assumes inv: "threads_inv k" and pr: "proc_at k p = Some pr"
    and step: "set_thread_priority tid prio (pr, sched k) = (Ok (), (pr', s'))"
  shows "threads_inv ((put_process p pr' k)\<lparr>sched := s'\<rparr>)"
proof -
  note D = threads_invD [OF inv]
  let ?Q = "ready_list (sched k)" and ?old = "p_priorities pr ! tid" and ?th = "(p, tid)"
  have wf: "p_pid pr = p" "process_wf pr" using D(3,4) pr by auto
  have tid: "tid < MAX_THREAD_COUNT" using step wf(2)
    by (auto simp: set_thread_priority_def thread_priority_of_def process_wf_def split: if_splits)
  then have len: "tid < length (p_threads pr)" "tid < length (p_priorities pr)" using wf(2) by (simp_all add: process_wf_def)
  let ?ready = "p_threads pr ! tid = TReady"
  have pr': "pr' = pr\<lparr>p_priorities := (p_priorities pr)[tid := prio]\<rparr>" and
    call: "s' = sched k \<and> (?old = prio \<or> \<not> ?ready) \<or>
      ?old \<noteq> prio \<and> ?ready \<and> (\<exists>s1. park_thread (sched k) ?th ?old = Ok s1 \<and> ready_thread s1 ?th prio = Ok s')"
    using step len wf(1) unfolding set_thread_priority_def thread_priority_of_def thread_state_of_def sched_call_def
    by (auto split: if_splits outcome.splits)
  have wf': "p_pid pr' = p" "process_wf pr'" using wf by (simp_all add: pr' process_wf_def)
  have run': "runnable pr' t q \<longleftrightarrow> (if t = tid then 1 \<le> tid \<and> ?ready \<and> priority_index prio = q else runnable pr t q)" for t q
    using len tid by (auto simp: runnable_def pr')
  have Q: "(p, t) \<in> set (?Q q) \<longleftrightarrow> runnable pr t q" if "q < NUM_PRIORITIES" for t q
    using D(5) [OF that] pr by auto
  show ?thesis
  proof (cases "tid = 0 \<or> ?old = prio \<or> \<not> ?ready")
    case True
    then have "ready_list s' = ?Q" "sched_inv s'"
      using call inv by (auto simp: park_thread_def ready_thread_def IRQ_TID_def threads_inv_def split: if_splits)
    moreover have "runnable pr' t q = runnable pr t q" for t q using run' [of t q] True tid by (auto simp: runnable_def)
    ultimately show ?thesis using threads_inv_update [OF inv pr wf', of s'] Q by simp
  next
    case False
    have ok: "link_index_ok ?th" using runnable_link_ok [OF inv pr] False tid by simp
    have inQ: "?th \<in> set (?Q q) \<longleftrightarrow> priority_index ?old = q" if "q < NUM_PRIORITIES" for q
      using Q [OF that, of tid] False tid by (simp add: runnable_def)
    have dist: "distinct (?Q (priority_index ?old))" using sched_relD(3) [OF D(2), of "priority_index ?old"] by simp
    let ?X = "[ParkOp ?th ?old, ReadyOp ?th prio]"
    have "ops_legal ?Q ?X" using inQ ok dist by (auto simp: list_all_iff set_remove1_eq)
    then have rel: "sched_rel s' (foldl lists_apply ?Q ?X)"
      using sched_run_rel [OF D(2), of ?X] call False by (auto split: if_splits)
    have "(r, t) \<in> set (ready_list s' q) \<longleftrightarrow> (if r = p then runnable pr' t q else (r, t) \<in> set (?Q q))"
      if "q < NUM_PRIORITIES" for r t q
      using ready_list_rel [OF rel that] Q [OF that, of t] inQ [OF that] dist run' [of t q] False
      by (auto simp: set_remove1_eq split: if_splits)
    then show ?thesis using threads_inv_update [OF inv pr wf' sched_rel_inv [OF rel]] by blast
  qed
qed

text \<open>Every step of a process in the table keeps the invariant.\<close>

lemma proc_step_inv:
  assumes "proc_step a b" "threads_inv k" "proc_at k p = Some (fst a)" "sched k = snd a"
  shows "threads_inv ((put_process p (fst b) k)\<lparr>sched := snd b\<rparr>)"
  using assms
proof (induction arbitrary: k rule: proc_step.induct)
  case (step_fields pr pr' s)
  note inv = step_fields(2)
  have at: "proc_at k p = Some pr" and s: "sched k = s" using step_fields(3,4) by simp_all
  have same: "runnable pr' = runnable pr" "p_pid pr' = p" "process_wf pr'"
    using threads_invD(3,4) [OF inv at] step_fields(1) by (auto simp: runnable_def same_threads_def fun_eq_iff)
  have "threads_inv ((put_process p pr' k)\<lparr>sched := sched k\<rparr>)"
    using inv at same(2,3)
  proof (rule threads_inv_update)
    show "sched_inv (sched k)" using inv by (simp add: threads_inv_def)
    show "(r, t) \<in> set (ready_list (sched k) q) \<longleftrightarrow>
        (if r = p then runnable pr' t q else (r, t) \<in> set (ready_list (sched k) q))" if "q < NUM_PRIORITIES" for r t q
      using threads_invD(5) [OF inv that, of r t] at same(1) by simp
  qed
  then show ?case using s by simp
next
  case (step_state tid st ps ps')
  then show ?case using set_state_inv [of k p "fst ps" tid st "fst ps'" "snd ps'"] by simp
next
  case (step_priority tid prio ps ps')
  then show ?case using set_priority_inv [of k p "fst ps" tid prio "fst ps'" "snd ps'"] by simp
next
  case (step_trans a b c)
  let ?k = "(put_process p (fst b) k)\<lparr>sched := snd b\<rparr>"
  have "threads_inv ?k" using step_trans.IH(1) step_trans.prems by blast
  moreover have "proc_at ?k p = Some (fst b)" using step_trans.prems(2) by simp
  ultimately have "threads_inv ((put_process p (fst c) ?k)\<lparr>sched := snd c\<rparr>)"
    using step_trans.IH(2) [of ?k] by simp
  moreover have "(put_process p (fst c) ?k)\<lparr>sched := snd c\<rparr> = (put_process p (fst c) k)\<lparr>sched := snd c\<rparr>"
    by (simp add: put_process_def)
  ultimately show ?case by simp
qed

lemma yield_inv:
  assumes inv: "threads_inv k" and s': "yield_thread (sched k) th prio = Ok s'"
  shows "threads_inv (k\<lparr>sched := s'\<rparr>)"
proof -
  note D = threads_invD [OF inv]
  have rel: "sched_rel s' (lists_apply (ready_list (sched k)) (YieldOp th prio))"
    using sched_apply_rel [OF D(2), of "YieldOp th prio"] s' by auto
  have "set (ready_list s' q) = set (ready_list (sched k) q)" if "q < NUM_PRIORITIES" for q
    using ready_list_rel [OF rel that] by auto
  then show ?thesis using inv sched_rel_inv [OF rel] by (simp add: threads_inv_def)
qed

end
