(* ===== verification/Kernel_Invariants.thy ===== *)
theory Kernel_Invariants
  imports Boot Kernel_Threads
begin

text \<open>
  The contract of an invariant of the kernel state: the locale \<open>kernel_invariant\<close> asks that
  a predicate is kept by the elementary updates the kernel makes, and derives that every
  operation keeps it, up to the system call handler and the exception entries.  The
  consistency of the ready queues, the shapes of the tables and the rights of processes
  are its interpretations.
\<close>

section \<open>Saved contexts\<close>

definition impl_wf :: "process_impl \<Rightarrow> bool" where
  "impl_wf pr \<longleftrightarrow> length (threads pr) = MAX_THREAD_COUNT \<and> (\<forall>n < MAX_THREAD_COUNT. length (gpr (threads pr ! n)) = 31)"

definition table_wf :: "process_table \<Rightarrow> bool" where
  "table_wf tab \<longleftrightarrow> length tab = MAX_PROCESS_COUNT \<and> (\<forall>i pr. i < MAX_PROCESS_COUNT \<longrightarrow> tab ! i = Some pr \<longrightarrow> impl_wf pr)"

lemma table_wf_put: "table_wf tab \<Longrightarrow> (\<And>pr. x = Some pr \<Longrightarrow> impl_wf pr) \<Longrightarrow> table_wf (tab[i := x])"
  by (cases "i < length tab") (auto simp: table_wf_def nth_list_update list_update_beyond split: if_splits)

lemma table_wfD: "table_wf tab \<Longrightarrow> i < length tab \<Longrightarrow> tab ! i = Some pr \<Longrightarrow> impl_wf pr"
  by (simp add: table_wf_def)

lemma impl_wf_update:
  "impl_wf pr \<Longrightarrow> (n < MAX_THREAD_COUNT \<Longrightarrow> length (gpr (f (threads pr ! n))) = 31) \<Longrightarrow> impl_wf (update_thread n f pr)"
  by (cases "n < length (threads pr)")
    (auto simp: impl_wf_def update_thread_def nth_list_update list_update_beyond split: if_splits)

lemma impl_wf_gpr: "impl_wf pr \<Longrightarrow> n < MAX_THREAD_COUNT \<Longrightarrow> length (gpr (threads pr ! n)) = 31"
  by (simp add: impl_wf_def)

lemma length_set_args [simp]: "length (gpr (set_args args t)) = length (gpr t)"
  by (simp add: set_args_def arg_registers_def)

lemma default_wf [simp]: "length (gpr thread_default) = 31" "impl_wf process_impl_new"
  by (simp_all add: thread_default_def impl_wf_def process_impl_new_def)

lemma impl_wf_current [simp]: "impl_wf (pr\<lparr>current_thread := t\<rparr>) = impl_wf pr"
  by (simp add: impl_wf_def)

lemmas table_defs = table_slot_def table_put_def set_pc_def set_sp_def

lemma table_result [keeps]: "table_wf tab \<Longrightarrow> holds table_wf (arch_set_thread_result p tid r tab)"
  by (auto simp: arch_set_thread_result_def table_defs impl_wf_gpr split: option.split
      intro!: table_wf_put impl_wf_update dest: table_wfD)

lemma table_ops [keeps]:
  assumes "table_wf tab"
  shows "holds table_wf (retry_swi_instruction p tid tab)"
    "holds table_wf (setup_thread p tid init tab)" "holds table_wf (set_tid p tid tab)"
    "holds table_wf (destroy_thread p tid tab)" "holds table_wf (arch_destroy p tab)"
    "holds table_wf (setup_process setup tab)" "holds table_wf (new_table_entry p tab)"
    "holds table_wf (set_thread_args i x0 x1 x2 tab)" "holds table_wf (set_thread_arg0 i x0 tab)" "holds table_wf (run_irq_handler p pc irq arg tab)"
  using assms
  by (auto simp: retry_swi_instruction_def setup_thread_def set_tid_def destroy_thread_def arch_destroy_def setup_process_def
      new_table_entry_def set_thread_args_def set_thread_arg0_def run_irq_handler_def table_defs impl_wf_gpr Let_def checked_add_def unwrap_def not_le
      split: option.split option.split_asm
      intro!: keeps table_wf_put impl_wf_update dest: table_wfD)

lemma table_save [keeps]:
  "table_wf tab \<Longrightarrow> length (gpr frame) = 31 \<Longrightarrow> holds table_wf (save_context_to_table p tid frame tab)"
  by (auto simp: save_context_to_table_def copy_frame_def table_defs split: option.split
      intro!: keeps table_wf_put impl_wf_update dest: table_wfD)

section \<open>Processes and the display\<close>

lemma same_takeD:
  "take_kernel_future tid pr = (f, pr') \<Longrightarrow> same_threads pr pr'" "take_mailbox tid pr = (m, pr') \<Longrightarrow> same_threads pr pr'"
  by (metis same_threads_simps(3) snd_conv) (metis same_threads_simps(4) snd_conv)

lemma display_inv_fields [simp]:
  "display_inv (d\<lparr>owner := x\<rparr>) = display_inv d" "display_inv (d\<lparr>cursor_row := r\<rparr>) = display_inv d"
  "display_inv (d\<lparr>cursor_col := c\<rparr>) = display_inv d" "display_inv (set_input_focus sd d) = display_inv d"
  "display_inv (clear_input_focus d) = display_inv d"
  by (simp_all add: display_inv_def set_input_focus_def clear_input_focus_def)

section \<open>Terminating a process\<close>

lemma set_thread_state_threads:
  "set_thread_state tid st ps = (Ok (), ps') \<Longrightarrow> p_threads (fst ps') = (p_threads (fst ps))[tid := st] \<and> tid < length (p_threads (fst ps))"
  by (auto simp: set_thread_state_def sched_call_def thread_priority_of_def thread_state_of_def sbind_def
      split: outcome.splits prod.splits if_splits)

lemma free_threads_step: "proc_step ps0 ps \<Longrightarrow> holds (proc_step ps0) (free_threads tids ps)"
proof (induction tids arbitrary: ps)
  case (Cons tid tids)
  have same: "same_threads pr (pr\<lparr>p_kernel_futures := (p_kernel_futures pr)[tid := None], p_result_mailbox := (p_result_mailbox pr)[tid := None]\<rparr>)" for pr
    by (simp add: same_threads_def process_wf_def)
  show ?case using Cons.prems same by (auto intro!: keeps Cons.IH)
qed simp

lemma free_threads_free:
  assumes "free_threads tids ps = (Ok u, ps')" "\<And>t. t \<in> A \<Longrightarrow> p_threads (fst ps) ! t \<noteq> TReady" "t \<in> A \<union> set tids"
  shows "p_threads (fst ps') ! t \<noteq> TReady"
  using assms
proof (induction tids arbitrary: ps A)
  case (Cons tid tids)
  obtain r ps1 where r: "set_thread_state tid TFree ps = (r, ps1)" by (cases "set_thread_state tid TFree ps")
  have "r = Ok ()" using Cons.prems(1) r by (cases r) auto
  then have th: "p_threads (fst ps1) = (p_threads (fst ps))[tid := TFree]" "tid < length (p_threads (fst ps))"
    using set_thread_state_threads r by auto
  define ps2 where "ps2 = ((fst ps1)\<lparr>p_kernel_futures := (p_kernel_futures (fst ps1))[tid := None],
    p_result_mailbox := (p_result_mailbox (fst ps1))[tid := None]\<rparr>, snd ps1)"
  have "free_threads tids ps2 = (Ok u, ps')"
    using Cons.prems(1) r \<open>r = Ok ()\<close> by (auto simp: ps2_def split: if_splits)
  moreover have "p_threads (fst ps2) ! t' \<noteq> TReady" if "t' \<in> insert tid A" for t'
    using that Cons.prems(2) [of t'] th by (cases "t' = tid") (auto simp: ps2_def)
  ultimately show ?case using Cons.IH [of ps2 "insert tid A"] Cons.prems(3) by simp
qed simp

lemma release_all_at_broadcasts: "low_broadcasts (snd (release_all_at B p m is)) = low_broadcasts m"
  by (induction B p m "is" rule: release_all_at.induct) (auto simp: Let_def add_free_pages_def)

lemma release_all_broadcasts: "low_broadcasts (snd (release_all_memory_for_process B m p)) = low_broadcasts m"
  by (simp add: release_all_memory_for_process_def release_all_at_broadcasts)

lemma pid_from_index:
  assumes "i < MAX_PROCESS_COUNT"
  shows "pid_from_usize (of_nat (i + 1)) = Ok (pid_at i)"
proof -
  have i: "i + 1 \<le> 255" using assms by (simp add: MAX_PROCESS_COUNT_def)
  have u: "unat (of_nat (i + 1) :: usize) = i + 1" by (rule unat_of_nat_usize) (use i in simp)
  have "\<not> (of_nat (i + 1) :: usize) > 255" using i unfolding word_less_nat_alt u by simp
  moreover have "(of_nat (i + 1) :: u8) \<noteq> 0"
    using i by (simp add: word_unat_eq_iff unat_of_nat del: of_nat_Suc of_nat_add)
  moreover have "ucast (of_nat (i + 1) :: usize) = (of_nat (i + 1) :: u8)"
    by (rule word_unat_eq_iff [THEN iffD2]) (use i u in \<open>simp add: unsigned_ucast_eq unat_of_nat take_bit_eq_mod del: of_nat_Suc of_nat_add\<close>)
  ultimately show ?thesis by (simp add: pid_from_usize_def nz_new_def pid_at_def)
qed

section \<open>The contract of an invariant\<close>

text \<open>
  What sending, receiving and mapping memory do: steps of processes in the table and
  arbitrary changes of memory, of the current address space and of the servers in their slots.
\<close>

locale kernel_events =
  fixes I :: "'b kernel \<Rightarrow> bool"
  assumes table_size: "I k \<Longrightarrow> length (processes k) = MAX_PROCESS_COUNT"
    and process_law: "I k \<Longrightarrow> proc_at k p = Some pr \<Longrightarrow> proc_step (pr, sched k) (pr', s) \<Longrightarrow>
      I ((put_process p pr' k)\<lparr>sched := s\<rparr>)"
    and context_law: "I k \<Longrightarrow> (table_wf (ptable k) \<Longrightarrow> table_wf tab) \<Longrightarrow> I (k\<lparr>ptable := tab\<rparr>)"
    and server_law: "I k \<Longrightarrow> length v = length (servers k) \<Longrightarrow> I (k\<lparr>servers := v\<rparr>)"
    and memory_law [keeps]: "I k \<Longrightarrow> I (k\<lparr>kvm := w\<rparr>)"
    and current_law [keeps]: "I k \<Longrightarrow> I (k\<lparr>cur_pid := c\<rparr>)" "I k \<Longrightarrow> I (k\<lparr>cur_map := mp\<rparr>)"
begin

lemma put_same: "I k \<Longrightarrow> proc_at k p = Some pr \<Longrightarrow> same_threads pr pr' \<Longrightarrow> I (put_process p pr' k)"
  using process_law [of k p pr pr' "sched k"] step_fields [of pr pr' "sched k"] by (simp add: put_process_def)

lemma activate_keeps [keeps]: "I k \<Longrightarrow> I (activate_process pr k)" "I k \<Longrightarrow> I (activate_mapping pr k)"
  by (auto simp: activate_process_def activate_mapping_def intro!: keeps)

lemma with_process_keeps [keeps]:
  assumes "I k" "\<And>pr. process_of k p = Ok pr \<Longrightarrow> holds (same_threads pr) (f pr)"
  shows "holds I (with_process p f k)"
proof (cases "process_of k p")
  case (Ok pr)
  then have at: "proc_at k p = Some pr" by (simp add: process_of_iff)
  obtain r pr' where f: "f pr = (r, pr')" by (cases "f pr")
  have "holds (same_threads pr) (r, pr')" using assms(2) [OF Ok] f by simp
  then show ?thesis using Ok f put_same [OF assms(1) at, of pr'] by (auto simp: with_process_def holds_def)
qed (use assms(1) in \<open>auto simp: with_process_def\<close>)

lemma with_proc_sched_keeps [keeps]:
  assumes "I k" "\<And>pr. process_of k p = Ok pr \<Longrightarrow> holds (proc_step (pr, sched k)) (f (pr, sched k))"
  shows "holds I (with_proc_sched p f k)"
proof (cases "process_of k p")
  case (Ok pr)
  then have at: "proc_at k p = Some pr" by (simp add: process_of_iff)
  obtain r pr' s where f: "f (pr, sched k) = (r, (pr', s))" by (cases "f (pr, sched k)") auto
  have "holds (proc_step (pr, sched k)) (r, (pr', s))" using assms(2) [OF Ok] f by simp
  then show ?thesis using Ok f process_law [OF assms(1) at, of pr' s] by (auto simp: with_proc_sched_def holds_def)
qed (use assms(1) in \<open>auto simp: with_proc_sched_def\<close>)

lemma on_ptable_keeps [keeps]:
  "I k \<Longrightarrow> (\<And>tab. table_wf tab \<Longrightarrow> holds table_wf (f tab)) \<Longrightarrow> holds I (on_ptable f k)"
  by (cases "f (ptable k)") (auto simp: on_ptable_def holds_def intro!: context_law dest: meta_spec [of _ "ptable k"])

lemma with_server_keeps [keeps]: "I k \<Longrightarrow> holds I (with_server sidx f k)"
  by (auto simp: with_server_def put_server_def split: outcome.split option.split prod.split intro!: keeps server_law)

text \<open>Results, wake-ups and suspensions.\<close>

lemma set_thread_result_keeps [keeps]: "I k \<Longrightarrow> holds I (set_thread_result p tid r k)"
  by (auto simp: set_thread_result_def Let_def intro!: keeps)

lemma wake_thread_with_result_keeps [keeps]: "I k \<Longrightarrow> holds I (wake_thread_with_result p tid r k)"
  by (auto simp: wake_thread_with_result_def intro!: keeps step_fields)

lemma suspend_with_future_keeps [keeps]: "I k \<Longrightarrow> holds I (suspend_with_future tid f msk k)"
  by (auto simp: suspend_with_future_def intro!: keeps step_fields)

lemma process_slot_keeps:
  assumes "I k" "i < MAX_PROCESS_COUNT" "processes k ! i = Some pr" "proc_step (pr, sched k) (pr', s)"
  shows "I (k\<lparr>processes := (processes k)[i := Some pr'], sched := s\<rparr>)"
  using process_law [OF assms(1), of "pid_at i" pr pr' s] assms
    processes_update(1) [OF table_size [OF assms(1)] assms(2)]
    processes_update(2) [OF table_size [OF assms(1)] assms(2), where pr = pr' and s = s]
  by simp

lemma wake_all_keeps: "I k \<Longrightarrow> set is \<subseteq> {..<MAX_PROCESS_COUNT} \<Longrightarrow> holds I (wake_all st n is k)"
proof (induction "is" arbitrary: k)
  case (Cons i "is")
  show ?case
  proof (cases "processes k ! i")
    case (Some pr)
    obtain r pr' s where w: "wake_process_threads st n (pr, sched k) = (r, (pr', s))"
      by (cases "wake_process_threads st n (pr, sched k)") auto
    have "holds (proc_step (pr, sched k)) (r, (pr', s))"
      using holds_process_methods(2) [OF proc_step_refl, of "(pr, sched k)" st n] w by simp
    then have "r \<noteq> Panic \<Longrightarrow> I (k\<lparr>processes := (processes k)[i := Some pr'], sched := s\<rparr>)"
      using process_slot_keeps [OF Cons.prems(1) _ Some] Cons.prems(2) by (auto simp: holds_def)
    then show ?thesis using Some w Cons by (cases r) auto
  qed (use Cons in auto)
qed simp

lemma wake_threads_with_state_keeps [keeps]: "I k \<Longrightarrow> holds I (wake_threads_with_state st n k)"
  using wake_all_keeps [of k "[0 ..< length (processes k)]"] table_size [of k]
  by (auto simp: wake_threads_with_state_def atLeast0LessThan)

text \<open>Servers and connections.\<close>

lemma add_connection_same [keeps]: "holds (same_threads pr) (add_connection sidx perms pr)"
  by (auto simp: add_connection_def split: option.split connection_slot.split)

lemma disconnect_slot_same [keeps]: "holds (same_threads pr) (disconnect_slot c pr)"
  by (auto simp: disconnect_slot_def Let_def split: connection_slot.split intro!: keeps)

lemma connections_keep [keeps]:
  assumes "I k"
  shows "holds I (connect_to_server p sd k)" "holds I (disconnect_from_server c k)"
    "holds I (queue_server_message sidx p tid msg orig k)" "holds I (remember_server_message sidx p tid msg orig k)"
  using assms by (auto simp: connect_to_server_def disconnect_from_server_def queue_server_message_def
      remember_server_message_def Let_def intro!: keeps split: outcome.split option.split)

section \<open>Delivery and memory\<close>

lemma find_server_keeps [keeps]: "I k \<Longrightarrow> holds I (find_server sidx k)" "I k \<Longrightarrow> holds I (take_server_thread sidx k)"
  by (auto simp: find_server_def take_server_thread_def split: outcome.split option.split intro!: keeps)

lemma ready_server_thread_keeps [keeps]: "I k \<Longrightarrow> holds I (ready_server_thread p tid k)"
  by (auto simp: ready_server_thread_def intro!: keeps step_fields)

lemma notify_process_keeps [keeps]: "I k \<Longrightarrow> holds I (notify_process p bits k)"
  by (auto simp: notify_process_def split: option.split intro!: keeps)

lemma deliver_now_keeps [keeps]: "I k \<Longrightarrow> holds I (deliver_now sidx sp st tid msg client k)"
  unfolding deliver_now_def Let_def by (intro keeps)+ 

lemma deliver_or_queue_keeps [keeps]: "I k \<Longrightarrow> holds I (deliver_or_queue sidx sp tid msg client k)"
  by (auto simp: deliver_or_queue_def split: option.split intro!: keeps)

lemma events_keep [keeps]: "I k \<Longrightarrow> holds I (send_scalar tid sidx msg k)" "I k \<Longrightarrow> holds I (send_event p ev args k)"
  by (auto simp: send_scalar_def send_event_def split: option.split intro!: keeps)

lemma broadcast_each_keeps [keeps]: "I k \<Longrightarrow> holds I (broadcast_each ps ev args k)"
  by (induction ps ev args k rule: broadcast_each.induct) (auto split: outcome.split intro!: keeps)

lemma broadcast_event_keeps [keeps]: "I k \<Longrightarrow> holds I (broadcast_event ev args k)"
  unfolding broadcast_event_def by (rule broadcast_each_keeps)

lemma low_memory_events_keep [keeps]:
  assumes "holds I m"
  shows "holds I (low_memory_events n m)"
proof -
  obtain r k where m: "m = (r, k)" by (cases m)
  obtain r' k' where b: "broadcast_event LowFreeMemory [0, 0, 0, 0] k = (r', k')" by (cases "broadcast_event LowFreeMemory [0, 0, 0, 0] k")
  have "r' \<noteq> Panic \<Longrightarrow> I k \<Longrightarrow> I k'"
    using broadcast_event_keeps [of k LowFreeMemory "[0, 0, 0, 0]"] b by (auto simp: holds_def)
  then show ?thesis using assms m b by (cases r'; cases r) (auto simp: low_memory_events_def)
qed

lemma on_memory_keeps [keeps]: "I k \<Longrightarrow> holds I (on_mm f k)" "I k \<Longrightarrow> holds I (on_vm g k)"
  by (auto simp: on_mm_def on_vm_def split: prod.split intro!: keeps)

lemma claims_keep [keeps]: "I k \<Longrightarrow> holds I (k_claim B a p k)" "I k \<Longrightarrow> holds I (k_release B a p k)"
  by (simp_all add: k_claim_def k_release_def on_memory_keeps)

lemma find_virtual_address_keeps [keeps]: "I k \<Longrightarrow> holds I (find_virtual_address mp v sz k)"
  by (auto simp: find_virtual_address_def current_process_iff Let_def split: option.split intro!: keeps put_same)

lemma release_each_keeps [keeps]: "I k \<Longrightarrow> holds I (release_each B p as k)"
  by (induction "as" arbitrary: k) (auto intro!: keeps)

lemma claim_each_keeps [keeps]: "I k \<Longrightarrow> holds I (claim_each B p phys as k)"
  by (induction "as" arbitrary: k) (auto intro!: keeps)

lemma unmap_each_keeps [keeps]: "I k \<Longrightarrow> holds I (unmap_each mp as k)"
  by (induction "as" arbitrary: k) (auto intro!: keeps)

lemma map_each_keeps [keeps]: "I k \<Longrightarrow> holds I (map_each B mp phys virt sz flags user offs k)"
  by (induction offs arbitrary: k) (auto intro!: keeps)

lemma mirror_each_keeps [keeps]: "I k \<Longrightarrow> holds I (mirror_each B mp phys virt offs k)"
  by (induction offs arbitrary: k) (auto intro!: keeps)

lemma range_memory_keeps [keeps]: "I k \<Longrightarrow> holds I (range_memory B p phys sz flags k)"
  by (auto simp: range_memory_def split: prod.split intro!: keeps)

lemma map_range_keeps [keeps]: "I k \<Longrightarrow> holds I (map_range B phys v sz flags user k)"
  by (auto simp: map_range_def Let_def intro!: keeps)

lemma map_range_readonly_mirror_keeps [keeps]: "I k \<Longrightarrow> holds I (map_range_readonly_mirror B p phys sz k)"
  by (auto simp: map_range_readonly_mirror_def Let_def intro!: keeps)

lemma mm_unmap_page_keeps [keeps]: "I k \<Longrightarrow> holds I (mm_unmap_page B v k)"
  by (auto simp: mm_unmap_page_def Let_def split: outcome.split intro!: keeps)

lemma unmap_pages_keeps [keeps]: "I k \<Longrightarrow> holds I (unmap_pages B as r k)"
  by (induction "as" arbitrary: r k) (auto intro!: keeps)

lemma unmap_range_keeps [keeps]: "I k \<Longrightarrow> holds I (unmap_range B v len k)"
  by (auto simp: unmap_range_def intro!: keeps)

lemma mm_move_page_keeps [keeps]: "I k \<Longrightarrow> holds I (mm_move_page B src sv dest dv k)"
  by (auto simp: mm_move_page_def intro!: keeps)

lemma keep_error_keeps [keeps]: "holds I m \<Longrightarrow> holds I (keep_error m e)"
  by (cases m; cases "fst m") (auto simp: keep_error_def)

lemma ensure_each_keeps [keeps]: "I k \<Longrightarrow> holds I (ensure_each B c src offs k)"
  by (induction offs arbitrary: k) (auto intro!: keeps)

lemma move_each_keeps [keeps]: "I k \<Longrightarrow> holds I (move_each B src sv dest dv offs e k)"
  by (induction offs arbitrary: e k) (auto intro!: keeps)

lemma lend_each_keeps [keeps]: "I k \<Longrightarrow> holds I (lend_each B src sv dest dv mut offs e k)"
  by (induction offs arbitrary: e k) (auto intro!: keeps)

lemma return_each_keeps [keeps]: "I k \<Longrightarrow> holds I (return_each src sv dest dv offs e k)"
  by (induction offs arbitrary: e k) (auto intro!: keeps)

lemma transfers_keep [keeps]:
  assumes "I k"
  shows "holds I (send_memory B sv p dv len k)" "holds I (lend_memory B sv p dv len mut k)" "holds I (return_memory sv p dv len k)"
  using assms by (auto simp: send_memory_def lend_memory_def return_memory_def intro!: keeps)

section \<open>Message passing\<close>

lemma wake_senders_keeps [keeps]: "I k \<Longrightarrow> holds I (wake_senders c sidx k)"
  by (auto simp: wake_senders_def split: outcome.split option.split intro!: keeps)

lemma poll_mailbox_keeps [keeps]: "I k \<Longrightarrow> holds I (poll_mailbox p tid k)"
  by (auto simp: poll_mailbox_def process_of_iff split: outcome.split option.split prod.split
      intro!: keeps put_same intro: same_takeD)

lemma poll_receive_message_keeps [keeps]: "I k \<Longrightarrow> holds I (poll_receive_message p sidx k)"
  by (auto simp: poll_receive_message_def split: option.split intro!: keeps)

lemma poll_keeps [keeps]: "I k \<Longrightarrow> holds I (poll f p tid k)"
  by (cases f) (auto intro!: keeps)

lemma switch_to_keeps [keeps]: "I k \<Longrightarrow> holds I (switch_to cp ct np nt k)"
  by (auto simp: switch_to_def intro!: keeps)

lemma take_future_keeps [keeps]:
  "I k \<Longrightarrow> holds I (with_process p (\<lambda>pr. case take_kernel_future tid pr of (f, pr') \<Rightarrow> (Ok f, pr')) k)"
proof (rule with_process_keeps)
  fix pr
  show "holds (same_threads pr) (case take_kernel_future tid pr of (f, pr') \<Rightarrow> (Ok f, pr'))"
    by (auto split: prod.split intro: same_takeD)
qed

lemma activate_loop_keeps [keeps]: "I k \<Longrightarrow> holds I (activate_loop n cp ct k)"
proof (induction n arbitrary: k)
  case (Suc n)
  show ?case
    unfolding activate_loop.simps
    by (auto split: option.split poll_result.split prod.split intro!: keeps step_fields Suc)
qed simp

lemma activate_current_keeps [keeps]: "I k \<Longrightarrow> holds I (activate_current k)"
  by (auto simp: activate_current_def intro!: keeps)

lemma translate_message_keeps [keeps]: "I k \<Longrightarrow> holds I (translate_message B p msg k)"
  by (cases msg) (auto intro!: keeps)

lemma send_message_inner_keeps [keeps]: "I k \<Longrightarrow> holds I (send_message_inner B tid sidx msg k)"
  by (auto simp: send_message_inner_def Let_def intro!: keeps)

lemma send_message_keeps [keeps]: "I k \<Longrightarrow> holds I (send_message B tid c msg k)"
  by (auto simp: send_message_def Let_def split: connection_slot.split intro!: keeps)

lemma own_server_keeps [keeps]: "I k \<Longrightarrow> holds I (own_server sidx k)"
  by (auto simp: own_server_def intro!: keeps)

lemma take_waiting_keeps [keeps]: "I k \<Longrightarrow> holds I (take_waiting sidx idx buf k)"
  by (auto simp: take_waiting_def intro!: keeps)

lemma finish_call_keeps [keeps]: "I k \<Longrightarrow> holds I (finish_call tid k)"
  by (auto simp: finish_call_def intro!: keeps)

lemma answers_keep [keeps]:
  "I k \<Longrightarrow> holds I (sys_return_memory B tid sender buf off valid k)" "I k \<Longrightarrow> holds I (return_result tid sender v k)"
  by (auto simp: sys_return_memory_def return_result_def Let_def split: waiting_message.split intro!: keeps)

lemma receive_message_keeps [keeps]: "I k \<Longrightarrow> holds I (receive_message tid sd c k)"
  by (auto simp: receive_message_def split: option.split intro!: keeps)

lemma retry_syscall_keeps [keeps]: "I k \<Longrightarrow> holds I (retry_syscall tid st k)"
  by (auto simp: retry_syscall_def intro!: keeps)

end

text \<open>The remaining updates of the kernel.\<close>

locale kernel_invariant = kernel_events I for I :: "'b kernel \<Rightarrow> bool" +
  assumes yield_law: "I k \<Longrightarrow> yield_thread (sched k) th prio = Ok s \<Longrightarrow> I (k\<lparr>sched := s\<rparr>)"
    and create_law: "I k \<Longrightarrow> proc_at k p = None \<Longrightarrow> pid_index p < MAX_PROCESS_COUNT \<Longrightarrow>
      I (put_process p (process_new m p pp app) k)"
    and free_law: "I k \<Longrightarrow> proc_at k p = Some pr \<Longrightarrow> (\<And>t. 1 \<le> t \<Longrightarrow> t < MAX_THREAD_COUNT \<Longrightarrow> p_threads pr ! t \<noteq> TReady) \<Longrightarrow>
      I (k\<lparr>processes := (processes k)[pid_index p := None]\<rparr>)"
    and grant_law: "I k \<Longrightarrow> proc_at k p = Some pr \<Longrightarrow> I (put_process p (pr\<lparr>p_syscall_permissions := - 1\<rparr>) k)"
    and irq_law: "I k \<Longrightarrow> (irq_inv (irqs k) \<Longrightarrow> irq_inv it) \<Longrightarrow> I (k\<lparr>irqs := it\<rparr>)"
    and display_law: "I k \<Longrightarrow> (display_inv (display k) \<Longrightarrow> display_inv d) \<Longrightarrow> I (k\<lparr>display := d\<rparr>)"
    and message_law: "I k \<Longrightarrow> (length (panic_message k) \<le> PANIC_MESSAGE_SIZE \<Longrightarrow> length bs \<le> PANIC_MESSAGE_SIZE) \<Longrightarrow>
      I (k\<lparr>panic_message := bs\<rparr>)"
    and message_pid_law [keeps]: "I k \<Longrightarrow> I (k\<lparr>panic_message_pid := x\<rparr>)"
begin

section \<open>Display and input\<close>

lemma set_display_keeps: "I k \<Longrightarrow> (display_inv (display k) \<Longrightarrow> display_inv d) \<Longrightarrow> I (set_display d k)"
  by (simp add: set_display_def display_law)

lemma map_fb_keeps [keeps]: "I k \<Longrightarrow> holds I (map_fb B mp offs k)"
  by (induction offs arbitrary: k) (auto intro!: keeps)

lemma fb_keeps [keeps]: "I k \<Longrightarrow> holds I (map_fb_for B p k)" "I k \<Longrightarrow> holds I (unmap_fb_for p k)"
  by (auto simp: map_fb_for_def unmap_fb_for_def split: outcome.split intro!: keeps)

lemma try_acquire_display_keeps [keeps]: "I k \<Longrightarrow> holds I (try_acquire_display B p tid k)"
  by (auto simp: try_acquire_display_def push_waiter_inv intro!: keeps set_display_keeps)

lemma hand_off_keeps [keeps]: "I k \<Longrightarrow> holds I (hand_off B row col k)"
proof (induction B row col k rule: hand_off.induct)
  case (1 B row col k)
  have inv: "display_inv d" if "pop_waiter (display k) = (r, d)" "display_inv (display k)" for r d
    using pop_waiter_inv [OF that(2)] that(1) by simp
  show ?case
  proof (cases "pop_waiter (display k)")
    case (Pair w d)
    have d: "I (set_display d k)" "I (set_display (d\<lparr>owner := x\<rparr>) k)" for x
      using 1(2) inv [OF Pair] by (auto intro!: set_display_keeps)
    show ?thesis
    proof (cases w)
      case (Some wt)
      then show ?thesis
        using 1(1) [of w d wt "fst wt" "snd wt"] Pair d unfolding hand_off.simps [of B row col k]
        by (cases wt) (auto split: outcome.split intro!: keeps)
    qed (use Pair d in \<open>simp add: hand_off.simps\<close>)
  qed
qed

lemma display_release_keeps [keeps]:
  "I k \<Longrightarrow> holds I (release_display B row col k)" "I k \<Longrightarrow> holds I (release_display_on_exit B p k)"
  by (auto simp: release_display_def release_display_on_exit_def intro!: keeps set_display_keeps)

lemma release_input_focus_keeps [keeps]: "I k \<Longrightarrow> I (release_input_focus k)"
  by (auto simp: release_input_focus_def intro!: set_display_keeps)

lemma acquire_input_focus_keeps [keeps]: "I k \<Longrightarrow> holds I (acquire_input_focus p sd k)"
  using drain_inv [of "set_input_focus sd (display k)"]
  by (auto simp: acquire_input_focus_def split: prod.split intro!: keeps set_display_keeps)

lemma ignore_missing_keeps [keeps]: "I k \<Longrightarrow> holds I m \<Longrightarrow> holds I (ignore_missing p k m)"
  by (auto simp: ignore_missing_def split: outcome.split)

lemma deliver_char_to_sid_keeps [keeps]: "I k \<Longrightarrow> holds I (deliver_char_to_sid sd c k)"
  by (auto simp: deliver_char_to_sid_def Let_def split: option.split intro!: keeps)

lemma dispatch_input_char_keeps [keeps]: "I k \<Longrightarrow> holds I (dispatch_input_char c k)"
  by (auto simp: dispatch_input_char_def push_input_char_refines split: option.split intro!: keeps set_display_keeps)

lemma deliver_chars_keeps [keeps]: "I k \<Longrightarrow> holds I (deliver_chars sd cs k)"
  by (induction cs arbitrary: k) (auto intro!: keeps)

section \<open>Servers, threads and processes\<close>

lemma ready_thread_of_keeps [keeps]: "I k \<Longrightarrow> holds I (ready_thread_of p tid k)"
  by (auto simp: ready_thread_of_def intro!: keeps)

lemma destroy_entry_keeps [keeps]: "I k \<Longrightarrow> holds I (destroy_entry B q k)"
  by (cases q) (auto simp: free_buffer_def unblock_scalar_def unblock_lender_def intro!: keeps)

lemma destroy_entries_keeps [keeps]: "I k \<Longrightarrow> holds I (destroy_entries B qs k)"
  by (induction qs arbitrary: k) (auto intro!: keeps)

lemma wake_parked_keeps [keeps]: "I k \<Longrightarrow> holds I (wake_parked n sv k)"
  by (induction n arbitrary: sv k) (auto split: option.split outcome.split prod.split intro!: keeps)

lemma server_destroy_keeps [keeps]: "I k \<Longrightarrow> holds I (server_destroy B sv k)"
  by (auto simp: server_destroy_def intro!: keeps)

lemma tombstone_all_keeps: "I k \<Longrightarrow> set is \<subseteq> {..<MAX_PROCESS_COUNT} \<Longrightarrow> holds I (tombstone_all sidx is k)"
proof (induction "is" arbitrary: k)
  case (Cons i "is")
  show ?case
  proof (cases "processes k ! i")
    case (Some pr)
    obtain c pr' where t: "tombstone_connection_by_sidx sidx pr = (c, pr')" by (cases "tombstone_connection_by_sidx sidx pr")
    have "same_threads pr pr'" using same_threads_simps(12) [of pr sidx] t by simp
    then have "I (k\<lparr>processes := (processes k)[i := Some pr'], sched := sched k\<rparr>)"
      using process_slot_keeps [OF Cons.prems(1) _ Some, of pr' "sched k"] Cons.prems(2) step_fields by simp
    then have "I (k\<lparr>processes := (processes k)[i := Some pr']\<rparr>)" by simp
    then show ?thesis using Some t Cons by (auto simp: Let_def split: option.split intro!: keeps)
  qed (use Cons in auto)
qed simp

lemma destroy_sidx_keeps [keeps]: "I k \<Longrightarrow> holds I (destroy_sidx B sidx k)"
  by (auto simp: destroy_sidx_def table_size split: option.split
      intro!: keeps server_law tombstone_all_keeps)

lemma servers_keep [keeps]:
  "I k \<Longrightarrow> holds I (destroy_server B p sd k)" "I k \<Longrightarrow> holds I (create_server_with_address B sd perms k)"
  by (auto simp: destroy_server_def create_server_with_address_def Let_def
      split: option.split outcome.split prod.split intro!: keeps server_law)

lemma wake_joiners_keeps [keeps]: "I k \<Longrightarrow> holds I (wake_joiners tid v ws k)"
  by (induction ws arbitrary: k) (auto intro!: keeps)

lemma same_exited: "same_threads pr (snd (take_mailbox tid (snd (take_kernel_future tid pr))))"
  using same_threads_trans same_threads_simps(3,4) by blast

lemma thread_exited_keeps [keeps]: "I k \<Longrightarrow> holds I (thread_exited B tid k)"
  by (auto simp: thread_exited_def same_exited Let_def split: option.split prod.split intro!: keeps)

lemma join_thread_keeps [keeps]: "I k \<Longrightarrow> holds I (join_thread tid t k)"
  by (auto simp: join_thread_def intro!: keeps)

lemma create_thread_keeps [keeps]: "I k \<Longrightarrow> holds I (create_thread tid init k)"
  by (auto simp: create_thread_def intro!: keeps)

lemma on_irqs_keeps [keeps]:
  "I k \<Longrightarrow> (irq_inv (irqs k) \<Longrightarrow> irq_inv (snd (f (irqs k)))) \<Longrightarrow> holds I (on_irqs f k)"
  by (auto simp: on_irqs_def split: prod.split intro!: keeps irq_law)

lemma leave_servers_keeps [keeps]: "I k \<Longrightarrow> holds I (leave_servers B p is k)"
proof (induction "is" arbitrary: k)
  case (Cons i "is")
  then show ?case by (auto simp: Let_def put_server_def split: option.split intro!: keeps server_law Cons.IH)
qed simp

lemma wake_exit_waiters_keeps [keeps]: "I k \<Longrightarrow> holds I (wake_exit_waiters c ws k)"
  by (induction c ws k rule: wake_exit_waiters.induct) (auto intro!: keeps)

lemma orphan_prefix:
  assumes "I k" "f = map_option (\<lambda>pr. if p_ppid pr = Some p then pr\<lparr>p_ppid := None\<rparr> else pr)" "n \<le> MAX_PROCESS_COUNT"
  shows "I (k\<lparr>processes := map f (take n (processes k)) @ drop n (processes k)\<rparr>)"
  using assms(3)
proof (induction n)
  case 0
  then show ?case using assms(1) by simp
next
  case (Suc n)
  let ?k = "\<lambda>n. k\<lparr>processes := map f (take n (processes k)) @ drop n (processes k)\<rparr>"
  have len: "length (processes k) = MAX_PROCESS_COUNT" using table_size [OF assms(1)] .
  have nth: "processes (?k n) ! n = processes k ! n" using Suc.prems len by (simp add: nth_append)
  have next_n: "processes (?k (Suc n)) = (processes (?k n))[n := f (processes k ! n)]"
    using Suc.prems len by (simp add: take_Suc_conv_app_nth Cons_nth_drop_Suc [symmetric] list_update_append)
  show ?case
  proof (cases "processes k ! n")
    case None
    then have "processes (?k (Suc n)) = processes (?k n)"
      using nth next_n assms(2) list_update_id [of "processes (?k n)" n] by simp
    then have "?k (Suc n) = ?k n" by simp
    then show ?thesis using Suc by simp
  next
    case (Some pr)
    then obtain pr' where pr': "f (processes k ! n) = Some pr'" "same_threads pr pr'" using assms(2) by auto
    have "I ((?k n)\<lparr>processes := (processes (?k n))[n := Some pr'], sched := sched (?k n)\<rparr>)"
      using Suc pr' nth Some step_fields by (intro process_slot_keeps) auto
    moreover have "(?k n)\<lparr>processes := (processes (?k n))[n := Some pr'], sched := sched (?k n)\<rparr> = ?k (Suc n)"
      using next_n pr'(1) by simp
    ultimately show ?thesis by simp
  qed
qed

lemma orphan_children_keeps [keeps]: "I k \<Longrightarrow> I (orphan_children p k)"
  using orphan_prefix [of k _ p MAX_PROCESS_COUNT] table_size [of k] by (simp add: orphan_children_def)

lemma process_terminate_keeps [keeps]: "I k \<Longrightarrow> holds I (process_terminate B p k)"
proof -
  have "irq_inv (snd (release_interrupts_for_pid q t))" if "irq_inv t" for q t
    using release_interrupts_spec [OF that, of q] by auto
  then show "I k \<Longrightarrow> holds I (process_terminate B p k)"
    by (auto simp: process_terminate_def intro!: keeps free_threads_step)
qed

lemma process_terminate_spec:
  assumes "I k" "process_terminate B p k = (Ok u, k')"
  shows "I k' \<and> (\<exists>pr. proc_at k' p = Some pr \<and> (\<forall>t. 1 \<le> t \<longrightarrow> t < MAX_THREAD_COUNT \<longrightarrow> p_threads pr ! t \<noteq> TReady))"
proof -
  obtain pr where pr: "proc_at k p = Some pr"
    using assms(2) by (cases "process_of k p") (auto simp: process_terminate_def process_of_iff)
  let ?tids = "[1 ..< MAX_THREAD_COUNT]"
  obtain r pr' s where f: "free_threads ?tids (pr, sched k) = (r, (pr', s))" by (cases "free_threads ?tids (pr, sched k)") auto
  define k1 where "k1 = (put_process p pr' k)\<lparr>sched := s\<rparr>"
  have w: "with_proc_sched p (free_threads ?tids) k = (r, k1)"
    using pr f by (simp add: with_proc_sched_def process_of_iff [symmetric] k1_def)
  have "r = Ok ()" using assms(2) pr w by (cases r) (auto simp: process_terminate_def process_of_iff [symmetric])
  then have free: "p_threads pr' ! t \<noteq> TReady" if "1 \<le> t" "t < MAX_THREAD_COUNT" for t
    using free_threads_free [of ?tids "(pr, sched k)" "()" "(pr', s)" "{}" t] f that by simp
  obtain r2 m where m: "release_all_memory_for_process B (mm (kvm k1)) (get_pid (p_mapping pr)) = (r2, m)"
    by (cases "release_all_memory_for_process B (mm (kvm k1)) (get_pid (p_mapping pr))")
  then have "low_broadcasts m = low_broadcasts (mm (kvm k1))"
    using release_all_broadcasts [of B "mm (kvm k1)" "get_pid (p_mapping pr)"] by simp
  then have on: "on_mm (\<lambda>m. release_all_memory_for_process B m (get_pid (p_mapping pr))) k1 = (r2, k1\<lparr>kvm := (kvm k1)\<lparr>mm := m\<rparr>\<rparr>)"
    using m by (simp add: on_mm_def low_memory_events_def)
  have "processes k' = processes k1"
    using assms(2) pr w \<open>r = Ok ()\<close> on
    by (auto simp: process_terminate_def process_of_iff [symmetric] on_irqs_def on_ptable_def sbind_def split: outcome.splits prod.splits)
  moreover have "I k'" using holdsD [OF process_terminate_keeps [OF assms(1)] assms(2)] by simp
  ultimately show ?thesis using free pr by (auto simp: k1_def proc_at_def put_process_def split: if_splits)
qed

lemma terminate_and_free_keeps [keeps]:
  assumes "I k" "\<And>a k. I k \<Longrightarrow> holds I (f a k)"
  shows "holds I (sbind (process_terminate B p k) (\<lambda>_ k. sbind (free_process p k) f))"
proof -
  obtain r k' where t: "process_terminate B p k = (r, k')" by (cases "process_terminate B p k")
  show ?thesis
  proof (cases r)
    case (Ok u)
    then obtain pr where pr: "I k'" "proc_at k' p = Some pr" "\<And>t. 1 \<le> t \<Longrightarrow> t < MAX_THREAD_COUNT \<Longrightarrow> p_threads pr ! t \<noteq> TReady"
      using process_terminate_spec [OF assms(1), of B p u k'] t by auto
    then show ?thesis using t Ok free_law [OF pr(1,2)] assms(2) by (auto simp: free_process_def)
  next
    case (Err e)
    then show ?thesis using t holdsD [OF process_terminate_keeps [OF assms(1)] t] by simp
  qed (use t in simp)
qed

lemma terminate_current_process_keeps [keeps]: "I k \<Longrightarrow> holds I (terminate_current_process B ret k)"
  by (auto simp: terminate_current_process_def Let_def split: option.split intro!: keeps)

lemma terminate_process_keeps [keeps]: "I k \<Longrightarrow> holds I (terminate_process B tid p ret k)"
  by (auto simp: terminate_process_def intro!: keeps)

lemma arch_create_keeps [keeps]: "I k \<Longrightarrow> holds I (arch_create B rnd p elf k)"
  by (auto simp: arch_create_def split: prod.split intro!: keeps)

lemma vacant_events: "kernel_events (\<lambda>k. I k \<and> proc_at k p = None)"
proof
  fix k q pr pr' s
  assume a: "I k \<and> proc_at k p = None" "proc_at k q = Some pr" "proc_step (pr, sched k) (pr', s)"
  then have "q \<noteq> p" by auto
  then show "I ((put_process q pr' k)\<lparr>sched := s\<rparr>) \<and> proc_at ((put_process q pr' k)\<lparr>sched := s\<rparr>) p = None"
    using a process_law [of k q pr pr' s] by simp
qed (auto simp: table_size intro: context_law server_law keeps)

lemma create_keeps:
  assumes "I k" "proc_at k p = None" "pid_index p < MAX_PROCESS_COUNT" "proc_step (process_new m p pp app, sched k) (pr, s)"
  shows "I ((put_process p pr k)\<lparr>sched := s\<rparr>)"
proof -
  let ?k = "put_process p (process_new m p pp app) k"
  have "proc_at ?k p = Some (process_new m p pp app)"
    using assms(3) table_size [OF assms(1)] by (simp add: proc_at_def put_process_def)
  then have "I ((put_process p pr ?k)\<lparr>sched := s\<rparr>)"
    using process_law [OF create_law [OF assms(1-3), of m pp app], of p "process_new m p pp app" pr s] assms(4)
    by (simp add: put_process_def)
  then show ?thesis by (simp add: put_process_def)
qed

lemma create_process_from_keeps [keeps]:
  assumes "I k"
  shows "holds I (create_process_from B rnd elf name app k)"
proof (cases "find (\<lambda>i. processes k ! i = None) [0 ..< length (processes k)]")
  case (Some i)
  then have i: "i < MAX_PROCESS_COUNT" "processes k ! i = None" using table_size [OF assms] by (auto simp: find_Some_iff)
  have p: "pid_from_usize (of_nat (i + 1)) = Ok (pid_at i)" using pid_from_index [OF i(1)] by simp
  have vacant: "proc_at k (pid_at i) = None" using i by (simp add: proc_at_def pid_index_at)
  define J where "J k' \<longleftrightarrow> I k' \<and> proc_at k' (pid_at i) = None" for k'
  have 1: "holds J (on_vm (mapping_allocate B (pid_at i) mapping_default) k)"
    using kernel_events.on_memory_keeps(2) [OF vacant_events, of k "pid_at i"] assms vacant unfolding J_def by simp
  have 2: "holds I (case set_name bs (process_new m (pid_at i) pp app) of
      (Ok u, pr) \<Rightarrow> (case set_thread_state INITIAL_TID TReady (pr, sched k') of
           (Ok v, (pr, s)) \<Rightarrow> unwrap_result (arch_create B rnd (pid_at i) elf (k'\<lparr>sched := s, processes := (processes k')[i := Some pr]\<rparr>))
         | x \<Rightarrow> (Panic, k'))
    | (Err e, x) \<Rightarrow> (Err e, k') | (Panic, x) \<Rightarrow> (Panic, k'))"
    if "J k'" for k' bs m pp
  proof -
    have same: "same_threads (process_new m (pid_at i) pp app) pr" if "set_name bs (process_new m (pid_at i) pp app) = (Ok u, pr)" for u pr
      using that by (auto simp: set_name_def same_threads_def process_wf_def split: if_splits)
    have new: "I (k'\<lparr>sched := s, processes := (processes k')[i := Some pr']\<rparr>)"
      if "set_name bs (process_new m (pid_at i) pp app) = (Ok u, pr)" "set_thread_state INITIAL_TID TReady (pr, sched k') = (Ok v, (pr', s))"
      for u pr v pr' s
    proof -
      have "proc_step (process_new m (pid_at i) pp app, sched k') (pr', s)"
        using step_fields [OF same [OF that(1)], of "sched k'"] step_state [of INITIAL_TID TReady "(pr, sched k')" "(pr', s)"]
          that(2) by (auto intro: step_trans)
      then have "I ((put_process (pid_at i) pr' k')\<lparr>sched := s\<rparr>)"
        using create_keeps [of k' "pid_at i" m pp app pr' s] \<open>J k'\<close> i(1) by (simp add: J_def pid_index_at)
      moreover have "(put_process (pid_at i) pr' k')\<lparr>sched := s\<rparr> = k'\<lparr>sched := s, processes := (processes k')[i := Some pr']\<rparr>"
        using i(1) by (simp add: put_process_def pid_index_at)
      ultimately show ?thesis by simp
    qed
    show ?thesis using \<open>J k'\<close> new by (auto simp: J_def split: outcome.split prod.split intro!: keeps)
  qed
  show ?thesis
    unfolding create_process_from_def Let_def Some option.case p sbind_simps
    using 1
  proof (rule holds_sbind_mid)
    show "holds I (sbind (name k', k') (\<lambda>bs k. case set_name bs (process_new m (pid_at i) (cur_pid k0) app) of
      (Ok u, pr) \<Rightarrow> (case set_thread_state INITIAL_TID TReady (pr, sched k) of
           (Ok v, (pr, s)) \<Rightarrow> unwrap_result (arch_create B rnd (pid_at i) elf (k\<lparr>sched := s, processes := (processes k)[i := Some pr]\<rparr>))
         | x \<Rightarrow> (Panic, k))
    | (Err e, x) \<Rightarrow> (Err e, k) | (Panic, x) \<Rightarrow> (Panic, k)))" if "J k'" for m k' k0
      using that 2 [OF that] by (intro holds_sbind_value) (simp_all add: J_def)
  qed (simp add: J_def)
qed (use assms in \<open>simp add: create_process_from_def Let_def\<close>)

lemma create_process_keeps [keeps]: "I k \<Longrightarrow> holds I (create_process B rnd init k)"
  by (auto simp: create_process_def intro!: keeps)

lemma grant_keeps [keeps]: "I k \<Longrightarrow> holds I (with_process p (\<lambda>pr. (Ok (), pr\<lparr>p_syscall_permissions := - 1\<rparr>)) k)"
  by (auto simp: with_process_def process_of_iff intro!: holds_sbind_value grant_law)

lemma spawn_process_keeps [keeps]: "I k \<Longrightarrow> holds I (spawn_process B rnd bins name k)"
  unfolding spawn_process_def Let_def
  by (auto split: outcome.split intro!: keeps grant_keeps)

lemma spawns_keep [keeps]:
  "I k \<Longrightarrow> holds I (spawn_by_name B rnd bins name k)" "I k \<Longrightarrow> holds I (spawn_by_name_with_args B rnd bins name argv len k)"
  by (auto simp: spawn_by_name_def spawn_by_name_with_args_def split: outcome.split intro!: keeps)

section \<open>System calls\<close>

lemma mirror_memory_keeps [keeps]: "I k \<Longrightarrow> holds I (mirror_memory_to_pid B mr p k)"
  by (auto simp: mirror_memory_to_pid_def Let_def intro!: keeps)

lemma handle_memory_keeps [keeps]: "I k \<Longrightarrow> holds I (handle_memory B c k)"
  by (cases c) (auto intro!: keeps)

lemma futex_wake_keeps [keeps]: "I k \<Longrightarrow> holds I (futex_wake addr n ts k)"
  by (induction ts arbitrary: n k) (auto intro!: keeps step_fields)

lemma yield_keeps [keeps]:
  "I k \<Longrightarrow> holds I (case yield_thread (sched k) th prio of
     Ok s \<Rightarrow> (Ok (), k\<lparr>sched := s\<rparr>) | Err e \<Rightarrow> (Err e, k) | Panic \<Rightarrow> (Panic, k))"
  by (auto split: outcome.split intro: yield_law)

lemma notifications_keep [keeps]:
  assumes "I k"
  shows "holds I (with_process p (\<lambda>pr. case take_notification_bits_masked msk pr of (fired, pr') \<Rightarrow> (Ok fired, pr')) k)"
    "holds I (with_process p (\<lambda>pr. case take_notification_bits pr of (fired, pr') \<Rightarrow> (Ok fired, pr')) k)"
  using assms by (auto simp: take_notification_bits_masked_def take_notification_bits_def intro!: keeps)

lemma waits_keep [keeps]:
  assumes "I k"
  shows "holds I (futex_wait tid addr v k)" "holds I (sys_yield tid k)" "holds I (wait_event tid msk k)"
  using assms by (auto simp: futex_wait_def sys_yield_def wait_event_def intro!: keeps)

lemma handle_thread_keeps [keeps]: "I k \<Longrightarrow> holds I (handle_thread tid c k)"
  by (cases c) (auto split: outcome.split intro!: keeps irq_ops_inv)

lemma queue_full_keeps [keeps]:
  "holds I m \<Longrightarrow> (\<And>s. I s \<Longrightarrow> holds I (f s)) \<Longrightarrow> holds I (case m of (Err ServerQueueFull, s) \<Rightarrow> f s | r \<Rightarrow> r)"
  by (cases m; cases "fst m") (auto split: error.split)

lemma handle_message_keeps [keeps]: "I k \<Longrightarrow> holds I (handle_message B tid c k)"
  by (cases c) (auto intro!: keeps)

lemma allow_messages_cid_keeps [keeps]: "I k \<Longrightarrow> holds I (allow_messages_cid p c msgs k)"
  by (auto simp: allow_messages_cid_def split: outcome.split connection_slot.split prod.split intro!: keeps)

lemma handle_server_keeps [keeps]: "I k \<Longrightarrow> holds I (handle_server B w c k)"
  by (cases c) (auto split: option.split intro!: keeps)

lemma handle_process_keeps [keeps]: "I k \<Longrightarrow> holds I (handle_process B w tid c k)"
  by (cases c) (auto split: option.split outcome.split intro!: keeps)

lemma append_panic_message_keeps [keeps]: "I k \<Longrightarrow> holds I (append_panic_message bs k)"
  by (auto simp: append_panic_message_def buf_write_def Let_def split: option.split intro!: keeps message_law)

lemma user_copy_keeps [keeps]: "I k \<Longrightarrow> holds I (user_copy a bs k)"
  by (induction bs arbitrary: a k) (auto simp: user_store_def Let_def split: outcome.split intro!: keeps)

lemma get_panic_message_keeps [keeps]: "I k \<Longrightarrow> holds I (get_panic_message buf k)"
  by (auto simp: get_panic_message_def Let_def intro!: keeps)

lemma ensure_range_keeps [keeps]: "I k \<Longrightarrow> holds I (ensure_range B as k)"
  by (induction "as" arbitrary: k) (auto intro!: keeps)

lemma debug_call_keeps [keeps]: "I k \<Longrightarrow> holds I (debug_call B w buf cmd k)"
  by (auto simp: debug_call_def Let_def intro!: keeps)

lemma acquire_display_keeps [keeps]: "I k \<Longrightarrow> holds I (acquire_display B tid k)"
  by (auto simp: acquire_display_def split: prod.split intro!: keeps)

lemma set_event_handler_same [keeps]: "holds (same_threads pr) (set_event_handler ev sd mid pr)"
  using same_threads_simps(13) [of pr ev sd mid] by (simp add: holds_def)

lemma handle_system_keeps [keeps]: "I k \<Longrightarrow> holds I (handle_system B w tid c k)"
proof (cases c)
  case (GetSystemStats st)
  then show "I k \<Longrightarrow> holds I (handle_system B w tid c k)" by (cases st) simp_all
qed (auto split: option.split prod.split intro!: keeps)

theorem handle_keeps [keeps]: "I k \<Longrightarrow> holds I (handle B w tid call k)"
  by (cases call) (auto simp: handle_def intro!: keeps)

section \<open>Exceptions\<close>

lemma dispatch_chars_keeps [keeps]: "I k \<Longrightarrow> holds I (dispatch_chars cs k)"
  by (induction cs arbitrary: k) (auto intro!: keeps)

lemma handle_irq_keeps [keeps]: "I k \<Longrightarrow> holds I (handle_irq ev k)"
  by (cases ev) (auto intro!: keeps)

lemma load_current_keeps [keeps]: "I k \<Longrightarrow> holds I (load_current frame k)"
  by (simp add: load_current_def keeps)

lemma save_current_keeps [keeps]: "I k \<Longrightarrow> length (gpr frame) = 31 \<Longrightarrow> holds I (save_current frame k)"
  by (auto simp: save_current_def intro!: keeps)

lemma reschedule_keeps [keeps]: "I k \<Longrightarrow> holds I (reschedule k)"
  by (auto simp: reschedule_def intro!: keeps)

lemma preempt_keeps [keeps]: "I k \<Longrightarrow> holds I (preempt p tid k)"
  by (auto simp: preempt_def intro!: keeps)

lemma idle_wait_keeps [keeps]: "I k \<Longrightarrow> holds I (idle_wait_then_load evs frame k)"
  by (induction evs arbitrary: k) (subst idle_wait_then_load.simps; auto intro!: keeps)+

lemma user_irq_keeps [keeps]: "I k \<Longrightarrow> length (gpr frame) = 31 \<Longrightarrow> holds I (user_irq_handler ev frame k)"
  by (auto simp: user_irq_handler_def Let_def intro!: keeps)

lemma kernel_irq_keeps [keeps]: "I k \<Longrightarrow> holds I (kernel_irq_handler ev frame k)"
  by (auto simp: kernel_irq_handler_def intro!: keeps)

lemma handle_svc_keeps [keeps]:
  assumes "I k" "length (gpr frame) = 31"
  shows "holds I (handle_svc B w evs frame k)"
  unfolding handle_svc_def Let_def using assms by (intro keeps) auto

lemma handle_abort_keeps [keeps]: "I k \<Longrightarrow> length (gpr frame) = 31 \<Longrightarrow> holds I (handle_abort B evs frame k)"
  by (auto simp: handle_abort_def intro!: keeps)

lemma user_sync_handler_keeps [keeps]: "I k \<Longrightarrow> length (gpr frame) = 31 \<Longrightarrow> holds I (user_sync_handler B w esr evs frame k)"
  by (auto simp: user_sync_handler_def Let_def intro!: keeps)

section \<open>Boot\<close>

lemma init_pid1_keeps:
  assumes "I k" "proc_at k pid1 = None"
  shows "holds I (init_pid1 k)"
proof -
  let ?new = "process_new (cur_map k) pid1 pid1 (app_id_from_words 0x31444950 0 0 0)"
  have idx: "pid_index pid1 = 0" by (simp add: pid_index_def pid1_def)
  have "I (k\<lparr>sched := s, processes := (processes k)[0 := Some (pr3\<lparr>p_syscall_permissions := - 1\<rparr>)]\<rparr>)"
    if st: "set_thread_priority INITIAL_TID Idle (?new, sched k) = (Ok u1, ps)" "set_thread_state INITIAL_TID TReady ps = (Ok u2, (pr2, s))"
      "set_name bs pr2 = (Ok u3, pr3)" for u1 u2 u3 ps pr2 pr3 s bs
  proof -
    have "proc_step (?new, sched k) ps" "proc_step ps (pr2, s)" using st(1,2) by (auto intro: step_priority step_state)
    moreover have "proc_step (pr2, s) (pr3, s)"
      using st(3) by (intro step_fields) (auto simp: set_name_def same_threads_def process_wf_def split: if_splits)
    ultimately have "proc_step (?new, sched k) (pr3, s)" by (meson step_trans)
    then have "I ((put_process pid1 pr3 k)\<lparr>sched := s\<rparr>)"
      using create_keeps [OF assms] idx by (simp add: MAX_PROCESS_COUNT_def)
    moreover have at: "proc_at ((put_process pid1 pr3 k)\<lparr>sched := s\<rparr>) pid1 = Some pr3"
      using idx table_size [OF assms(1)] by (simp add: proc_at_def put_process_def MAX_PROCESS_COUNT_def)
    ultimately have "I (put_process pid1 (pr3\<lparr>p_syscall_permissions := - 1\<rparr>) ((put_process pid1 pr3 k)\<lparr>sched := s\<rparr>))"
      by (rule grant_law)
    then show ?thesis by (simp add: put_process_def idx)
  qed
  then show ?thesis
    unfolding init_pid1_def Let_def by (auto split: prod.split outcome.split intro!: keeps)
qed

lemma create_elf_process_keeps [keeps]: "I k \<Longrightarrow> holds I (create_elf_process B rnd p im k)"
  unfolding create_elf_process_def by (intro keeps)

lemma create_each_keeps [keeps]: "I k \<Longrightarrow> holds I (create_each B rnd ps k)"
  by (induction B rnd ps k rule: create_each.induct) (auto intro!: keeps)

lemma map_uart_keeps [keeps]: "I k \<Longrightarrow> holds I (map_uart B ps k)"
  by (induction ps arbitrary: k) (auto intro!: keeps)

lemma alloc_disk_keeps [keeps]: "I k \<Longrightarrow> holds I (alloc_disk B n k)"
  by (induction n arbitrary: k) (auto intro!: keeps)

lemma fill_disk_keeps: "I k \<Longrightarrow> fill_disk i pas rd k = (good, k') \<Longrightarrow> I k'"
  by (induction pas arbitrary: i k) (auto simp: Let_def split: prod.splits if_splits intro: keeps)

lemma holds_fill_disk [keeps]:
  "I k \<Longrightarrow> (\<And>k. I k \<Longrightarrow> holds I (f k)) \<Longrightarrow> (\<And>k. I k \<Longrightarrow> holds I (g k)) \<Longrightarrow>
    holds I (case fill_disk i pas rd k of (True, k) \<Rightarrow> f k | (False, k) \<Rightarrow> g k)"
  using fill_disk_keeps [of k i pas rd] by (auto split: prod.split bool.split)

lemma map_disk_keeps [keeps]: "I k \<Longrightarrow> holds I (map_disk B mp i pas k)"
  by (induction pas arbitrary: i k) (auto intro!: keeps)

lemma attach_disk_keeps [keeps]: "I k \<Longrightarrow> holds I (attach_disk B fs d k)"
  by (auto simp: attach_disk_def Let_def split: option.split intro!: keeps)

lemma launch_keeps [keeps]: "I k \<Longrightarrow> holds I (launch_first_process B rnd ims d frame k)"
  by (auto simp: launch_first_process_def Let_def intro!: keeps)

lemma boot_keeps:
  assumes "I (kernel_init v mp)"
  shows "holds I (boot B rnd ims d frame v mp)"
  unfolding boot_def
  by (rule holds_sbind [OF init_pid1_keeps [OF assms] launch_keeps]) (auto simp: proc_at_def kernel_init_def)

end

end
