(* ===== verification/Kernel_Properties.thy ===== *)
theory Kernel_Properties
  imports Kernel_Invariants
begin

text \<open>
  The invariants of the running kernel: the interpretations of \<open>kernel_invariant\<close> and
  the states that booting and any sequence of system calls, faults and interrupts reach.
\<close>

section \<open>Ready queues\<close>

lemma process_new_wf: "process_wf (process_new m p pp app)" "\<not> runnable (process_new m p pp app) t q"
  by (auto simp: process_wf_def runnable_def process_new_def)

lemma proc_at_create:
  "length (processes k) = MAX_PROCESS_COUNT \<Longrightarrow> pid_index p < MAX_PROCESS_COUNT \<Longrightarrow>
    proc_at (put_process p pr k) q = (if q = p then Some pr else proc_at k q)"
  by (auto simp: proc_at_def put_process_def pid_index_inject nth_list_update)

lemma proc_at_free:
  "proc_at (k\<lparr>processes := (processes k)[pid_index p := None]\<rparr>) q = (if q = p then None else proc_at k q)"
  by (auto simp: proc_at_def pid_index_inject nth_list_update)

lemma threads_inv_fields:
  assumes "threads_inv k" "length (processes k') = MAX_PROCESS_COUNT" "sched k' = sched k"
    "\<And>p pr. proc_at k' p = Some pr \<Longrightarrow> p_pid pr = p \<and> process_wf pr"
    "\<And>p t q. (\<exists>pr. proc_at k' p = Some pr \<and> runnable pr t q) \<longleftrightarrow> (\<exists>pr. proc_at k p = Some pr \<and> runnable pr t q)"
  shows "threads_inv k'"
  using assms by (simp add: threads_inv_def)

interpretation thread_queues: kernel_invariant threads_inv
proof
  fix k :: "'a kernel" and p pr pr' s
  assume "threads_inv k" "proc_at k p = Some pr" "proc_step (pr, sched k) (pr', s)"
  then show "threads_inv ((put_process p pr' k)\<lparr>sched := s\<rparr>)" using proc_step_inv [of "(pr, sched k)" "(pr', s)" k p] by simp
next
  fix k :: "'a kernel" and p m pp app
  assume a: "threads_inv k" "proc_at k p = None" "pid_index p < MAX_PROCESS_COUNT"
  note at = proc_at_create [OF threads_invD(1) [OF a(1)] a(3)]
  show "threads_inv (put_process p (process_new m p pp app) k)"
    using a(1)
  proof (rule threads_inv_fields)
    show "length (processes (put_process p (process_new m p pp app) k)) = MAX_PROCESS_COUNT"
      using threads_invD(1) [OF a(1)] by (simp add: put_process_def)
    show "p_pid pr = q \<and> process_wf pr" if "proc_at (put_process p (process_new m p pp app) k) q = Some pr" for q pr
      using that threads_invD(3,4) [OF a(1)] process_new_wf(1) by (auto simp: at process_new_def split: if_splits)
    show "(\<exists>pr. proc_at (put_process p (process_new m p pp app) k) q = Some pr \<and> runnable pr t qu) \<longleftrightarrow>
        (\<exists>pr. proc_at k q = Some pr \<and> runnable pr t qu)" for q t qu
      using a(2) process_new_wf(2) by (auto simp: at)
  qed (simp add: put_process_def)
next
  fix k :: "'a kernel" and p pr
  assume a: "threads_inv k" "proc_at k p = Some pr" "\<And>t. 1 \<le> t \<Longrightarrow> t < MAX_THREAD_COUNT \<Longrightarrow> p_threads pr ! t \<noteq> TReady"
  let ?k = "k\<lparr>processes := (processes k)[pid_index p := None]\<rparr>"
  show "threads_inv ?k"
    using a(1)
  proof (rule threads_inv_fields)
    show "length (processes ?k) = MAX_PROCESS_COUNT" using threads_invD(1) [OF a(1)] by simp
    show "p_pid pr = q \<and> process_wf pr" if "proc_at ?k q = Some pr" for q pr
      using that threads_invD(3,4) [OF a(1)] by (auto simp: proc_at_free split: if_splits)
    show "(\<exists>pr. proc_at ?k q = Some pr \<and> runnable pr t qu) \<longleftrightarrow> (\<exists>pr. proc_at k q = Some pr \<and> runnable pr t qu)" for q t qu
      using a(2,3) by (auto simp: proc_at_free runnable_def)
  qed simp
next
  fix k :: "'a kernel" and p pr
  assume a: "threads_inv k" "proc_at k p = Some pr"
  let ?pr = "pr\<lparr>p_syscall_permissions := - 1\<rparr>"
  have same: "runnable ?pr = runnable pr" "process_wf ?pr = process_wf pr" by (simp_all add: runnable_def process_wf_def fun_eq_iff)
  show "threads_inv (put_process p ?pr k)"
    using a(1)
  proof (rule threads_inv_fields)
    show "length (processes (put_process p ?pr k)) = MAX_PROCESS_COUNT"
      using threads_invD(1) [OF a(1)] by (simp add: put_process_def)
    show "p_pid pr = q \<and> process_wf pr" if "proc_at (put_process p ?pr k) q = Some pr" for q pr
      using that a(2) threads_invD(3,4) [OF a(1)] same(2) by (auto split: if_splits)
    show "(\<exists>pr. proc_at (put_process p ?pr k) q = Some pr \<and> runnable pr t qu) \<longleftrightarrow>
        (\<exists>pr. proc_at k q = Some pr \<and> runnable pr t qu)" for q t qu
      using a(2) same(1) by auto
  qed (simp add: put_process_def)
qed (auto simp: threads_invD(1) intro: yield_inv)

section \<open>Shapes of the tables\<close>

lemma link_ops_heads:
  "link_set s th l = Ok s' \<Longrightarrow> queue_heads s' = queue_heads s"
  "link_update s th f = Ok s' \<Longrightarrow> queue_heads s' = queue_heads s"
  by (auto simp: link_set_def link_update_def link_copy_def obind_eq_Ok unwrap_eq_Ok split: if_splits)

lemma sched_ops_length:
  "ready_thread s th prio = Ok s' \<Longrightarrow> length (queue_heads s') = length (queue_heads s)"
  "park_thread s th prio = Ok s' \<Longrightarrow> length (queue_heads s') = length (queue_heads s)"
  "yield_thread s th prio = Ok s' \<Longrightarrow> length (queue_heads s') = length (queue_heads s)"
  by (auto simp: ready_thread_def park_thread_def yield_thread_def Let_def obind_eq_Ok split: if_splits option.splits
      dest!: link_ops_heads)

definition step_shape :: "proc_sched \<Rightarrow> proc_sched \<Rightarrow> bool" where
  "step_shape a b \<longleftrightarrow> p_pid (fst b) = p_pid (fst a) \<and> p_syscall_permissions (fst b) = p_syscall_permissions (fst a) \<and>
    (process_wf (fst a) \<longrightarrow> process_wf (fst b)) \<and> length (queue_heads (snd b)) = length (queue_heads (snd a))"

lemma proc_step_shape: "proc_step a b \<Longrightarrow> step_shape a b"
proof (induction rule: proc_step.induct)
  case (step_state tid st ps ps')
  then show ?case
    by (auto simp: step_shape_def set_thread_state_def sched_call_def thread_priority_of_def thread_state_of_def sbind_def
        process_wf_def split: outcome.splits prod.splits if_splits dest: sched_ops_length)
next
  case (step_priority tid prio ps ps')
  then show ?case
    by (auto simp: step_shape_def set_thread_priority_def sched_call_def thread_priority_of_def thread_state_of_def sbind_def
        process_wf_def split: outcome.splits prod.splits if_splits dest!: sched_ops_length)
qed (auto simp: step_shape_def same_threads_def)

definition table_shapes :: "'b kernel \<Rightarrow> bool" where
  "table_shapes k \<longleftrightarrow> length (processes k) = MAX_PROCESS_COUNT \<and> (\<forall>p pr. proc_at k p = Some pr \<longrightarrow> process_wf pr) \<and>
    length (servers k) = MAX_SERVER_COUNT \<and> length (queue_heads (sched k)) = NUM_PRIORITIES \<and> table_wf (ptable k) \<and>
    irq_inv (irqs k) \<and> display_inv (display k) \<and> length (panic_message k) \<le> PANIC_MESSAGE_SIZE"

interpretation shapes: kernel_invariant table_shapes
proof
  fix k :: "'a kernel" and p pr pr' s
  assume a: "table_shapes k" "proc_at k p = Some pr" "proc_step (pr, sched k) (pr', s)"
  then have "process_wf pr'" "length (queue_heads s) = NUM_PRIORITIES"
    using proc_step_shape [OF a(3)] by (auto simp: step_shape_def table_shapes_def)
  then show "table_shapes ((put_process p pr' k)\<lparr>sched := s\<rparr>)"
    using a(1,2) unfolding table_shapes_def by (auto split: if_splits) (simp_all add: put_process_def)
next
  fix k :: "'a kernel" and p m pp app
  assume "table_shapes k" "proc_at k p = None" "pid_index p < MAX_PROCESS_COUNT"
  then show "table_shapes (put_process p (process_new m p pp app) k)"
    using proc_at_create [of k p "process_new m p pp app"] process_new_wf(1) unfolding table_shapes_def
    by (auto split: if_splits) (simp_all add: put_process_def)
next
  fix k :: "'a kernel" and p pr
  assume "table_shapes k"
  then show "table_shapes (k\<lparr>processes := (processes k)[pid_index p := None]\<rparr>)"
    unfolding table_shapes_def proc_at_free by auto
next
  fix k :: "'a kernel" and p pr
  assume a: "table_shapes k" "proc_at k p = Some pr"
  then have "process_wf (pr\<lparr>p_syscall_permissions := - 1\<rparr>)" by (auto simp: table_shapes_def process_wf_def)
  then show "table_shapes (put_process p (pr\<lparr>p_syscall_permissions := - 1\<rparr>) k)"
    using a unfolding table_shapes_def by (auto split: if_splits) (simp_all add: put_process_def)
qed (auto simp: table_shapes_def dest: sched_ops_length)

section \<open>Rights\<close>

definition rights_inv :: "'b kernel \<Rightarrow> bool" where
  "rights_inv k \<longleftrightarrow> length (processes k) = MAX_PROCESS_COUNT \<and>
    (\<forall>p pr. proc_at k p = Some pr \<longrightarrow> p_syscall_permissions pr = 0 \<or> p_syscall_permissions pr = - 1)"

interpretation rights: kernel_invariant rights_inv
proof
  fix k :: "'a kernel" and p pr pr' s
  assume a: "rights_inv k" "proc_at k p = Some pr" "proc_step (pr, sched k) (pr', s)"
  then have "p_syscall_permissions pr' = p_syscall_permissions pr" using proc_step_shape [OF a(3)] by (simp add: step_shape_def)
  then show "rights_inv ((put_process p pr' k)\<lparr>sched := s\<rparr>)"
    using a(1,2) unfolding rights_inv_def by (auto split: if_splits) (simp_all add: put_process_def)
next
  fix k :: "'a kernel" and p m pp app
  assume "rights_inv k" "proc_at k p = None" "pid_index p < MAX_PROCESS_COUNT"
  then show "rights_inv (put_process p (process_new m p pp app) k)"
    using proc_at_create [of k p "process_new m p pp app"] unfolding rights_inv_def
    by (auto simp: process_new_def split: if_splits) (simp_all add: put_process_def)
next
  fix k :: "'a kernel" and p pr
  assume "rights_inv k"
  then show "rights_inv (k\<lparr>processes := (processes k)[pid_index p := None]\<rparr>)"
    unfolding rights_inv_def proc_at_free by auto
next
  fix k :: "'a kernel" and p pr
  assume "rights_inv k" "proc_at k p = Some pr"
  then show "rights_inv (put_process p (pr\<lparr>p_syscall_permissions := - 1\<rparr>) k)"
    unfolding rights_inv_def by (auto split: if_splits) (simp_all add: put_process_def)
qed (auto simp: rights_inv_def)

section \<open>Reachable states\<close>

inductive kernel_reachable :: "'b bitvec \<Rightarrow> 'b kernel \<Rightarrow> bool" for B where
  reach_start: "init_pid1 (kernel_init v mp) = (Ok (), k) \<Longrightarrow> kernel_reachable B k"
| reach_launch: "kernel_reachable B k \<Longrightarrow> launch_first_process B rnd ims d frame k = (r, k') \<Longrightarrow> r \<noteq> Panic \<Longrightarrow>
    kernel_reachable B k'"
| reach_sync: "kernel_reachable B k \<Longrightarrow> length (gpr frame) = 31 \<Longrightarrow> user_sync_handler B w esr evs frame k = (r, k') \<Longrightarrow> r \<noteq> Panic \<Longrightarrow>
    kernel_reachable B k'"
| reach_irq: "kernel_reachable B k \<Longrightarrow> length (gpr frame) = 31 \<Longrightarrow> user_irq_handler ev frame k = (r, k') \<Longrightarrow> r \<noteq> Panic \<Longrightarrow>
    kernel_reachable B k'"
| reach_kernel_irq: "kernel_reachable B k \<Longrightarrow> kernel_irq_handler ev frame k = (r, k') \<Longrightarrow> r \<noteq> Panic \<Longrightarrow>
    kernel_reachable B k'"

lemma init_wf: "threads_inv (kernel_init v mp)" "table_shapes (kernel_init v mp)" "rights_inv (kernel_init v mp)"
proof -
  have at: "proc_at (kernel_init v mp) p = None" for p by (simp add: proc_at_def kernel_init_def)
  have s: "sched (kernel_init v mp) = scheduler_init" by (simp add: kernel_init_def)
  have "ready_list scheduler_init q = []" if "q < NUM_PRIORITIES" for q using ready_list_rel [OF sched_rel_init that] .
  then show "threads_inv (kernel_init v mp)"
    unfolding threads_inv_def at s using sched_rel_inv [OF sched_rel_init] by (simp add: kernel_init_def)
  show "table_shapes (kernel_init v mp)"
    unfolding table_shapes_def at
    by (simp add: kernel_init_def scheduler_init_def table_wf_def irq_inv_init display_new_inv(1))
  show "rights_inv (kernel_init v mp)" unfolding rights_inv_def at by (simp add: kernel_init_def)
qed

lemma reachable_induct:
  assumes inv: "kernel_invariant I" and init: "\<And>v mp. I (kernel_init v mp)" and k: "kernel_reachable B k"
  shows "I k"
  using k
proof (induction rule: kernel_reachable.induct)
  case (reach_start v mp k)
  have "proc_at (kernel_init v mp) pid1 = None" by (simp add: proc_at_def kernel_init_def)
  then show ?case using kernel_invariant.init_pid1_keeps [OF inv init] reach_start by (metis holds_Ok(1))
next
  case (reach_launch k rnd ims d frame r k')
  then show ?case using holdsD [OF kernel_invariant.launch_keeps [OF inv]] by blast
next
  case (reach_sync k frame w esr evs r k')
  then show ?case using holdsD [OF kernel_invariant.user_sync_handler_keeps [OF inv]] by blast
next
  case (reach_irq k frame ev r k')
  then show ?case using holdsD [OF kernel_invariant.user_irq_keeps [OF inv]] by blast
next
  case (reach_kernel_irq k ev frame r k')
  then show ?case using holdsD [OF kernel_invariant.kernel_irq_keeps [OF inv]] by blast
qed

lemmas reachable_invs =
  reachable_induct [OF thread_queues.kernel_invariant_axioms init_wf(1)]
  reachable_induct [OF shapes.kernel_invariant_axioms init_wf(2)]
  reachable_induct [OF rights.kernel_invariant_axioms init_wf(3)]

section \<open>A booted kernel\<close>

text \<open>The state in which process 1 has been set up, on an empty memory.\<close>

definition start_kernel :: "(nat \<Rightarrow> bool) kernel" where
  "start_kernel = kernel_init \<lparr>mm = booted, ram = (\<lambda>_. 0)\<rparr> \<lparr>ttbr0 = 0, mapping_pid = 1, aslr_slide = 0\<rparr>"

definition started :: "(nat \<Rightarrow> bool) kernel" where
  "started = snd (init_pid1 start_kernel)"

lemma pid1_get [simp]: "nz_get pid1 = 1" "pid_index pid1 = 0"
  by (simp_all add: pid1_def pid_index_def)

lemma kernel_stacks:
  "stack_range KERNEL_STACK_BOTTOM KERNEL_STACK_PAGE_COUNT = Ok \<lparr>mr_addr = nz_lit 0xFFFFFFFFFFF40000, mr_size = nz_lit 0x40000\<rparr>"
  "stack_range KERNEL_IRQ_HANDLER_STACK_BOTTOM KERNEL_IRQ_HANDLER_STACK_PAGE_COUNT =
    Ok \<lparr>mr_addr = nz_lit 0xFFFFFFFFFFFD4000, mr_size = nz_lit 0x10000\<rparr>"
  by (simp_all add: stack_range_def KERNEL_STACK_BOTTOM_def KERNEL_STACK_PAGE_COUNT_def KERNEL_IRQ_HANDLER_STACK_BOTTOM_def
      KERNEL_IRQ_HANDLER_STACK_PAGE_COUNT_def memory_range_new_def PAGE_SIZE_def nz_new_def)

lemma kernel_stack_top:
  "checked_add (as_ptr \<lparr>mr_addr = nz_lit 0xFFFFFFFFFFF40000, mr_size = nz_lit 0x40000\<rparr>)
     (memory_range_len \<lparr>mr_addr = nz_lit 0xFFFFFFFFFFF40000, mr_size = nz_lit 0x40000\<rparr>) = Some 0xFFFFFFFFFFF80000"
  by (simp add: checked_add_def as_ptr_def memory_range_len_def)

definition first_impl :: process_impl where
  "first_impl = update_thread 0 (\<lambda>t. (set_sp 0xFFFFFFFFFFF80000 (set_pc 0 (t\<lparr>allocated := True\<rparr>)))\<lparr>ctx_spsr := 0\<rparr>) process_impl_new"

definition first_process :: process where
  "first_process = (process_new \<lparr>ttbr0 = 0, mapping_pid = 1, aslr_slide = 0\<rparr> pid1 pid1 (app_id_from_words 0x31444950 0 0 0))\<lparr>
     p_name := Some ([0x6B, 0x65, 0x72, 0x6E, 0x65, 0x6C] @ replicate 58 0),
     p_threads := (replicate MAX_THREAD_COUNT TFree)[1 := TReady], p_priorities := (replicate MAX_THREAD_COUNT AppDefault)[1 := Idle],
     p_syscall_permissions := - 1\<rparr>"

lemmas init_simps =
  init_pid1_def start_kernel_def kernel_init_def Let_def set_thread_priority_def set_thread_state_def thread_priority_of_def
  thread_state_of_def process_new_def sched_call_def ready_thread_def scheduler_init_def set_name_def process_name_def
  INITIAL_TID_def IRQ_TID_def MAX_THREAD_COUNT_def MAX_PROCESS_COUNT_def MAX_PROCESS_NAME_LEN_def NUM_PRIORITIES_def
  link_set_def link_index_ok_def kernel_stacks kernel_stack_top unwrap_result_def on_ptable_def setup_process_def
  table_slot_def table_put_def first_impl_def first_process_def

lemma init_pid1_start: "init_pid1 start_kernel = (Ok (), started)"
  by (simp add: started_def init_simps)

lemma started_fields:
  "ptable started = (replicate MAX_PROCESS_COUNT None)[0 := Some first_impl]" "servers started = replicate MAX_SERVER_COUNT None"
  "irqs started = irq_table_init" "display started = display_new" "cur_pid started = pid1"
  "processes started = (replicate MAX_PROCESS_COUNT None)[0 := Some first_process]" 
  "sched started = \<lparr>queue_heads = (replicate NUM_PRIORITIES None)[0 := Some (pid1, 1)],
     links = [(pid1, 1) \<mapsto> \<lparr>link_next = (pid1, 1), link_prev = (pid1, 1)\<rparr>], highest_ready_priority = 0, in_irq_handler = False\<rparr>"
  by (simp_all add: started_def init_simps)

lemma first_impl_wf: "length (threads first_impl) = MAX_THREAD_COUNT" "current_thread first_impl = 1"
  by (simp_all add: first_impl_def process_impl_new_def update_thread_def INITIAL_TID_def)

lemma started_process: "proc_at started pid1 = Some first_process" "current_process started = Ok first_process"
  by (simp_all add: current_process_iff proc_at_def started_fields MAX_PROCESS_COUNT_def)

lemma first_process_runnable: "runnable first_process 1 0"
  by (simp add: runnable_def first_process_def MAX_THREAD_COUNT_def)

lemma started_reachable: "kernel_reachable B started"
  using init_pid1_start unfolding start_kernel_def by (rule reach_start)

lemma started_inv: "threads_inv started" "table_shapes started"
  using reachable_invs(1,2) [OF started_reachable] .

section \<open>Properties\<close>

text \<open>
  Property C1: in every state the kernel can reach, whatever system calls, faults and
  interrupts have happened, the scheduler's linked queues are consistent and the ready queue of
  each priority contains exactly the threads of existing processes that are in state
  \<open>Ready\<close> and have that priority.
\<close>

theorem ready_queues_hold_ready_threads:
  assumes "kernel_reachable B k"
  shows "sched_inv (sched k) \<and> (\<forall>p tid q. q < NUM_PRIORITIES \<longrightarrow>
    ((p, tid) \<in> set (ready_list (sched k) q) \<longleftrightarrow> (\<exists>pr. proc_at k p = Some pr \<and> runnable pr tid q)))"
  using reachable_invs(1) [OF assms] by (simp add: threads_inv_def)

theorem ready_queues_hold_ready_threads_witness: "(pid1, 1) \<in> set (ready_list (sched started) 0)"
  using ready_queues_hold_ready_threads [OF started_reachable] started_process(1) first_process_runnable
  by (auto simp: NUM_PRIORITIES_def)

text \<open>
  Property C10: in every state the kernel can reach, all tables have their fixed sizes: 64
  process slots with 32 threads, futures and mailboxes and 32 connections each, 128 server slots,
  a ready queue per priority, 64 tables of 32 saved contexts of 31 registers, the
  interrupt table, the two ring buffers of the display with their indices in range, and at
  most 1024 bytes of panic message.
\<close>

theorem kernel_tables_well_typed: "kernel_reachable B k \<Longrightarrow> table_shapes k"
  by (rule reachable_invs(2))

theorem kernel_tables_well_typed_witness: "table_shapes started"
  by (rule kernel_tables_well_typed [OF started_reachable])

end
