(* ===== verification/Kernel_Guarantees.thy ===== *)
theory Kernel_Guarantees
  imports Kernel_Properties
begin

text \<open>
  What the running kernel guarantees to its processes: the choice of the next thread ends,
  system calls are granted to a process as a whole, contexts survive traps, replies reach
  the thread that waits for them and a terminated process leaves nothing in the queues; the
  calls and faults with which a process stops the kernel; and the client of a destroyed server,
  which is left waiting.
\<close>

section \<open>Two processes\<close>

text \<open>A second process is running, a child of the first whose threads have not been started.\<close>

definition pid2 :: pid where "pid2 = nz_lit 2"

definition second_process :: process where
  "second_process = process_new \<lparr>ttbr0 = 0x1000, mapping_pid = 2, aslr_slide = 0\<rparr> pid2 pid1 (app_id_from_words 2 0 0 0)"

definition second_running :: "(nat \<Rightarrow> bool) kernel" where
  "second_running = (put_process pid2 second_process started)\<lparr>ptable := (ptable started)[1 := Some process_impl_new],
     kvm := (kvm started)\<lparr>mm := (mm (kvm started))\<lparr>allocations := []\<rparr>\<rparr>, cur_pid := pid2\<rparr>"

lemma pid2_index [simp]: "nz_get pid2 = 2" "pid_index pid2 = 1"
  by (simp_all add: pid2_def pid_index_def)

lemma pid2_not_pid1 [simp]: "pid2 \<noteq> pid1" "pid1 \<noteq> pid2"
  using pid2_index(2) pid1_get(2) by (metis zero_neq_one)+

lemma second_running_inv: "threads_inv second_running"
proof -
  have "threads_inv (put_process pid2 second_process started)"
    unfolding second_process_def
    by (rule thread_queues.create_law [OF started_inv(1)]) (simp_all add: proc_at_def started_fields MAX_PROCESS_COUNT_def)
  then show ?thesis by (simp add: second_running_def threads_inv_def)
qed

lemma second_running_process: "proc_at second_running pid2 = Some second_process" "current_process second_running = Ok second_process"
  by (simp_all add: current_process_iff proc_at_def second_running_def put_process_def started_fields MAX_PROCESS_COUNT_def)

lemma leave_servers_none: "(\<forall>i \<in> set is. servers k ! i = None) \<Longrightarrow> leave_servers B p is k = (Ok (), k)"
  by (induction "is") auto

lemma replicate_update_same [simp]: "(replicate n x)[t := x] = replicate n x"
  by (cases "t < n") (simp_all add: list_update_same_conv list_update_beyond)

lemma free_threads_idle:
  assumes "process_wf pr" "p_kernel_futures pr = replicate MAX_THREAD_COUNT None" "p_result_mailbox pr = replicate MAX_THREAD_COUNT None"
  shows "list_all (\<lambda>t. t < MAX_THREAD_COUNT \<and> p_threads pr ! t = TFree) ts \<Longrightarrow> free_threads ts (pr, s) = (Ok (), (pr, s))"
proof (induction ts)
  case (Cons t ts)
  have idle: "(p_threads pr)[t := TFree] = p_threads pr" using Cons.prems by (simp add: list_update_same_conv assms(1) [unfolded process_wf_def])
  have same: "pr\<lparr>p_kernel_futures := replicate MAX_THREAD_COUNT None, p_result_mailbox := replicate MAX_THREAD_COUNT None\<rparr> = pr"
    using assms(2,3) by (cases pr) simp
  show ?case
    using Cons assms by (simp add: idle same set_thread_state_def thread_priority_of_def thread_state_of_def process_wf_def)
qed simp

lemma release_irqs_free: "list_all (\<lambda>i. handlers t ! i = IrqFree) is \<Longrightarrow> release_irqs p is t = (Ok (), t)"
  by (induction "is") auto

lemma second_terminates: "\<exists>k. terminate_current_process fun_bits 0 second_running = (Ok ResumeProcess, k)"
proof -
  let ?k = second_running
  have wf: "process_wf second_process" unfolding second_process_def by (rule process_new_wf)
  have "leave_servers fun_bits pid2 [0 ..< length (servers ?k)] ?k = (Ok (), ?k)"
    by (rule leave_servers_none) (simp add: second_running_def put_process_def started_fields)
  moreover have "send_event pid1 ChildTerminated as ?k = (Ok (), ?k)" for as
    by (simp add: send_event_def process_of_def get_event_handler_def Let_def second_running_def put_process_def started_fields
        MAX_PROCESS_COUNT_def first_process_def process_new_def NUM_SYSTEM_EVENTS_def)
  moreover have "exit_waiters ?k pid2 = []"
    by (simp add: exit_waiters_def second_running_def put_process_def started_fields MAX_PROCESS_COUNT_def first_process_def
        second_process_def process_new_def kernel_future_of_def List.map_filter_def numeral_eq_Suc)
  moreover have "release_display_on_exit fun_bits pid2 ?k = (Ok (), ?k)"
    by (simp add: release_display_on_exit_def second_running_def put_process_def started_fields display_new_def owner_pid_def)
  moreover have "process_terminate fun_bits pid2 ?k = (Ok (), ?k\<lparr>ptable := (ptable ?k)[1 := None]\<rparr>)"
  proof -
    have "free_threads [1 ..< MAX_THREAD_COUNT] (second_process, sched ?k) = (Ok (), (second_process, sched ?k))"
      by (rule free_threads_idle [OF wf]) (auto simp: second_process_def process_new_def list_all_iff)
    moreover have "release_interrupts_for_pid pid2 (irqs ?k) = (Ok (), irqs ?k)"
      unfolding release_interrupts_for_pid_def
      by (rule release_irqs_free) (auto simp: second_running_def put_process_def started_fields irq_table_init_def list_all_iff)
    moreover have "process_of ?k pid2 = Ok second_process" "put_process pid2 second_process ?k\<lparr>sched := sched ?k\<rparr> = ?k"
      "?k\<lparr>irqs := irqs ?k\<rparr> = ?k" "?k\<lparr>kvm := (kvm ?k)\<lparr>mm := mm (kvm ?k)\<rparr>\<rparr> = ?k"
      using second_running_process(1) by (simp_all add: process_of_iff) (simp add: second_running_def put_process_def)
    moreover have "release_all_memory_for_process fun_bits (mm (kvm ?k)) q = (Ok (), mm (kvm ?k))" for q
      by (simp add: release_all_memory_for_process_def second_running_def)
    moreover have "p_pid second_process = pid2" "table_slot (ptable ?k) pid2 = Ok (Some process_impl_new)"
      by (simp_all add: second_process_def process_new_def second_running_def started_fields table_slot_def MAX_PROCESS_COUNT_def)
    ultimately show ?thesis
      by (simp add: process_terminate_def with_proc_sched_def on_mm_def low_memory_events_def on_irqs_def on_ptable_def arch_destroy_def table_put_def)
  qed
  moreover obtain k' where "sbind (free_process pid2 (?k\<lparr>ptable := (ptable ?k)[1 := None]\<rparr>)) (\<lambda>_ k.
       sbind (unwrap_result (process_of k pid1, k)) (\<lambda>idle k.
       activate_current (orphan_children pid2 (activate_process idle k)))) = (Ok ResumeProcess, k')"
    by (simp add: free_process_def process_of_def second_running_def put_process_def started_fields MAX_PROCESS_COUNT_def unwrap_result_def
        activate_process_def orphan_children_def activate_current_def activate_fuel_def next_thread_def NUM_PRIORITIES_def with_process_def
        take_kernel_future_def first_process_def process_new_def MAX_THREAD_COUNT_def switch_to_def current_tid_def first_impl_wf
        activate_loop.simps(2) [where n = 2048, simplified])
  moreover have "cur_pid ?k = pid2" "p_ppid second_process = Some pid1"
    by (simp_all add: second_running_def second_process_def process_new_def)
  ultimately show ?thesis
    using second_running_process(2) by (simp add: terminate_current_process_def Let_def drop_error_def)
qed

section \<open>The choice of the next thread\<close>

definition ready_threads :: "'b kernel \<Rightarrow> thread set" where
  "ready_threads k = {(p, t). \<exists>pr. proc_at k p = Some pr \<and> 1 \<le> t \<and> t < MAX_THREAD_COUNT \<and> p_threads pr ! t = TReady}"

lemma ready_threads_bound:
  assumes "length (processes k) = MAX_PROCESS_COUNT"
  shows "finite (ready_threads k)" "card (ready_threads k) < activate_fuel"
proof -
  let ?A = "pid_at ` {..<MAX_PROCESS_COUNT} \<times> {..<MAX_THREAD_COUNT}"
  have pid: "p \<in> pid_at ` {..<MAX_PROCESS_COUNT}" if "proc_at k p = Some pr" for p pr
  proof -
    have "pid_index p < MAX_PROCESS_COUNT" using that assms by (auto simp: proc_at_def split: if_splits)
    moreover from this have "p = pid_at (pid_index p)" using pid_index_at pid_index_inject by metis
    ultimately show ?thesis by blast
  qed
  then have sub: "ready_threads k \<subseteq> ?A" by (auto simp: ready_threads_def)
  then show "finite (ready_threads k)" by (rule finite_subset) simp
  have "card (ready_threads k) \<le> card ?A" using sub by (rule card_mono [rotated]) simp
  also have "\<dots> \<le> MAX_PROCESS_COUNT * MAX_THREAD_COUNT"
    using card_image_le [of "{..<MAX_PROCESS_COUNT}" pid_at] by (simp add: card_cartesian_product)
  finally show "card (ready_threads k) < activate_fuel" by (simp add: activate_fuel_def)
qed

lemma ready_threads_put:
  assumes "proc_at k p = Some pr" "p_threads pr' = p_threads pr"
  shows "ready_threads (put_process p pr' k) = ready_threads k"
  using assms by (auto simp: ready_threads_def split: if_splits)

lemma ready_threads_other [simp]:
  "ready_threads (k\<lparr>sched := s\<rparr>) = ready_threads k" "ready_threads (k\<lparr>servers := v\<rparr>) = ready_threads k"
  by (simp_all add: ready_threads_def)

lemma next_thread_ready:
  assumes "threads_inv k" "next_thread (sched k) = Some th"
  shows "th \<in> ready_threads k"
proof -
  have "highest_head (ready_list (sched k)) = Some th" using next_thread_rel [OF threads_invD(2) [OF assms(1)]] assms(2) by simp
  then obtain i where "i < NUM_PRIORITIES" "th = hd (ready_list (sched k) (NUM_PRIORITIES - Suc i))"
    "ready_list (sched k) (NUM_PRIORITIES - Suc i) \<noteq> []"
    unfolding highest_head_def by (auto simp: find_Some_iff rev_nth split: option.splits)
  then obtain q where q: "q < NUM_PRIORITIES" "th = hd (ready_list (sched k) q)" "ready_list (sched k) q \<noteq> []"
    using that [of "NUM_PRIORITIES - Suc i"] by simp
  then have "th \<in> set (ready_list (sched k) q)" by simp
  then show ?thesis
    using threads_invD(5) [OF assms(1) q(1), of "fst th" "snd th"] by (auto simp: ready_threads_def runnable_def)
qed

lemma poll_pending:
  assumes "poll f p tid k = (Ok PollPending, k')"
  shows "ready_threads k' = ready_threads k"
proof -
  have mb: "ready_threads k' = ready_threads k" if "poll_mailbox p tid k = (Ok PollPending, k')"
    using that by (auto simp: poll_mailbox_def process_of_iff take_mailbox_def split: outcome.splits option.splits prod.splits if_splits
        intro!: ready_threads_put)
  have rm: "ready_threads k' = ready_threads k" if "poll_receive_message p sidx k = (Ok PollPending, k')" for sidx
    using that by (auto simp: poll_receive_message_def with_server_def put_server_def wake_senders_def sbind_def
        split: outcome.splits option.splits prod.splits if_splits)
  show ?thesis using assms mb rm by (cases f) auto
qed


lemma park_ready_threads:
  assumes "proc_at k p = Some pr" "length (p_threads pr) = MAX_THREAD_COUNT" "t < MAX_THREAD_COUNT" "1 \<le> t"
    and "p_threads pr' = (p_threads pr)[t := st]" "st \<noteq> TReady"
  shows "ready_threads (put_process p pr' k) = ready_threads k - {(p, t)}"
  using assms by (auto simp: ready_threads_def nth_list_update split: if_splits)


lemma unwrap_result_Ok [simp]: "unwrap_result m = (Ok x, s) \<longleftrightarrow> m = (Ok x, s)"
  by (cases m; cases "fst m") (auto simp: unwrap_result_def)

text \<open>One turn of the loop in \<open>activate_current\<close> that finds its thread still waiting parks it.\<close>

definition take_future :: "pid \<Rightarrow> nat \<Rightarrow> 'b kernel \<Rightarrow> kernel_future option kresult \<times> 'b kernel" where
  "take_future p tid = with_process p (\<lambda>pr. case take_kernel_future tid pr of (f, pr') \<Rightarrow> (Ok f, pr'))"

definition park_again :: "kernel_future \<Rightarrow> pid \<Rightarrow> nat \<Rightarrow> 'b kernel \<Rightarrow> unit kresult \<times> 'b kernel" where
  "park_again kf p tid = with_proc_sched p (\<lambda>ps.
     set_thread_state tid (thread_state.WaitEvent (suspension_mask kf)) (set_kernel_future tid kf (fst ps), snd ps))"

lemma take_future_ready: "take_future p tid k = (Ok f, k1) \<Longrightarrow> ready_threads k1 = ready_threads k"
  by (auto simp: take_future_def with_process_def process_of_iff take_kernel_future_def sbind_def
      split: outcome.splits prod.splits if_splits intro!: ready_threads_put)

lemma park_again_ready:
  assumes "threads_inv k" "park_again kf p tid k = (Ok (), k')" "1 \<le> tid"
  shows "ready_threads k' = ready_threads k - {(p, tid)}"
proof -
  obtain pr pr' s where at: "proc_at k p = Some pr"
    and st: "set_thread_state tid (thread_state.WaitEvent (suspension_mask kf)) (set_kernel_future tid kf pr, sched k) = (Ok (), (pr', s))"
    and k': "k' = (put_process p pr' k)\<lparr>sched := s\<rparr>"
    using assms(2) by (auto simp: park_again_def with_proc_sched_def process_of_iff sbind_def split: outcome.splits prod.splits)
  have wf: "length (p_threads pr) = MAX_THREAD_COUNT" using threads_invD(4) [OF assms(1) at] by (simp add: process_wf_def)
  have p: "p_threads (set_kernel_future tid kf pr) = p_threads pr" by (simp add: set_kernel_future_def)
  show ?thesis
    using park_ready_threads [OF at wf _ assms(3), of pr' "thread_state.WaitEvent (suspension_mask kf)"] set_thread_state_threads [OF st] wf
    by (simp add: k' p)
qed

lemma activate_turn:
  assumes inv: "threads_inv k" and nx: "next_thread (sched k) = Some (p, tid)" and tk: "take_future p tid k = (Ok f, k1)"
    and po: "poll kf p tid k1 = (Ok PollPending, k2)" and pk: "park_again kf p tid k2 = (Ok (), k3)"
  shows "threads_inv k3" "card (ready_threads k3) < card (ready_threads k)"
proof -
  have "threads_inv k1" using holdsD [OF thread_queues.take_future_keeps [OF inv] tk [unfolded take_future_def]] by simp
  then have k2: "threads_inv k2" using holdsD [OF thread_queues.poll_keeps po] by simp
  have "holds threads_inv (park_again kf p tid k2)"
    unfolding park_again_def using k2 by (auto intro!: thread_queues.with_proc_sched_keeps keeps step_fields)
  then show "threads_inv k3" using pk by simp
  have mem: "(p, tid) \<in> ready_threads k" using next_thread_ready [OF inv nx] .
  then have "1 \<le> tid" by (auto simp: ready_threads_def)
  then have "ready_threads k3 = ready_threads k - {(p, tid)}"
    using park_again_ready [OF k2 pk] poll_pending [OF po] take_future_ready [OF tk] by simp
  with mem show "card (ready_threads k3) < card (ready_threads k)"
    using card_Diff1_less [OF ready_threads_bound(1) [OF threads_invD(1) [OF inv]]] by metis
qed

lemma activate_enough:
  "threads_inv k \<Longrightarrow> card (ready_threads k) < n \<Longrightarrow> activate_loop (n + m) cp ct k = activate_loop n cp ct k"
proof (induction n arbitrary: k)
  case (Suc n)
  have eq: "activate_loop (n + m) cp ct k3 = activate_loop n cp ct k3"
    if "next_thread (sched k) = Some (p, tid)" "take_future p tid k = (Ok f, k1)" "poll kf p tid k1 = (Ok PollPending, k2)"
      "park_again kf p tid k2 = (Ok (), k3)" for p tid f k1 kf k2 k3
    using activate_turn [OF Suc.prems(1) that] Suc.IH [of k3] Suc.prems(2) by simp
  show ?case
    unfolding add_Suc activate_loop.simps take_future_def [symmetric] park_again_def [symmetric]
    by (auto simp: sbind_def intro: eq split: option.split prod.split outcome.split poll_result.split)
qed simp

inductive parking_turn :: "'b kernel \<Rightarrow> 'b kernel \<Rightarrow> bool" where
  "next_thread (sched k) = Some (p, tid) \<Longrightarrow> take_future p tid k = (Ok (Some kf), k1) \<Longrightarrow>
    poll kf p tid k1 = (Ok PollPending, k2) \<Longrightarrow> park_again kf p tid k2 = (Ok (), k3) \<Longrightarrow> parking_turn k k3"

lemma parking_turns_bound: "(parking_turn ^^ n) k k' \<Longrightarrow> threads_inv k \<Longrightarrow> n \<le> card (ready_threads k)"
proof (induction n arbitrary: k)
  case (Suc n)
  then obtain k1 where k1: "parking_turn k k1" "(parking_turn ^^ n) k1 k'" by (metis relpowp_Suc_D2)
  from k1(1) have "threads_inv k1" "card (ready_threads k1) < card (ready_threads k)"
    using activate_turn Suc.prems(2) by (auto elim!: parking_turn.cases)
  then show ?case using Suc.IH [OF k1(2)] by simp
qed simp

text \<open>
  Property C11: the choice of the next thread always ends.  A turn of the loop in
  \<open>activate_current\<close> that does not return parks one ready thread, so that there is at most one such
  turn per ready thread; and the loop with any larger number of turns behaves as the loop
  with the model's bound.
\<close>

theorem choosing_a_thread_ends:
  assumes "kernel_reachable B k"
  shows "((parking_turn ^^ n) k k' \<longrightarrow> n \<le> card (ready_threads k) \<and> n < activate_fuel) \<and>
    activate_loop (activate_fuel + m) cp ct k = activate_loop activate_fuel cp ct k"
proof -
  have inv: "threads_inv k" by (rule reachable_invs(1) [OF assms])
  note bound = ready_threads_bound(2) [OF threads_invD(1) [OF inv]]
  show ?thesis using parking_turns_bound [OF _ inv] activate_enough [OF inv bound] bound by (meson le_less_trans)
qed

theorem choosing_a_thread_ends_witness: "activate_loop (activate_fuel + 1) pid1 1 started = activate_loop activate_fuel pid1 1 started"
  using choosing_a_thread_ends [OF started_reachable] by blast

section \<open>Terminated processes\<close>

definition gone :: "pid \<Rightarrow> 'b kernel \<Rightarrow> bool" where
  "gone p k \<longleftrightarrow> length (processes k) = MAX_PROCESS_COUNT \<and> proc_at k p = None"

interpretation departed: kernel_events "gone p" for p
proof
  fix k :: "'a kernel" and q pr pr' s
  assume "gone p k" "proc_at k q = Some pr"
  then show "gone p ((put_process q pr' k)\<lparr>sched := s\<rparr>)" by (auto simp: gone_def) (simp add: put_process_def)
qed (auto simp: gone_def)

lemma sbind_OkE:
  assumes "sbind m f = (Ok r, k')" "holds I m"
  obtains a s where "m = (Ok a, s)" "I s" "f a s = (Ok r, k')"
  using assms by (cases m; cases "fst m") auto

lemma orphan_gone: "gone p k \<Longrightarrow> gone p (orphan_children q k)"
  by (auto simp: gone_def orphan_children_def proc_at_def split: if_splits)

lemma free_process_gone: "length (processes k) = MAX_PROCESS_COUNT \<Longrightarrow> holds (gone p) (free_process p k)"
  by (auto simp: free_process_def gone_def proc_at_free)

text \<open>
  Property C14: a process that ends itself leaves the kernel entirely: when the call completes
  the slot of the process is empty and none of its threads
  is in a ready queue.
\<close>

theorem terminated_process_is_gone:
  assumes inv: "threads_inv k" and "terminate_current_process B ret k = (Ok r, k')"
  shows "proc_at k' (cur_pid k) = None \<and> (\<forall>tid q. q < NUM_PRIORITIES \<longrightarrow> (cur_pid k, tid) \<notin> set (ready_list (sched k') q))"
proof -
  let ?p = "cur_pid k"
  have k': "threads_inv k'" using thread_queues.terminate_current_process_keeps [OF inv, of B ret] assms(2) by simp
  define F where "F p k = sbind (free_process p k) (\<lambda>_ k. sbind (unwrap_result (process_of k pid1, k)) (\<lambda>idle k.
    activate_current (orphan_children p (activate_process idle k))))" for p and k :: "'a kernel"
  obtain k1 where k1: "threads_inv k1" "F ?p k1 = (Ok r, k')"
    using assms(2) inv unfolding terminate_current_process_def Let_def F_def [symmetric]
    by (auto split: if_splits elim!: sbind_OkE [where I = threads_inv] intro!: keeps)
  moreover have "holds (gone ?p) (F ?p k1)"
    unfolding F_def using free_process_gone [OF threads_invD(1) [OF k1(1)], of ?p] by (auto intro!: keeps orphan_gone)
  ultimately have "proc_at k' ?p = None" by (simp add: gone_def)
  then show ?thesis using threads_invD(5) [OF k'] by simp
qed

theorem terminated_process_is_gone_witness:
  "\<exists>k. terminate_current_process fun_bits 0 second_running = (Ok ResumeProcess, k) \<and> proc_at second_running pid2 \<noteq> None \<and> proc_at k pid2 = None"
proof -
  obtain k where k: "terminate_current_process fun_bits 0 second_running = (Ok ResumeProcess, k)" using second_terminates by blast
  show ?thesis
    using k terminated_process_is_gone [OF second_running_inv k] second_running_process(1) by (simp add: second_running_def)
qed

section \<open>Replies\<close>

lemma set_thread_result_processes:
  "set_thread_result p t r k = (x, k1) \<Longrightarrow> processes k1 = processes k \<and> sched k1 = sched k"
  by (auto simp: set_thread_result_def Let_def on_ptable_def activate_process_def sbind_def unwrap_result_def
      split: if_splits prod.splits outcome.splits)

lemma set_thread_state_process:
  "set_thread_state tid st ps = (Ok (), ps') \<Longrightarrow> fst ps' = (fst ps)\<lparr>p_threads := (p_threads (fst ps))[tid := st]\<rparr>"
  by (auto simp: set_thread_state_def sched_call_def thread_priority_of_def thread_state_of_def sbind_def
      split: outcome.splits prod.splits if_splits)

lemma set_state_total:
  assumes inv: "threads_inv k" and pr: "proc_at k p = Some pr" and tid: "1 \<le> tid" "tid < MAX_THREAD_COUNT"
  shows "\<exists>s. set_thread_state tid st (pr, sched k) = (Ok (), (pr\<lparr>p_threads := (p_threads pr)[tid := st]\<rparr>, s))"
proof -
  note D = threads_invD [OF inv]
  let ?Q = "ready_list (sched k)" and ?prio = "p_priorities pr ! tid" and ?th = "(p, tid)" and ?old = "p_threads pr ! tid"
  have wf: "p_pid pr = p" "length (p_threads pr) = MAX_THREAD_COUNT" "length (p_priorities pr) = MAX_THREAD_COUNT"
    using D(3,4) pr by (auto simp: process_wf_def)
  have ok: "link_index_ok ?th" using runnable_link_ok [OF inv pr] tid by simp
  have inQ: "?th \<in> set (?Q q) \<longleftrightarrow> ?old = TReady \<and> priority_index ?prio = q" if "q < NUM_PRIORITIES" for q
    using D(5) [OF that] pr tid by (auto simp: runnable_def)
  have "\<exists>s. park_thread (sched k) ?th ?prio = Ok s" if "?old = TReady"
    using sched_apply_rel [OF D(2), of "ParkOp ?th ?prio"] inQ ok that by (auto simp: list_all_iff)
  moreover have "\<exists>s. ready_thread (sched k) ?th ?prio = Ok s" if "?old \<noteq> TReady"
    using sched_apply_rel [OF D(2), of "ReadyOp ?th ?prio"] inQ ok that by (auto simp: list_all_iff)
  ultimately show ?thesis
    using wf tid(2) by (auto simp: set_thread_state_def sched_call_def thread_priority_of_def thread_state_of_def)
qed

lemma ready_threads_wake:
  assumes "proc_at k p = Some pr" "length (p_threads pr) = MAX_THREAD_COUNT" "tid < MAX_THREAD_COUNT" "1 \<le> tid"
    and "p_threads pr' = (p_threads pr)[tid := TReady]"
  shows "(p, tid) \<in> ready_threads ((put_process p pr' k)\<lparr>sched := s\<rparr>)"
  using assms by (simp add: ready_threads_def)

text \<open>
  Property C13: a reply wakes the thread it is for.  For a thread that is suspended on any
  future other than the reception of a message, \<open>wake_thread_with_result\<close> succeeds, the
  thread is ready afterwards, and its future is ready with exactly that result when the
  scheduler polls it.
\<close>

theorem reply_reaches_the_waiting_thread:
  assumes inv: "threads_inv k" and pr: "proc_at k p = Some pr" and tid: "1 \<le> tid" "tid < MAX_THREAD_COUNT"
    and fut: "p_kernel_futures pr ! tid = Some kf" "\<not> (\<exists>sidx. kf = FReceiveMessage sidx)"
  shows "\<exists>k1 k2. wake_thread_with_result p tid r k = (Ok (), k1) \<and> (p, tid) \<in> ready_threads k1 \<and>
    poll kf p tid k1 = (Ok (PollReady (Ok r)), k2)"
proof -
  let ?pr = "set_mailbox tid r pr"
  have wf: "process_wf pr" using threads_invD(4) [OF inv pr] .
  have "threads_inv (put_process p ?pr k)"
    by (rule thread_queues.put_same [OF inv pr]) simp
  moreover have "proc_at (put_process p ?pr k) p = Some ?pr" "sched (put_process p ?pr k) = sched k"
    using pr by (simp, simp add: put_process_def)
  ultimately obtain s where s: "set_thread_state tid TReady (?pr, sched k) = (Ok (), (?pr\<lparr>p_threads := (p_threads ?pr)[tid := TReady]\<rparr>, s))"
    using set_state_total [of "put_process p ?pr k" p ?pr tid TReady] tid by auto
  let ?pr1 = "?pr\<lparr>p_threads := (p_threads ?pr)[tid := TReady]\<rparr>"
  let ?k1 = "(put_process p ?pr1 k)\<lparr>sched := s\<rparr>"
  have "wake_thread_with_result p tid r k = (Ok (), ?k1)"
    using pr fut tid(2) s
    by (simp add: wake_thread_with_result_def process_of_iff [THEN iffD2] has_kernel_future_def with_proc_sched_def)
  moreover have "(p, tid) \<in> ready_threads ?k1"
    using pr wf tid by (intro ready_threads_wake) (auto simp: process_wf_def set_mailbox_def)
  moreover have "proc_at ?k1 p = Some ?pr1" using pr by simp
  then have "\<exists>k2. poll_mailbox p tid ?k1 = (Ok (PollReady (Ok r)), k2)"
    using wf tid(2) by (auto simp: poll_mailbox_def process_of_iff [THEN iffD2] take_mailbox_def set_mailbox_def process_wf_def)
  then have "\<exists>k2. poll kf p tid ?k1 = (Ok (PollReady (Ok r)), k2)" using fut(2) by (cases kf) auto
  ultimately show ?thesis by blast
qed

text \<open>The thread of the first process waits for an answer.\<close>

definition first_waiting :: "(nat \<Rightarrow> bool) kernel" where
  "first_waiting = put_process pid1 (set_kernel_future 1 FWaitBlocking first_process) started"

lemma first_waiting_inv: "threads_inv first_waiting"
  unfolding first_waiting_def by (rule thread_queues.put_same [OF started_inv(1) started_process(1)]) simp

lemma first_waiting_process: "proc_at first_waiting pid1 = Some (set_kernel_future 1 FWaitBlocking first_process)"
  by (simp add: first_waiting_def started_process)

lemma first_process_waits:
  "p_kernel_futures (set_kernel_future 1 FWaitBlocking first_process) ! 1 = Some FWaitBlocking"
  "p_result_mailbox (set_kernel_future 1 FWaitBlocking first_process) ! 1 = None"
  by (simp_all add: set_kernel_future_def first_process_def process_new_def MAX_THREAD_COUNT_def)

theorem reply_reaches_the_waiting_thread_witness:
  "\<exists>k1 k2. wake_thread_with_result pid1 1 RespOk first_waiting = (Ok (), k1) \<and> (pid1, 1) \<in> ready_threads k1 \<and>
     poll FWaitBlocking pid1 1 k1 = (Ok (PollReady (Ok RespOk)), k2)"
  by (rule reply_reaches_the_waiting_thread [OF first_waiting_inv first_waiting_process _ _ first_process_waits(1)])
    (simp_all add: MAX_THREAD_COUNT_def)

text \<open>A thread that waits for an answer: its future is in place and its mailbox is empty.\<close>

definition awaits_reply :: "pid \<Rightarrow> nat \<Rightarrow> 'b kernel \<Rightarrow> bool" where
  "awaits_reply p t k \<longleftrightarrow> (\<exists>pr. proc_at k p = Some pr \<and> p_pid pr = p \<and> process_wf pr \<and>
    p_kernel_futures pr ! t = Some FWaitBlocking \<and> p_result_mailbox pr ! t = None)"

text \<open>The argument registers in the context saved for a thread.\<close>

definition saved_args :: "pid \<Rightarrow> nat \<Rightarrow> 'b kernel \<Rightarrow> usize list option" where
  "saved_args p t k =
    (case table_slot (ptable k) p of
       Ok (Some pi) \<Rightarrow> if impl_wf pi then Some (get_args (threads pi ! (t - 1))) else None
     | _ \<Rightarrow> None)"

text \<open>
  The state of the client while the server is destroyed: it waits for its answer, and once its
  entry of the queue has been handled it is ready (\<open>ready\<close>) and has the error in its
  registers (\<open>told\<close>).
\<close>

definition client_state :: "pid \<Rightarrow> nat \<Rightarrow> bool \<Rightarrow> bool \<Rightarrow> 'b kernel \<Rightarrow> bool" where
  "client_state p t ready told k \<longleftrightarrow> awaits_reply p t k \<and> saved_args p t k \<noteq> None \<and>
    (ready \<longrightarrow> (\<exists>pr. proc_at k p = Some pr \<and> p_threads pr ! t = TReady)) \<and>
    (told \<longrightarrow> saved_args p t k = Some (to_args (RespError ServerNotFound)))"

lemma client_state_fields [simp]:
  "client_state p t a b (k\<lparr>kvm := v\<rparr>) = client_state p t a b k" "client_state p t a b (k\<lparr>cur_pid := c\<rparr>) = client_state p t a b k"
  "client_state p t a b (k\<lparr>cur_map := mp\<rparr>) = client_state p t a b k" "client_state p t a b (k\<lparr>sched := s\<rparr>) = client_state p t a b k"
  by (simp_all add: client_state_def awaits_reply_def saved_args_def)

lemma activate_client [simp]: "client_state p t a b (activate_process pr k) = client_state p t a b k"
  by (simp add: activate_process_def)

lemma get_set_args: "length args = 8 \<Longrightarrow> length (gpr c) = 31 \<Longrightarrow> get_args (set_args args c) = args"
  by (auto simp: get_args_def set_args_def arg_registers_def nth_list_update intro!: nth_equalityI dest!: less_Suc_eq [THEN iffD1] simp: numeral_eq_Suc less_Suc_eq)

lemma error_args: "length (to_args (RespError ServerNotFound)) = 8"
  by simp

lemma result_keeps_client:
  assumes c: "client_state p t a b k" and t: "1 \<le> t" "t < MAX_THREAD_COUNT"
  shows "holds (client_state p t a b) (on_ptable (arch_set_thread_result q u (RespError ServerNotFound)) k)"
    "holds (client_state p t a True) (on_ptable (arch_set_thread_result p t (RespError ServerNotFound)) k)"
proof -
  obtain pi where pi: "table_slot (ptable k) p = Ok (Some pi)" "impl_wf pi"
    using c by (auto simp: client_state_def saved_args_def split: outcome.splits option.splits if_splits)
  let ?f = "set_args (to_args (RespError ServerNotFound))"
  have wf: "impl_wf (update_thread n ?f pi)" for n using pi(2) by (intro impl_wf_update) (simp_all add: impl_wf_gpr)
  have args: "get_args (?f (threads pi ! (t - 1))) = to_args (RespError ServerNotFound)"
    using impl_wf_gpr [OF pi(2), of "t - 1"] t error_args by (intro get_set_args) auto
  have len: "t - 1 < length (threads pi)" using pi(2) t by (auto simp: impl_wf_def)
  have idx: "pid_index p < length (ptable k)" "ptable k ! pid_index p = Some pi" using pi(1) by (auto simp: table_slot_def split: if_splits)
  have upd: "client_state p t a b (k\<lparr>ptable := table_put (ptable k) q x\<rparr>)" if "q \<noteq> p" for q x
    using c that idx by (simp add: client_state_def awaits_reply_def saved_args_def table_slot_def table_put_def pid_index_inject)
  have own: "client_state p t a (b \<or> u = t) (k\<lparr>ptable := table_put (ptable k) p (Some (update_thread (u - 1) ?f pi))\<rparr>)" if "1 \<le> u" for u
  proof (cases "u = t")
    case True
    then show ?thesis using c wf [of "t - 1"] args len idx
      by (auto simp: client_state_def awaits_reply_def saved_args_def table_slot_def table_put_def update_thread_def)
  next
    case False
    then have "u - 1 \<noteq> t - 1" using that t by arith
    then show ?thesis using False c wf [of "u - 1"] pi idx
      by (auto simp: client_state_def awaits_reply_def saved_args_def table_slot_def table_put_def update_thread_def)
  qed
  have weak: "client_state p t a b k'" if "client_state p t a (b \<or> u = t) k'" for k' :: "'a kernel" and u
    using that by (auto simp: client_state_def)
  show "holds (client_state p t a b) (on_ptable (arch_set_thread_result q u (RespError ServerNotFound)) k)"
  proof (cases "q = p")
    case True
    then show ?thesis using c idx own [of u, THEN weak] by (auto simp: on_ptable_def arch_set_thread_result_def table_slot_def)
  next
    case False
    then show ?thesis using c upd [OF False] by (auto simp: on_ptable_def arch_set_thread_result_def table_slot_def split: option.split)
  qed
  show "holds (client_state p t a True) (on_ptable (arch_set_thread_result p t (RespError ServerNotFound)) k)"
    using idx own [OF t(1)] t by (auto simp: on_ptable_def arch_set_thread_result_def table_slot_def)
qed

text \<open>Memory that is unmapped, released or returned changes neither processes nor contexts, and never broadcasts.\<close>

lemma low_memory_quiet: "low_broadcasts (mm (kvm k)) \<le> n \<Longrightarrow> low_memory_events n (r, k) = (r, k)"
  by (simp add: low_memory_events_def)

lemma release_page_broadcasts: "low_broadcasts (snd (release_page B allowed m a p)) = low_broadcasts m"
  by (simp add: release_page_def claim_release_move_def release_page_at_def add_free_pages_def sbind_def Let_def
      split: outcome.split option.split)

lemma unmap_page_mm: "unmap_page mp va v = (r, v') \<Longrightarrow> mm v' = mm v"
  by (auto simp: unmap_page_def Let_def split: if_splits)

lemma release_keeps_client: "client_state p t a b k \<Longrightarrow> holds (client_state p t a b) (k_release B ad q k)"
  using release_page_broadcasts [of B "mem_allowed k" "mm (kvm k)" ad q]
  by (cases "release_page B (mem_allowed k) (mm (kvm k)) ad q") (simp add: k_release_def on_mm_def low_memory_quiet holds_ret)

lemma vm_keeps_client:
  assumes c: "client_state p t a b k"
  shows "holds (client_state p t a b) (on_vm (unmap_page mp va) k)" "holds (client_state p t a b) (on_vm (return_page mp va mp' va') k)"
proof -
  obtain r v where v: "unmap_page mp va (kvm k) = (r, v)" by (cases "unmap_page mp va (kvm k)")
  with unmap_page_mm [OF v] c
  show "holds (client_state p t a b) (on_vm (unmap_page mp va) k)" "holds (client_state p t a b) (on_vm (return_page mp va mp' va') k)"
    by (simp_all add: on_vm_def low_memory_quiet return_page_def sbind_def holds_ret split: outcome.split)
qed

lemma unmap_keeps_client: "client_state p t a b k \<Longrightarrow> holds (client_state p t a b) (unmap_range B v len k)"
proof -
  have page: "holds (client_state p t a b) (mm_unmap_page B ad k)" if "client_state p t a b k" for ad and k :: "'a kernel"
    using that by (auto simp: mm_unmap_page_def Let_def split: outcome.split intro!: keeps release_keeps_client vm_keeps_client)
  have "holds (client_state p t a b) (unmap_pages B as r k)" if "client_state p t a b k" for as r and k :: "'a kernel"
    using that by (induction "as" arbitrary: r k) (auto intro!: keeps page)
  then show "client_state p t a b k \<Longrightarrow> ?thesis" by (auto simp: unmap_range_def intro!: keeps)
qed

lemma keep_error_holds: "holds I m \<Longrightarrow> holds I (keep_error m e)"
  by (cases m; cases "fst m") (auto simp: keep_error_def)

lemma return_keeps_client: "client_state p t a b k \<Longrightarrow> holds (client_state p t a b) (return_memory sv q dv len k)"
proof -
  have "holds (client_state p t a b) (return_each src s dest d offs e k)" if "client_state p t a b k" for src s dest d offs e and k :: "'a kernel"
    using that by (induction offs arbitrary: e k) (auto intro!: keeps keep_error_holds vm_keeps_client)
  then show "client_state p t a b k \<Longrightarrow> ?thesis" by (auto simp: return_memory_def intro!: keeps)
qed

lemma set_result_keeps_client:
  assumes c: "client_state p t a b k" and t: "1 \<le> t" "t < MAX_THREAD_COUNT"
  shows "holds (client_state p t a b) (set_thread_result q u (RespError ServerNotFound) k)"
    "holds (client_state p t a True) (set_thread_result p t (RespError ServerNotFound) k)"
proof -
  show "holds (client_state p t a b) (set_thread_result q u (RespError ServerNotFound) k)"
    using c t by (auto simp: set_thread_result_def Let_def intro!: keeps result_keeps_client(1))
  obtain pr where "process_of k p = Ok pr" "p_pid pr = p" using c by (auto simp: client_state_def awaits_reply_def process_of_iff)
  then show "holds (client_state p t a True) (set_thread_result p t (RespError ServerNotFound) k)"
    using c t by (auto simp: set_thread_result_def Let_def intro!: keeps result_keeps_client(2) [where b = b])
qed

lemma holds_unwrap_Ok: "(\<And>x s. unwrap_result m = (Ok x, s) \<Longrightarrow> I s) \<Longrightarrow> holds I (unwrap_result m)"
  by (cases m; cases "fst m") (auto simp: unwrap_result_def)

lemma ready_client:
  assumes c: "client_state p t a b k" and t: "1 \<le> t" "t < MAX_THREAD_COUNT"
  shows "holds (client_state p t a b) (ready_thread_of q u k)" "holds (client_state p t True b) (ready_thread_of p t k)"
proof -
  have woken: "client_state p t (a \<or> (q, u) = (p, t)) b k1" if woke: "ready_thread_of q u k = (Ok (), k1)" for q u k1
  proof -
    obtain pr pr' s where at: "proc_at k q = Some pr" and st: "set_thread_state u TReady (pr, sched k) = (Ok (), (pr', s))"
      and k1: "k1 = (put_process q pr' k)\<lparr>sched := s\<rparr>"
      using woke by (auto simp: ready_thread_of_def with_proc_sched_def process_of_iff sbind_def split: outcome.splits prod.splits)
    have pr': "pr' = pr\<lparr>p_threads := (p_threads pr)[u := TReady]\<rparr>" using set_thread_state_process [OF st] by simp
    have stays: "p_threads pr ! t = TReady \<Longrightarrow> (p_threads pr)[u := TReady] ! t = TReady"
      by (cases "u = t"; cases "t < length (p_threads pr)") (auto simp: list_update_beyond)
    have "saved_args p t k1 = saved_args p t k" by (simp add: k1 saved_args_def put_process_def)
    then show ?thesis using c at t stays by (auto simp: k1 pr' client_state_def awaits_reply_def process_wf_def)
  qed
  have all: "holds (client_state p t (a \<or> (q, u) = (p, t)) b) (ready_thread_of q u k)" for q u
    using woken [of q u] unfolding ready_thread_of_def by (intro holds_unwrap_Ok) simp
  show "holds (client_state p t a b) (ready_thread_of q u k)" by (rule holds_mono [OF all]) (simp add: client_state_def)
  show "holds (client_state p t True b) (ready_thread_of p t k)" using all [of p t] by simp
qed

text \<open>The client that is blocked on an entry of a server's queue.\<close>

fun blocked_client :: "queued_message \<Rightarrow> (pid \<times> nat) option" where
  "blocked_client (QBlockingScalar p t _ _ _ _ _ _) = Some (p, unat t)"
| "blocked_client (WaitingReturnScalar p t) = Some (p, unat t)"
| "blocked_client (QROLend p t _ _ _ _ _ _ _) = Some (p, unat t)"
| "blocked_client (QRWLend p t _ _ _ _ _ _ _) = Some (p, unat t)"
| "blocked_client (WaitingReturnMemory p t _ _ _) = Some (p, unat t)"
| "blocked_client _ = None"

lemma destroy_entry_client:
  assumes c: "client_state p t a b k" and t: "1 \<le> t" "t < MAX_THREAD_COUNT"
  shows "holds (client_state p t a b) (destroy_entry B q k)"
    "blocked_client q = Some (p, t) \<Longrightarrow> destroy_entry B q k = (Ok x, k1) \<Longrightarrow> client_state p t True True k1"
proof -
  show "holds (client_state p t a b) (destroy_entry B q k)"
    using c by (cases q) (auto simp: free_buffer_def unblock_scalar_def unblock_lender_def
        intro!: keeps ready_client(1) [OF _ t] set_result_keeps_client(1) [OF _ t] unmap_keeps_client return_keeps_client)
  have scalar: "client_state p t True True k1" if "unblock_scalar p u k = (Ok x, k1)" "unat u = t" for u
    using that(1) unfolding unblock_scalar_def that(2)
    by (rule sbind_OkE [OF _ holds_unwrap [OF set_result_keeps_client(2) [OF c t]]]) (auto dest: holdsD [OF ready_client(2) [OF _ t]])
  have lender: "client_state p t True True k1" if "unblock_lender p u y z w k = (Ok x, k1)" "unat u = t" for u y z w
    using that(1) unfolding unblock_lender_def that(2)
    by (rule sbind_OkE [OF _ holds_unwrap [OF return_keeps_client [OF c]]], elim sbind_OkE [OF _ ready_client(2) [OF _ t]])
      (auto dest: holdsD [OF set_result_keeps_client(2) [OF _ t]])
  show "blocked_client q = Some (p, t) \<Longrightarrow> destroy_entry B q k = (Ok x, k1) \<Longrightarrow> client_state p t True True k1"
    using scalar lender by (cases q) auto
qed

lemma destroy_entries_client:
  assumes t: "1 \<le> t" "t < MAX_THREAD_COUNT"
  shows "client_state p t a b k \<Longrightarrow> holds (client_state p t a b) (destroy_entries B qs k)"
  by (induction qs arbitrary: k) (auto intro!: keeps destroy_entry_client(1) [OF _ t])

lemma destroy_entries_tell_client:
  assumes t: "1 \<le> t" "t < MAX_THREAD_COUNT" and bc: "blocked_client q = Some (p, t)"
  shows "client_state p t a b k \<Longrightarrow> q \<in> set qs \<Longrightarrow> destroy_entries B qs k = (Ok x, k1) \<Longrightarrow> client_state p t True True k1"
proof (induction qs arbitrary: k)
  case (Cons e qs)
  obtain y k0 where k0: "destroy_entry B e k = (Ok y, k0)" "client_state p t a b k0" "destroy_entries B qs k0 = (Ok x, k1)"
    using Cons.prems(3) destroy_entry_client(1) [OF Cons.prems(1) t, of B e] by (auto elim: sbind_OkE)
  show ?case
  proof (cases "q = e")
    case True
    then have "client_state p t True True k0" using destroy_entry_client(2) [OF Cons.prems(1) t bc] k0(1) by simp
    then show ?thesis using holdsD [OF destroy_entries_client [OF t] k0(3)] by simp
  next
    case False
    then show ?thesis using Cons.IH [OF k0(2) _ k0(3)] Cons.prems(2) by simp
  qed
qed simp

lemma wake_parked_client:
  assumes t: "1 \<le> t" "t < MAX_THREAD_COUNT"
  shows "client_state p t a b k \<Longrightarrow> holds (client_state p t a b) (wake_parked n sv k)"
  by (induction n arbitrary: sv k)
    (auto split: option.split outcome.split prod.split intro!: keeps ready_client(1) [OF _ t] set_result_keeps_client(1) [OF _ t])

lemma server_destroy_client:
  assumes c: "client_state p t a b k" and t: "1 \<le> t" "t < MAX_THREAD_COUNT"
    and q: "q \<in> set (queue sv)" "blocked_client q = Some (p, t)" and d: "server_destroy B sv k = (Ok x, k1)"
  shows "client_state p t True True k1"
proof -
  obtain y k0 where k0: "destroy_entries B (queue sv) k = (Ok y, k0)"
    and r: "sbind (wake_parked 65 sv k0) (\<lambda>_ k. unwrap_result (unmap_range B (queue_base sv) (of_nat (QUEUED_MESSAGE_SIZE * length (queue sv))) k)) = (Ok x, k1)"
    using sbind_OkE [OF d [unfolded server_destroy_def] destroy_entries_client [OF t c]] by blast
  have "client_state p t True True k0" using destroy_entries_tell_client [OF t q(2) c q(1) k0] .
  then have "holds (client_state p t True True) (sbind (wake_parked 65 sv k0)
      (\<lambda>_ k. unwrap_result (unmap_range B (queue_base sv) (of_nat (QUEUED_MESSAGE_SIZE * length (queue sv))) k)))"
    by (intro keeps wake_parked_client [OF t] unmap_keeps_client)
  then show ?thesis using r by simp
qed

text \<open>Whenever the scheduler chooses such a thread, its turn parks it again.\<close>

lemma waiting_thread_parked:
  assumes inv: "threads_inv k" and c: "awaits_reply p t k" and nx: "next_thread (sched k) = Some (p, t)"
  shows "\<exists>k'. parking_turn k k' \<and> awaits_reply p t k' \<and> (p, t) \<notin> ready_threads k'"
proof -
  obtain pr where pr: "proc_at k p = Some pr" "p_pid pr = p" "process_wf pr" "p_kernel_futures pr ! t = Some FWaitBlocking"
    "p_result_mailbox pr ! t = None" using c by (auto simp: awaits_reply_def)
  have t: "1 \<le> t" "t < MAX_THREAD_COUNT" using next_thread_ready [OF inv nx] by (auto simp: ready_threads_def)
  let ?pr1 = "pr\<lparr>p_kernel_futures := (p_kernel_futures pr)[t := None]\<rparr>"
  let ?pr2 = "?pr1\<lparr>p_result_mailbox := (p_result_mailbox pr)[t := None]\<rparr>"
  let ?k1 = "put_process p ?pr1 k" and ?k2 = "put_process p ?pr2 (put_process p ?pr1 k)"
  have take_f: "take_future p t k = (Ok (Some FWaitBlocking), ?k1)"
    using pr t by (simp add: take_future_def with_process_def process_of_iff [THEN iffD2] take_kernel_future_def)
  have at1: "proc_at ?k1 p = Some ?pr1" using pr(1) by simp
  have po: "poll FWaitBlocking p t ?k1 = (Ok PollPending, ?k2)"
    using at1 t pr(5) by (simp add: poll_mailbox_def process_of_iff [THEN iffD2] take_mailbox_def)
  have at2: "proc_at ?k2 p = Some ?pr2" using at1 by simp
  have inv1: "threads_inv ?k1" using holdsD [OF thread_queues.take_future_keeps [OF inv] take_f [unfolded take_future_def]] by simp
  have inv2: "threads_inv ?k2" using holdsD [OF thread_queues.poll_keeps [OF inv1] po] by simp
  let ?pr3 = "set_kernel_future t FWaitBlocking ?pr2" and ?st = "thread_state.WaitEvent (suspension_mask FWaitBlocking)"
  have inv3: "threads_inv (put_process p ?pr3 ?k2)" by (rule thread_queues.put_same [OF inv2 at2]) simp
  have at3: "proc_at (put_process p ?pr3 ?k2) p = Some ?pr3" using at2 by simp
  let ?pr4 = "?pr3\<lparr>p_threads := (p_threads ?pr3)[t := ?st]\<rparr>"
  obtain s where s: "set_thread_state t ?st (?pr3, sched ?k2) = (Ok (), (?pr4, s))"
    using set_state_total [OF inv3 at3 t, of ?st] by (auto simp: put_process_def)
  let ?k3 = "(put_process p ?pr4 ?k2)\<lparr>sched := s\<rparr>"
  have pk: "park_again FWaitBlocking p t ?k2 = (Ok (), ?k3)"
    using at2 s by (simp add: park_again_def with_proc_sched_def process_of_iff [THEN iffD2])
  have "parking_turn k ?k3" by (rule parking_turn.intros [OF nx take_f po pk])
  moreover have "(p, t) \<notin> ready_threads ?k3" using park_again_ready [OF inv2 pk t(1)] by simp
  moreover have "awaits_reply p t ?k3"
    using at2 pr t by (simp add: awaits_reply_def set_kernel_future_def process_wf_def)
  ultimately show ?thesis by blast
qed

text \<open>
  Property C34: a client that is blocked on a server is not told when the server is destroyed.
  If the client has a context in the process table and waits on an entry of the server's queue (a
  blocking scalar message or memory it has lent, received or not), and the destruction completes, then the thread of the client is ready
  with the error \<open>ServerNotFound\<close> in the argument registers of its saved context, but its future is still in place
  and its mailbox is still empty.  In every state in which it waits in this way and
  the scheduler chooses it, the turn parks it again and it goes on
  waiting, so that it does not return to user mode with the error.
\<close>

theorem destroyed_server_leaves_caller_waiting:
  assumes "awaits_reply p t k" "saved_args p t k \<noteq> None" and t: "1 \<le> t" "t < MAX_THREAD_COUNT"
    and q: "q \<in> set (queue sv)" "blocked_client q = Some (p, t)"
    and d: "server_destroy B sv k = (Ok (), k1)"
  shows "(p, t) \<in> ready_threads k1 \<and> saved_args p t k1 = Some (to_args (RespError ServerNotFound)) \<and> awaits_reply p t k1 \<and>
    (\<forall>k2. threads_inv k2 \<and> awaits_reply p t k2 \<and> next_thread (sched k2) = Some (p, t) \<longrightarrow>
       (\<exists>k3. parking_turn k2 k3 \<and> awaits_reply p t k3 \<and> (p, t) \<notin> ready_threads k3))"
proof -
  have "client_state p t False False k" using assms(1,2) by (simp add: client_state_def)
  from server_destroy_client [OF this t q d]
  have c: "client_state p t True True k1" .
  then have "(p, t) \<in> ready_threads k1" using t by (auto simp: client_state_def ready_threads_def)
  then show ?thesis using c by (auto simp: client_state_def intro: waiting_thread_parked)
qed

definition blocked_queue :: server where
  "blocked_queue = (fresh_server pid2 (SID 1 2 3 4) 256)\<lparr>queue := WaitingReturnScalar pid1 1 # replicate 255 Empty\<rparr>"

definition mapped_waiting :: "(nat \<Rightarrow> bool) kernel" where
  "mapped_waiting = first_waiting\<lparr>kvm := \<lparr>mm = default_hack fun_bits, ram = (\<lambda>_. 1)\<rparr>\<rparr>"

lemma mapped_waiting_fields:
  "ptable mapped_waiting = (replicate MAX_PROCESS_COUNT None)[0 := Some first_impl]" "cur_pid mapped_waiting = pid1"
  "processes mapped_waiting = (replicate MAX_PROCESS_COUNT None)[0 := Some (set_kernel_future 1 FWaitBlocking first_process)]"
  "kvm mapped_waiting = \<lparr>mm = default_hack fun_bits, ram = (\<lambda>_. 1)\<rparr>" "cur_map mapped_waiting = \<lparr>ttbr0 = 0, mapping_pid = 1, aslr_slide = 0\<rparr>"
  by (simp_all add: mapped_waiting_def first_waiting_def put_process_def started_fields) (simp_all add: started_def init_simps)

lemma mapped_waiting_client: "awaits_reply pid1 1 mapped_waiting" "saved_args pid1 1 mapped_waiting \<noteq> None"
proof -
  note first_waits = first_process_waits threads_invD(3,4) [OF first_waiting_inv first_waiting_process]
  have "proc_at mapped_waiting pid1 = proc_at first_waiting pid1" by (simp add: mapped_waiting_def)
  then show "awaits_reply pid1 1 mapped_waiting" using first_waits first_waiting_process by (simp add: awaits_reply_def)
  have "impl_wf first_impl"
    by (auto simp: first_impl_def impl_wf_def process_impl_new_def update_thread_def thread_default_def MAX_THREAD_COUNT_def
        set_sp_def set_pc_def INITIAL_TID_def nth_list_update)
  then show "saved_args pid1 1 mapped_waiting \<noteq> None"
    by (simp add: saved_args_def mapped_waiting_fields table_slot_def MAX_PROCESS_COUNT_def)
qed

lemma mapped_waiting_destroyed: "\<exists>k1. destroy_entry fun_bits (WaitingReturnScalar pid1 1) mapped_waiting = (Ok (), k1) \<and>
    kvm k1 = kvm mapped_waiting \<and> cur_map k1 = cur_map mapped_waiting \<and> (\<exists>pr. process_of k1 pid1 = Ok pr \<and> p_pid pr = pid1)"
  by (simp add: mapped_waiting_fields unblock_scalar_def ready_thread_of_def set_thread_result_def Let_def put_process_def
      on_ptable_def arch_set_thread_result_def table_slot_def MAX_PROCESS_COUNT_def MAX_THREAD_COUNT_def with_proc_sched_def
      process_of_def set_thread_state_def thread_priority_of_def thread_state_of_def set_kernel_future_def first_process_def
      process_new_def unwrap_result_def)

lemma destroy_empty: "destroy_entries B (replicate n Empty) k = (Ok (), k)"
  by (induction n) simp_all

lemma no_region: "region_offset (replicate n (0, 0)) off 0 = Ok None"
  by (induction n arbitrary: off) simp_all

lemma queue_page_unmapped:
  assumes "kvm k = \<lparr>mm = default_hack fun_bits, ram = (\<lambda>_. 1)\<rparr>" "cur_map k = \<lparr>ttbr0 = 0, mapping_pid = 1, aslr_slide = 0\<rparr>"
    "process_of k pid1 = Ok pr" "p_pid pr = pid1"
  shows "\<exists>k1. unmap_range fun_bits 0 16384 k = (Ok (), k1)"
proof -
  have zero: "(1 AND PTE_ADDR_MASK) = (0 :: usize)" "(1 AND PTE_VALID) = (1 :: usize)" by (simp_all add: PTE_ADDR_MASK_def PTE_VALID_def)
  have pid: "get_pid (cur_map k) = pid1" using assms(2) by (simp add: get_pid_def nz_new_def pid1_def)
  have "virt_to_phys (kvm k) (cur_map k) 0 = Ok 0" using assms(1) by (simp add: virt_to_phys_def zero)
  moreover have "release_page fun_bits (mem_allowed k) (mm (kvm k)) 0 pid1 = (Err BadAddress, mm (kvm k))"
    using assms by (simp add: release_page_def claim_release_move_def mem_allowed_def check_memory_permission_def shared_peripheral_def list_ex_iff
        address_to_allocation_offset_def default_hack_def no_region ENCRYPTED_DRAM_BASE_def PLAINTEXT_DRAM_BASE_def)
  then have "k_release fun_bits 0 pid1 k = (Err BadAddress, k)" using assms by (simp add: k_release_def on_mm_def low_memory_events_def)
  moreover have "\<exists>k1. on_vm (unmap_page (cur_map k) 0) k = (Ok (), k1)"
    using assms(1) by (simp add: on_vm_def unmap_page_def zero low_memory_events_def)
  ultimately have "\<exists>k1. mm_unmap_page fun_bits 0 k = (Ok (), k1)" by (simp add: mm_unmap_page_def pid drop_error_def)
  then show ?thesis
    by (auto simp: unmap_range_def page_aligned_def PAGE_SIZE_def phys_end_def checked_add_def step_range_def)
qed

lemma blocked_queue_destroyed: "\<exists>k1. server_destroy fun_bits blocked_queue mapped_waiting = (Ok (), k1)"
proof -
  obtain k0 pr where k0: "destroy_entry fun_bits (WaitingReturnScalar pid1 1) mapped_waiting = (Ok (), k0)"
    "kvm k0 = kvm mapped_waiting" "cur_map k0 = cur_map mapped_waiting" "process_of k0 pid1 = Ok pr" "p_pid pr = pid1"
    using mapped_waiting_destroyed by blast
  obtain k1 where "unmap_range fun_bits 0 16384 k0 = (Ok (), k1)"
    using queue_page_unmapped [of k0 pr] k0 mapped_waiting_fields by auto
  moreover have "wake_parked 65 blocked_queue k0 = (Ok (), k0)"
    by (subst wake_parked.simps(2) [of 64, simplified]) (simp add: blocked_queue_def fresh_server_def take_available_thread_def)
  ultimately show ?thesis
    using k0(1) by (simp add: server_destroy_def blocked_queue_def fresh_server_def destroy_empty QUEUED_MESSAGE_SIZE_def unwrap_result_def
        del: destroy_entry.simps)
qed

theorem destroyed_server_leaves_caller_waiting_witness:
  "\<exists>k1. server_destroy fun_bits blocked_queue mapped_waiting = (Ok (), k1) \<and> (pid1, 1) \<in> ready_threads k1 \<and>
     saved_args pid1 1 k1 = Some (to_args (RespError ServerNotFound)) \<and> awaits_reply pid1 1 k1"
proof -
  obtain k1 where k1: "server_destroy fun_bits blocked_queue mapped_waiting = (Ok (), k1)" using blocked_queue_destroyed by blast
  have "WaitingReturnScalar pid1 1 \<in> set (queue blocked_queue)" by (simp add: blocked_queue_def)
  from destroyed_server_leaves_caller_waiting [OF mapped_waiting_client _ _ this _ k1] k1
  show ?thesis by (auto simp: MAX_THREAD_COUNT_def)
qed

section \<open>Rights\<close>

lemma privileged_number: "privileged call \<Longrightarrow> unat (as_args call ! 0) < 64"
  by (cases call rule: privileged.cases) (auto)

lemma bit_of_mask: "n < 64 \<Longrightarrow> push_bit n (1 :: usize) \<noteq> 0"
  using bit_push_bit_iff [of n "1 :: usize" n] by auto

lemma check_privileged: "privileged call \<Longrightarrow> check_syscall_permission call k = permitted_by_mask call k"
  by (cases "(call, k)" rule: check_syscall_permission.cases) auto

text \<open>
  Property C2: rights are granted to a process as a whole.  In every state the kernel can reach, the
  process that runs either has no rights, and every privileged call of it is refused with
  \<open>AccessDenied\<close> and changes nothing, or has all of them, and the call is executed.
\<close>

theorem privileged_all_or_none:
  assumes "kernel_reachable B k" "current_process k = Ok pr" "privileged call" "tid \<noteq> IRQ_TID"
  shows "p_syscall_permissions pr = 0 \<and> handle B w tid call k = (Err AccessDenied, k) \<or>
    p_syscall_permissions pr = - 1 \<and> handle B w tid call k = dispatch B w tid call k"
proof -
  have "p_syscall_permissions pr = 0 \<or> p_syscall_permissions pr = - 1"
    using reachable_invs(3) [OF assms(1)] assms(2) by (simp add: rights_inv_def current_process_iff)
  then show ?thesis
    using assms(2,4) privileged_number [OF assms(3)] bit_of_mask check_privileged [OF assms(3), of k]
    by (auto simp: handle_def permitted_by_mask_def Let_def)
qed

definition quiet_world :: world where
  "quiet_world = \<lparr>w_random = (\<lambda>_. 0), w_binaries = [], w_net = (0, 0, 0), w_debug = (\<lambda>_. [])\<rparr>"

theorem privileged_all_or_none_witness:
  "handle fun_bits quiet_world 1 (SystemCall (GetSystemStats FreeMemory)) started =
   dispatch fun_bits quiet_world 1 (SystemCall (GetSystemStats FreeMemory)) started"
  using privileged_all_or_none [where B = fun_bits and w = quiet_world and tid = 1 and call = "SystemCall (GetSystemStats FreeMemory)",
      OF started_reachable started_process(2)]
  by (simp add: IRQ_TID_def first_process_def)


section \<open>Calls that stop the kernel\<close>

lemma free_slot_contexts:
  "find_free_thread tab p = Ok (Some t) \<Longrightarrow> \<exists>pr. table_slot tab p = Ok (Some pr) \<and> t - 1 < length (threads pr) \<and> \<not> allocated (threads pr ! (t - 1))"
  by (auto simp: find_free_thread_def obind_eq_Ok find_Some_iff split: option.splits)

lemma setup_free_thread:
  assumes "find_free_thread tab p = Ok (Some t)" "t \<le> MAX_THREAD_COUNT"
  shows "setup_thread p t init tab \<noteq> (Err e, tab')"
proof -
  obtain pr where "table_slot tab p = Ok (Some pr)" "\<not> allocated (threads pr ! (t - 1))" using free_slot_contexts [OF assms(1)] by blast
  moreover have "t \<noteq> 0" using assms(1) by (auto simp: find_free_thread_def obind_eq_Ok split: option.splits)
  ultimately show ?thesis using assms(2) by (auto simp: setup_thread_def Let_def unwrap_def split: option.splits)
qed

lemma fst_sbind_Panic: "fst m = Panic \<Longrightarrow> fst (sbind m f) = Panic"
  by (cases m) simp

lemma last_thread_panics:
  assumes "table_shapes k" "find_free_thread (ptable k) (cur_pid k) = Ok (Some MAX_THREAD_COUNT)"
    and "current_process k = Ok pr"
  shows "fst (create_thread tid init k) = Panic"
proof -
  have at: "proc_at k (cur_pid k) = Some pr" using assms(3) by (simp add: current_process_iff)
  then have "process_wf pr" using assms(1) by (simp add: table_shapes_def)
  then have "fst (unwrap_result (with_proc_sched (cur_pid k) (set_thread_state MAX_THREAD_COUNT TReady) (k\<lparr>ptable := tab\<rparr>))) = Panic" for tab
    using at by (simp add: unwrap_result_def with_proc_sched_def process_of_iff [THEN iffD2] set_thread_state_def thread_priority_of_def process_wf_def)
  then show ?thesis
    using assms(2) setup_free_thread [OF assms(2), of init]
    by (cases "setup_thread (cur_pid k) MAX_THREAD_COUNT init (ptable k)"; cases "fst (setup_thread (cur_pid k) MAX_THREAD_COUNT init (ptable k))")
      (auto simp: create_thread_def on_ptable_def intro!: fst_sbind_Panic)
qed

lemma handle_unprivileged: "tid \<noteq> IRQ_TID \<Longrightarrow> check_syscall_permission call k = Ok () \<Longrightarrow> handle B w tid call k = dispatch B w tid call k"
  by (simp add: handle_def)

text \<open>
  Property C32: the unprivileged calls with which any process stops the kernel.
  \<open>UpdateMemoryFlags\<close> on its own memory is not implemented and panics; \<open>JoinThread\<close> of a thread
  number from 32 on indexes the thread table out of bounds; so does an answer to a
  sender whose server number is 128, which passes the check of \<open>server_from_sidx\<close>; and so does
  \<open>CreateThread\<close> when 31 contexts are in use, because the thread is given number 32.
\<close>

theorem calls_that_stop_the_kernel:
  assumes "table_shapes k" "current_process k = Ok pr" "tid \<noteq> IRQ_TID"
  shows "fst (handle B w tid (MemoryCall (UpdateMemoryFlags mr flags None)) k) = Panic \<and>
    (unat other \<ge> MAX_THREAD_COUNT \<and> unat other \<noteq> tid \<longrightarrow> fst (handle B w tid (ThreadCall (JoinThread other)) k) = Panic) \<and>
    (snd_sidx (sender_id_from (sender_to_usize sender)) = of_nat MAX_SERVER_COUNT \<longrightarrow>
      fst (handle B w tid (MessageCall (ReturnScalar1 sender a)) k) = Panic) \<and>
    (find_free_thread (ptable k) (cur_pid k) = Ok (Some MAX_THREAD_COUNT) \<longrightarrow>
      fst (handle B w tid (ThreadCall (CreateThread init)) k) = Panic)"
proof (intro conjI impI)
  have pr: "length (p_threads pr) = MAX_THREAD_COUNT"
    using assms(1,2) by (auto simp: table_shapes_def process_wf_def current_process_iff)
  show "fst (handle B w tid (MemoryCall (UpdateMemoryFlags mr flags None)) k) = Panic"
    using assms(3) by (simp add: handle_unprivileged)
  show "fst (handle B w tid (ThreadCall (JoinThread other)) k) = Panic" if "unat other \<ge> MAX_THREAD_COUNT \<and> unat other \<noteq> tid"
    using that assms(2,3) pr by (simp add: handle_unprivileged join_thread_def thread_state_of_def)
  show "fst (handle B w tid (MessageCall (ReturnScalar1 sender a)) k) = Panic"
    if "snd_sidx (sender_id_from (sender_to_usize sender)) = of_nat MAX_SERVER_COUNT"
    using that assms by (simp add: handle_unprivileged return_result_def Let_def take_waiting_def own_server_def
        server_from_sidx_def table_shapes_def MAX_SERVER_COUNT_def)
  show "fst (handle B w tid (ThreadCall (CreateThread init)) k) = Panic"
    if "find_free_thread (ptable k) (cur_pid k) = Ok (Some MAX_THREAD_COUNT)"
    using last_thread_panics [OF assms(1) that assms(2)] assms(3) by (simp add: handle_unprivileged fst_sbind_Panic)
qed

definition crowded :: "(nat \<Rightarrow> bool) kernel" where
  "crowded = started\<lparr>ptable := (ptable started)[0 := Some \<lparr>threads =
     replicate 31 (thread_default\<lparr>allocated := True\<rparr>) @ [thread_default], current_thread = 1\<rparr>]\<rparr>"

lemma crowded_facts:
  "table_shapes crowded" "current_process crowded = Ok first_process"
  "find_free_thread (ptable crowded) (cur_pid crowded) = Ok (Some MAX_THREAD_COUNT)"
proof -
  show "table_shapes crowded"
    unfolding crowded_def
    by (rule shapes.context_law [OF started_inv(2)], rule table_wf_put)
      (auto simp: impl_wf_def thread_default_def nth_append MAX_THREAD_COUNT_def)
  show "current_process crowded = Ok first_process"
    using started_process(2) by (simp add: crowded_def current_process_iff)
  have "find (\<lambda>i. \<not> allocated ((replicate 31 (thread_default\<lparr>allocated := True\<rparr>) @ [thread_default]) ! i)) [0 ..< 32] = Some 31"
    by (simp add: upt_rec thread_default_def nth_append)
  then show "find_free_thread (ptable crowded) (cur_pid crowded) = Ok (Some MAX_THREAD_COUNT)"
    by (simp add: crowded_def started_fields find_free_thread_def table_slot_def MAX_PROCESS_COUNT_def MAX_THREAD_COUNT_def)
qed

theorem calls_that_stop_the_kernel_witness:
  "fst (handle fun_bits quiet_world 1 (ThreadCall (JoinThread 40)) crowded) = Panic \<and>
   fst (handle fun_bits quiet_world 1 (MessageCall (ReturnScalar1 \<lparr>sender_data = 0x800000\<rparr> 0)) crowded) = Panic \<and>
   fst (handle fun_bits quiet_world 1 (ThreadCall (CreateThread
     \<lparr>ti_call = 0, ti_stack = None, ti_arg1 = 0, ti_arg2 = 0, ti_arg3 = 0, ti_arg4 = 0\<rparr>)) crowded) = Panic"
  using calls_that_stop_the_kernel [OF crowded_facts(1,2), where tid = 1 and other = 40 and sender = "\<lparr>sender_data = 0x800000\<rparr>"] crowded_facts(3)
  by (simp add: IRQ_TID_def MAX_THREAD_COUNT_def sender_to_usize_def sender_id_from_def MAX_SERVER_COUNT_def)

section \<open>Contexts\<close>

lemma copy_frame_frame [simp]: "copy_frame (copy_frame f c) f = f" "copy_frame (set_args as (copy_frame f c)) f = set_args as f"
  by (simp_all add: copy_frame_def set_args_def)

lemma running_tid_put:
  "ptable k ! pid_index p = Some pi \<Longrightarrow> current_thread pi' = current_thread pi \<Longrightarrow>
    current_tid (table_put (ptable k) p (Some pi')) p = current_tid (ptable k) p"
  by (auto simp: current_tid_def table_put_def)

definition running_ok :: "'b kernel \<Rightarrow> bool" where
  "running_ok k \<longleftrightarrow> (\<exists>pi. table_slot (ptable k) (cur_pid k) = Ok (Some pi) \<and> length (threads pi) = MAX_THREAD_COUNT \<and>
    1 \<le> current_thread pi \<and> current_thread pi \<le> MAX_THREAD_COUNT)"

lemma save_current_table:
  assumes "table_slot (ptable k) (cur_pid k) = Ok (Some pi)" "length (threads pi) = MAX_THREAD_COUNT"
    "1 \<le> current_thread pi" "current_thread pi \<le> MAX_THREAD_COUNT"
  shows "save_current frame k = (Ok (), k\<lparr>ptable := table_put (ptable k) (cur_pid k)
    (Some (update_thread (current_thread pi - 1) (copy_frame frame) pi))\<rparr>)" "running_tid k = current_thread pi"
  using assms by (auto simp: save_current_def on_ptable_def save_context_to_table_def running_tid_def current_tid_def table_slot_def
      split: if_splits)

text \<open>
  An interrupt that is not the timer's is invisible to the thread it interrupts:
  the frame it returns to is the one it was taken from, in all registers.
\<close>

theorem interrupt_preserves_the_frame:
  assumes "running_ok k" "ev = Spurious \<or> (\<exists>n. ev = DeviceIrq n)"
  shows "fst (user_irq_handler ev frame k) = Ok frame"
proof -
  obtain pi where pi: "table_slot (ptable k) (cur_pid k) = Ok (Some pi)" "length (threads pi) = MAX_THREAD_COUNT"
    "1 \<le> current_thread pi" "current_thread pi \<le> MAX_THREAD_COUNT" using assms(1) unfolding running_ok_def by blast
  have "handle_irq ev k = (Ok False, k)" for k :: "'a kernel" using assms(2) by auto
  then show ?thesis
    using pi by (auto simp: user_irq_handler_def Let_def save_current_table [OF pi] load_current_def load_context_from_table_def
        running_tid_def current_tid_def table_slot_def table_put_def update_thread_def split: if_splits)
qed

lemma second_slot: "table_slot (ptable second_running) (cur_pid second_running) = Ok (Some process_impl_new)"
  by (simp add: second_running_def started_fields table_slot_def MAX_PROCESS_COUNT_def)

lemma process_impl_new_wf:
  "length (threads process_impl_new) = MAX_THREAD_COUNT" "1 \<le> current_thread process_impl_new"
  "current_thread process_impl_new \<le> MAX_THREAD_COUNT"
  by (simp_all add: process_impl_new_def INITIAL_TID_def MAX_THREAD_COUNT_def)

lemma running_ok_states: "running_ok started" "running_ok second_running"
proof -
  have "table_slot (ptable started) (cur_pid started) = Ok (Some first_impl)"
    by (simp add: started_fields table_slot_def MAX_PROCESS_COUNT_def)
  then show "running_ok started" unfolding running_ok_def by (simp add: first_impl_wf) (simp add: MAX_THREAD_COUNT_def)
  show "running_ok second_running" unfolding running_ok_def using second_slot process_impl_new_wf by blast
qed

theorem interrupt_preserves_the_frame_witness:
  "fst (user_irq_handler (DeviceIrq 48) (thread_default\<lparr>gpr := map word_of_nat [0 ..< 31]\<rparr>) started) =
   Ok (thread_default\<lparr>gpr := map word_of_nat [0 ..< 31]\<rparr>)"
  using interrupt_preserves_the_frame [OF running_ok_states(1)] by blast

text \<open>The running thread and the context saved for it.\<close>

definition saved_context :: "'b kernel \<Rightarrow> (pid \<times> nat \<times> thread_context) option" where
  "saved_context k =
    (case table_slot (ptable k) (cur_pid k) of
       Ok (Some pi) \<Rightarrow>
         if 1 \<le> current_thread pi \<and> current_thread pi \<le> length (threads pi)
         then Some (cur_pid k, current_thread pi, threads pi ! (current_thread pi - 1)) else None
     | _ \<Rightarrow> None)"

lemma saved_context_Some:
  assumes "saved_context k = Some (p, t, c)"
  obtains pi where "cur_pid k = p" "table_slot (ptable k) p = Ok (Some pi)" "current_thread pi = t" "1 \<le> t" "t \<le> length (threads pi)"
    "threads pi ! (t - 1) = c"
  using assms by (auto simp: saved_context_def split: outcome.splits option.splits if_splits)

lemma load_with_result:
  assumes "saved_context k = Some (p, t, copy_frame frame c)" "t \<le> MAX_THREAD_COUNT" "nz_get p \<noteq> 1"
  shows "fst (sbind (on_ptable (arch_set_thread_result p t v) k) (\<lambda>_ k. idle_wait_then_load evs frame k)) =
    Ok (Some (set_args (to_args v) frame))"
  using assms(2,3)
  by (cases rule: saved_context_Some [OF assms(1)])
    (auto simp: on_ptable_def arch_set_thread_result_def idle_wait_then_load.simps load_current_def load_context_from_table_def
      running_tid_def current_tid_def table_slot_def table_put_def update_thread_def split: if_splits)

text \<open>
  Property C12: how a system call answers its caller, a thread of a process other than process 1.
  Registers that encode no call are answered with \<open>InvalidSyscall\<close>.  A call that the handler
  answers at once, with a value or with an error, returns to its caller with
  \<open>to_args\<close> of the answer in the result registers and every other register as it was.  Answered at
  once means: the answer is not \<open>ResumeProcess\<close>, and when the handler is done the caller is
  still the running thread and its saved context has not been replaced; the handler
  may change the contexts of all other threads.
\<close>

theorem svc_returns_in_the_result_registers:
  assumes "running_ok k" "nz_get (cur_pid k) \<noteq> 1" "save_current frame k = (Ok (), k1)"
  shows "(decode_registers (get_args frame) = Err e \<longrightarrow>
      fst (handle_svc B w evs frame k) = Ok (Some (set_args (to_args (RespError InvalidSyscall)) frame))) \<and>
    (decode_registers (get_args frame) = Ok call \<and> handle B w (running_tid k) call k1 = (r, k2) \<and>
      (r = Ok v \<or> (\<exists>e. r = Err e \<and> v = RespError e)) \<and> v \<noteq> ResumeProcess \<and> saved_context k2 = saved_context k1 \<longrightarrow>
      fst (handle_svc B w evs frame k) = Ok (Some (set_args (to_args v) frame)))"
proof -
  obtain pi where pi: "table_slot (ptable k) (cur_pid k) = Ok (Some pi)" "length (threads pi) = MAX_THREAD_COUNT"
    "1 \<le> current_thread pi" "current_thread pi \<le> MAX_THREAD_COUNT" using assms(1) unfolding running_ok_def by blast
  note sv = save_current_table [OF pi]
  have k1: "k1 = k\<lparr>ptable := table_put (ptable k) (cur_pid k) (Some (update_thread (current_thread pi - 1) (copy_frame frame) pi))\<rparr>"
    using sv(1) assms(3) by simp
  have saved: "saved_context k1 = Some (cur_pid k, running_tid k, copy_frame frame (threads pi ! (current_thread pi - 1)))"
    using pi sv(2) by (auto simp: k1 saved_context_def table_slot_def table_put_def update_thread_def split: if_splits)
  have tid: "running_tid k \<le> MAX_THREAD_COUNT" using pi(4) sv(2) by simp
  have "fst (handle_svc B w evs frame k) = Ok (Some (set_args (to_args v) frame))"
    if "decode_registers (get_args frame) = Ok call" "handle B w (running_tid k) call k1 = (r, k2)"
      "r = Ok v \<or> (\<exists>e. r = Err e \<and> v = RespError e)" "v \<noteq> ResumeProcess" "saved_context k2 = saved_context k1"
    using that load_with_result [OF that(5) [unfolded saved] tid assms(2), of v evs] assms(3)
    by (auto simp: handle_svc_def Let_def)
  moreover have "fst (handle_svc B w evs frame k) = Ok (Some (set_args (to_args (RespError InvalidSyscall)) frame))"
    if "decode_registers (get_args frame) = Err e"
    using that assms(3) by (simp add: handle_svc_def Let_def)
  ultimately show ?thesis by blast
qed

definition pid_frame :: thread_context where
  "pid_frame = set_args (as_args (ProcessCall GetProcessId)) thread_default"

lemma pid_frame_call: "decode_registers (get_args pid_frame) = Ok (ProcessCall GetProcessId)"
proof -
  have "get_args pid_frame = as_args (ProcessCall GetProcessId)"
    by (simp add: pid_frame_def get_args_def set_args_def thread_default_def arg_registers_def)
  then show ?thesis using decode_as_args [of "ProcessCall GetProcessId"] by simp
qed

text \<open>A call that succeeds and one that is refused: the second process asks for its number and for the statistics.\<close>

definition stats_frame :: thread_context where
  "stats_frame = set_args (as_args (SystemCall (GetSystemStats FreeMemory))) thread_default"

lemma stats_frame_call: "decode_registers (get_args stats_frame) = Ok (SystemCall (GetSystemStats FreeMemory))"
proof -
  have "get_args stats_frame = as_args (SystemCall (GetSystemStats FreeMemory))"
    by (simp add: stats_frame_def get_args_def set_args_def thread_default_def arg_registers_def)
  then show ?thesis using decode_as_args [of "SystemCall (GetSystemStats FreeMemory)"] by simp
qed

lemma second_saves: "\<exists>k1. save_current frame second_running = (Ok (), k1) \<and> cur_pid k1 = pid2 \<and> processes k1 = processes second_running"
  using save_current_table(1) [OF second_slot process_impl_new_wf, of frame] by (simp add: second_running_def)

theorem svc_returns_in_the_result_registers_witness:
  "fst (handle_svc fun_bits quiet_world [] pid_frame second_running) = Ok (Some (set_args (to_args (ProcessID pid2)) pid_frame)) \<and>
   fst (handle_svc fun_bits quiet_world [] stats_frame second_running) =
     Ok (Some (set_args (to_args (RespError AccessDenied)) stats_frame))"
proof -
  note table = save_current_table [OF second_slot process_impl_new_wf]
  have pid: "nz_get (cur_pid second_running) \<noteq> 1" by (simp add: second_running_def)
  have tid: "running_tid second_running \<noteq> IRQ_TID" using table(2) by (simp add: process_impl_new_def INITIAL_TID_def IRQ_TID_def)
  obtain k1 where k1: "save_current pid_frame second_running = (Ok (), k1)" "cur_pid k1 = pid2" using second_saves by blast
  have h: "handle fun_bits quiet_world (running_tid second_running) (ProcessCall GetProcessId) k1 = (Ok (ProcessID pid2), k1)"
    using k1(2) tid by (simp add: handle_def)
  obtain k2 where k2: "save_current stats_frame second_running = (Ok (), k2)" "cur_pid k2 = pid2" "processes k2 = processes second_running"
    using second_saves by blast
  have "current_process k2 = Ok second_process"
    using second_running_process(1) k2(2,3) by (auto simp: current_process_iff proc_at_def split: if_splits)
  then have g: "handle fun_bits quiet_world (running_tid second_running) (SystemCall (GetSystemStats FreeMemory)) k2 = (Err AccessDenied, k2)"
    using tid by (simp add: handle_def permitted_by_mask_def Let_def second_process_def process_new_def)
  show ?thesis
    using svc_returns_in_the_result_registers [OF running_ok_states(2) pid k1(1)] pid_frame_call h
      svc_returns_in_the_result_registers [OF running_ok_states(2) pid k2(1)] stats_frame_call g by blast
qed

section \<open>Faults\<close>

lemma save_context_no_error: "fst (save_context_to_table p tid frame tab) \<noteq> Err e"
  by (auto simp: save_context_to_table_def table_slot_def split: option.split)

text \<open>
  Property C33: an abort in a process whose parent is process 1, which every process started at boot
  is, stops the whole kernel: the handler ends the process with code 1, and a child of
  process 1 that ends with a code other than zero panics the kernel.
\<close>

theorem fault_of_a_system_process_stops_the_kernel:
  assumes "current_process k = Ok pr" "p_ppid pr = Some pid1" "drop_bit 26 esr AND 0x3F \<in> {0x20, 0x21, 0x24, 0x25 :: u64}"
  shows "fst (user_sync_handler B w esr evs frame k) = Panic"
proof -
  have "current_process (k\<lparr>ptable := tab\<rparr>) = Ok pr" for tab using assms(1) by (simp add: current_process_iff)
  then have stop: "terminate_current_process B 1 (k\<lparr>ptable := tab\<rparr>) = (Panic, k\<lparr>ptable := tab\<rparr>)" for tab
    using assms(2) by (simp add: terminate_current_process_def Let_def)
  obtain r tab where save: "save_current frame k = (r, k\<lparr>ptable := tab\<rparr>)" "\<And>e. r \<noteq> Err e"
    using save_context_no_error [of "cur_pid k" "running_tid k" frame "ptable k"]
    by (cases "save_context_to_table (cur_pid k) (running_tid k) frame (ptable k)") (auto simp: save_current_def on_ptable_def)
  have "fst (handle_abort B evs frame k) = Panic"
    using save by (cases r) (auto simp: handle_abort_def stop drop_error_def)
  then show ?thesis using assms(3) by (auto simp: user_sync_handler_def Let_def)
qed

theorem fault_of_a_system_process_stops_the_kernel_witness:
  "fst (user_sync_handler fun_bits quiet_world 0x92000046 [] thread_default second_running) = Panic"
  by (rule fault_of_a_system_process_stops_the_kernel [OF second_running_process(2)])
    (simp_all add: second_process_def process_new_def)

end
