(* ===== verification/Ram_Files.thy ===== *)
theory Ram_Files
  imports Kernel_Prelude
begin

text \<open>
  The in-memory file system, \<open>os/fs/src/ramfs.rs\<close> (and its copy
  \<open>xous/kernel/src/shell/ramfs.rs\<close>): a table of 64 fixed-size entries that are found by their
  normalised path.  Strings are their UTF-8 bytes.  The table refines a finite map
  from paths to directories and file contents.
\<close>

section \<open>Strings\<close>

text \<open>The characters that \<open>str::trim\<close> removes, those with the property \<open>White_Space\<close>, in UTF-8.\<close>

definition white_chars :: "u8 list list" where
  "white_chars =
    [[0x09], [0x0A], [0x0B], [0x0C], [0x0D], [0x20], [0xC2, 0x85], [0xC2, 0xA0], [0xE1, 0x9A, 0x80]] @
    map (\<lambda>b. [0xE2, 0x80, b])
      [0x80, 0x81, 0x82, 0x83, 0x84, 0x85, 0x86, 0x87, 0x88, 0x89, 0x8A, 0xA8, 0xA9, 0xAF] @
    [[0xE2, 0x81, 0x9F], [0xE3, 0x80, 0x80]]"

function strip_prefixes :: "u8 list list \<Rightarrow> u8 list \<Rightarrow> u8 list" where
  "strip_prefixes ws bs =
    (case find (\<lambda>w. w \<noteq> [] \<and> take (length w) bs = w) ws of
       None \<Rightarrow> bs
     | Some w \<Rightarrow> strip_prefixes ws (drop (length w) bs))"
  by pat_completeness auto

termination
proof (relation "measure (\<lambda>(ws, bs). length bs)")
  fix ws bs w
  assume "find (\<lambda>w. w \<noteq> [] \<and> take (length w) bs = w) ws = Some w"
  then have "w \<noteq> []" "take (length w) bs = w" by (auto simp: find_Some_iff)
  then show "((ws, drop (length w) bs), (ws, bs)) \<in> measure (\<lambda>(ws, bs). length bs)" by (cases bs) auto
qed simp

declare strip_prefixes.simps [simp del]

definition str_trim :: "u8 list \<Rightarrow> u8 list" where
  "str_trim s = rev (strip_prefixes (map rev white_chars) (rev (strip_prefixes white_chars s)))"

abbreviation slash :: u8 where "slash \<equiv> 0x2F"

section \<open>Entries\<close>

definition MAX_FILES :: nat where "MAX_FILES = 64"
definition MAX_NAME_LEN :: nat where "MAX_NAME_LEN = 63"
definition MAX_FILE_SIZE :: nat where "MAX_FILE_SIZE = 4096"

record file_entry =
  fe_name :: "u8 list"
  fe_data :: "u8 list"
  fe_len :: nat
  fe_used :: bool
  fe_is_dir :: bool

definition file_entry_empty :: file_entry where
  "file_entry_empty =
    \<lparr>fe_name = replicate (MAX_NAME_LEN + 1) 0, fe_data = replicate MAX_FILE_SIZE 0, fe_len = 0,
     fe_used = False, fe_is_dir = False\<rparr>"

definition name_str :: "file_entry \<Rightarrow> u8 list" where
  "name_str e = takeWhile (\<lambda>b. b \<noteq> 0) (fe_name e)"

definition set_file_name :: "u8 list \<Rightarrow> file_entry \<Rightarrow> file_entry" where
  "set_file_name name e =
    (let len = min (length name) MAX_NAME_LEN in
     e\<lparr>fe_name := take len name @ 0 # drop (len + 1) (fe_name e)\<rparr>)"

definition set_content :: "u8 list \<Rightarrow> file_entry \<Rightarrow> file_entry" where
  "set_content content e =
    e\<lparr>fe_data := content @ drop (length content) (fe_data e), fe_len := length content\<rparr>"

datatype fs_error =
    FsNotFound | FsAlreadyExists | FsNoSpace | FsNameTooLong | FsFileTooLarge | FsIsDirectory | FsNotDirectory
  | FsNotEmpty

type_synonym 'a fs_result = "(fs_error, 'a) outcome"
type_synonym file_table = "file_entry list"

section \<open>Operations\<close>

definition normalize_path :: "u8 list \<Rightarrow> u8 list" where
  "normalize_path path =
    (let path = str_trim path;
         start = (if take 1 path = [slash] then [] else [slash]);
         buf = start @ take (MAX_NAME_LEN - length start) path
     in if length buf > 1 \<and> last buf = slash then butlast buf else buf)"

definition find_entry :: "file_table \<Rightarrow> u8 list \<Rightarrow> nat option" where
  "find_entry fs path = find (\<lambda>i. fe_used (fs ! i) \<and> name_str (fs ! i) = path) [0 ..< MAX_FILES]"

definition find_free :: "file_table \<Rightarrow> nat option" where
  "find_free fs = find (\<lambda>i. \<not> fe_used (fs ! i)) [0 ..< MAX_FILES]"

definition ramfs_table :: file_table where
  "ramfs_table = replicate MAX_FILES file_entry_empty"

definition ramfs_init :: "file_table \<Rightarrow> file_table" where
  "ramfs_init fs = fs[0 := (set_file_name [slash] (fs ! 0))\<lparr>fe_used := True, fe_is_dir := True\<rparr>]"

definition ramfs_mkdir :: "u8 list \<Rightarrow> file_table \<Rightarrow> unit fs_result \<times> file_table" where
  "ramfs_mkdir path fs =
    (let path = normalize_path path in
     if length path > MAX_NAME_LEN then (Err FsNameTooLong, fs)
     else if find_entry fs path \<noteq> None then (Err FsAlreadyExists, fs)
     else sbind (ok_or (find_free fs) FsNoSpace, fs) (\<lambda>idx fs.
       (Ok (), fs[idx := (set_file_name path file_entry_empty)\<lparr>fe_used := True, fe_is_dir := True\<rparr>])))"

definition ramfs_write :: "u8 list \<Rightarrow> u8 list \<Rightarrow> file_table \<Rightarrow> unit fs_result \<times> file_table" where
  "ramfs_write path content fs =
    (let path = normalize_path path in
     if length path > MAX_NAME_LEN then (Err FsNameTooLong, fs)
     else if length content > MAX_FILE_SIZE then (Err FsFileTooLarge, fs)
     else case find_entry fs path of
       Some idx \<Rightarrow>
         if fe_is_dir (fs ! idx) then (Err FsIsDirectory, fs) else (Ok (), fs[idx := set_content content (fs ! idx)])
     | None \<Rightarrow>
         sbind (ok_or (find_free fs) FsNoSpace, fs) (\<lambda>idx fs.
         (Ok (), fs[idx := (set_content content (set_file_name path file_entry_empty))\<lparr>fe_used := True, fe_is_dir := False\<rparr>])))"

definition ramfs_read :: "u8 list \<Rightarrow> file_table \<Rightarrow> u8 list fs_result" where
  "ramfs_read path fs =
    obind (ok_or (find_entry fs (normalize_path path)) FsNotFound) (\<lambda>idx.
      if fe_is_dir (fs ! idx) then Err FsIsDirectory else Ok (take (fe_len (fs ! idx)) (fe_data (fs ! idx))))"

definition has_children :: "file_table \<Rightarrow> nat \<Rightarrow> u8 list \<Rightarrow> bool" where
  "has_children fs idx path =
    (find (\<lambda>i. fe_used (fs ! i) \<and> i \<noteq> idx \<and>
       (let n = name_str (fs ! i) in
        length n > length path + 1 \<and> take (length path) n = take (length path) path \<and> n ! length path = slash))
       [0 ..< MAX_FILES] \<noteq> None)"

definition ramfs_remove :: "u8 list \<Rightarrow> file_table \<Rightarrow> unit fs_result \<times> file_table" where
  "ramfs_remove path fs =
    (let path = normalize_path path in
     if path = [slash] then (Err FsNotEmpty, fs)
     else sbind (ok_or (find_entry fs path) FsNotFound, fs) (\<lambda>idx fs.
       if fe_is_dir (fs ! idx) \<and> has_children fs idx path then (Err FsNotEmpty, fs)
       else (Ok (), fs[idx := (fs ! idx)\<lparr>fe_used := False\<rparr>])))"

definition is_child :: "u8 list \<Rightarrow> u8 list \<Rightarrow> bool" where
  "is_child dir name =
    (if dir = [slash] then take 1 name = [slash] \<and> slash \<notin> set (drop 1 name)
     else take (length dir) name = dir \<and> length dir < length name \<and> name ! length dir = slash \<and>
       slash \<notin> set (drop (length dir + 1) name))"

definition basename :: "u8 list \<Rightarrow> u8 list" where
  "basename name = rev (takeWhile (\<lambda>b. b \<noteq> slash) (rev name))"

definition ramfs_list :: "u8 list \<Rightarrow> file_table \<Rightarrow> (u8 list \<times> bool \<times> nat) list fs_result" where
  "ramfs_list dir fs =
    (let dir = normalize_path dir in
     obind (ok_or (find_entry fs dir) FsNotFound) (\<lambda>idx.
     if \<not> fe_is_dir (fs ! idx) then Err FsNotDirectory
     else Ok (map (\<lambda>i. (basename (name_str (fs ! i)), fe_is_dir (fs ! i), fe_len (fs ! i)))
       (filter (\<lambda>i. fe_used (fs ! i) \<and> name_str (fs ! i) \<noteq> dir \<and> is_child dir (name_str (fs ! i))) [0 ..< MAX_FILES]))))"

definition ramfs_stats :: "file_table \<Rightarrow> nat \<times> nat \<times> nat" where
  "ramfs_stats fs =
    (let used = filter (\<lambda>i. fe_used (fs ! i)) [0 ..< MAX_FILES] in
     (length used, MAX_FILES, sum_list (map (\<lambda>i. fe_len (fs ! i)) used)))"

section \<open>Lemmas on entries\<close>

lemma strip_prefixes_subset: "set (strip_prefixes ws bs) \<subseteq> set bs"
proof (induction ws bs rule: strip_prefixes.induct)
  case (1 ws bs)
  then show ?case by (subst strip_prefixes.simps) (auto split: option.split dest: in_set_dropD)
qed

lemma str_trim_subset: "set (str_trim s) \<subseteq> set s"
  using strip_prefixes_subset [of white_chars s]
    strip_prefixes_subset [of "map rev white_chars" "rev (strip_prefixes white_chars s)"]
  by (auto simp: str_trim_def)

text \<open>A normalised path fits in an entry, so that \<open>NameTooLong\<close> is never returned.\<close>

lemma normalize_path_bound: "length (normalize_path p) \<le> MAX_NAME_LEN"
  by (auto simp: normalize_path_def Let_def MAX_NAME_LEN_def)

lemma normalize_path_no_nul: "0 \<notin> set p \<Longrightarrow> 0 \<notin> set (normalize_path p)"
  using str_trim_subset [of p]
  by (auto simp: normalize_path_def Let_def dest!: in_set_takeD in_set_butlastD)

lemma name_set_name [simp]:
  "0 \<notin> set p \<Longrightarrow> length p \<le> MAX_NAME_LEN \<Longrightarrow> name_str (set_file_name p e) = p"
  by (auto simp: name_str_def set_file_name_def Let_def takeWhile_tail takeWhile_eq_all_conv)

lemma name_str_simps [simp]:
  "name_str (e\<lparr>fe_used := u\<rparr>) = name_str e" "name_str (e\<lparr>fe_is_dir := d\<rparr>) = name_str e"
  "name_str (set_content c e) = name_str e"
  by (simp_all add: name_str_def set_content_def)

lemma set_content_simps [simp]:
  "fe_used (set_content c e) = fe_used e" "fe_is_dir (set_content c e) = fe_is_dir e"
  "fe_used (set_file_name p e) = fe_used e" "fe_is_dir (set_file_name p e) = fe_is_dir e"
  by (simp_all add: set_content_def set_file_name_def Let_def)

definition entry_wf :: "file_entry \<Rightarrow> bool" where
  "entry_wf e \<longleftrightarrow> length (fe_name e) = MAX_NAME_LEN + 1 \<and> length (fe_data e) = MAX_FILE_SIZE \<and> fe_len e \<le> MAX_FILE_SIZE \<and>
    (fe_is_dir e \<longrightarrow> fe_len e = 0)"

lemma entry_wf_intros:
  "entry_wf file_entry_empty"
  "entry_wf e \<Longrightarrow> entry_wf (set_file_name p e)"
  "entry_wf e \<Longrightarrow> length c \<le> MAX_FILE_SIZE \<Longrightarrow> \<not> fe_is_dir e \<Longrightarrow> entry_wf (set_content c e)"
  "entry_wf e \<Longrightarrow> entry_wf (e\<lparr>fe_used := u\<rparr>)" "entry_wf e \<Longrightarrow> entry_wf (e\<lparr>fe_is_dir := False\<rparr>)"
  "entry_wf e \<Longrightarrow> fe_len e = 0 \<Longrightarrow> entry_wf (e\<lparr>fe_is_dir := True\<rparr>)"
  by (auto simp: entry_wf_def file_entry_empty_def set_file_name_def set_content_def Let_def)

lemma empty_simps [simp]:
  "fe_len (set_file_name p file_entry_empty) = 0" "\<not> fe_is_dir file_entry_empty"
  by (simp_all add: file_entry_empty_def set_file_name_def Let_def)

section \<open>The table as a map of paths\<close>

datatype node = Directory | Regular "u8 list"

definition node_of :: "file_entry \<Rightarrow> node" where
  "node_of e = (if fe_is_dir e then Directory else Regular (take (fe_len e) (fe_data e)))"

definition files_of :: "file_table \<Rightarrow> u8 list \<Rightarrow> node option" where
  "files_of fs p = map_option (\<lambda>i. node_of (fs ! i)) (find_entry fs p)"

definition fs_inv :: "file_table \<Rightarrow> bool" where
  "fs_inv fs \<longleftrightarrow> length fs = MAX_FILES \<and> (\<forall>e \<in> set fs. entry_wf e) \<and>
    (\<forall>i < MAX_FILES. \<forall>j < MAX_FILES. fe_used (fs ! i) \<and> fe_used (fs ! j) \<and> name_str (fs ! i) = name_str (fs ! j) \<longrightarrow> i = j)"

lemma find_entry_None: "find_entry fs p = None \<longleftrightarrow> (\<forall>i < MAX_FILES. \<not> (fe_used (fs ! i) \<and> name_str (fs ! i) = p))"
  by (auto simp: find_entry_def find_None_iff)

lemma find_entry_SomeD: "find_entry fs p = Some i \<Longrightarrow> i < MAX_FILES \<and> fe_used (fs ! i) \<and> name_str (fs ! i) = p"
  by (auto simp: find_entry_def find_Some_iff)

lemma entry_unique:
  "fs_inv fs \<Longrightarrow> i < MAX_FILES \<Longrightarrow> j < MAX_FILES \<Longrightarrow> fe_used (fs ! i) \<Longrightarrow> fe_used (fs ! j) \<Longrightarrow>
    name_str (fs ! i) = name_str (fs ! j) \<Longrightarrow> i = j"
  unfolding fs_inv_def by blast

lemma find_entry_iff:
  assumes "fs_inv fs"
  shows "find_entry fs p = Some i \<longleftrightarrow> i < MAX_FILES \<and> fe_used (fs ! i) \<and> name_str (fs ! i) = p"
proof (cases "find_entry fs p")
  case None
  then show ?thesis using find_entry_None [of fs p] by auto
next
  case (Some j)
  then show ?thesis using find_entry_SomeD [OF Some] entry_unique [OF assms, of i j] by auto
qed

lemma find_free_iff:
  "find_free fs = None \<longleftrightarrow> (\<forall>i < MAX_FILES. fe_used (fs ! i))"
  "find_free fs = Some i \<Longrightarrow> i < MAX_FILES \<and> \<not> fe_used (fs ! i)"
  by (auto simp: find_free_def find_None_iff find_Some_iff)

lemma content_node: "length c \<le> MAX_FILE_SIZE \<Longrightarrow> \<not> fe_is_dir e \<Longrightarrow> node_of (set_content c e) = Regular c"
  by (simp add: node_of_def set_content_def)

lemma fs_inv_update:
  assumes inv: "fs_inv fs" and i: "i < MAX_FILES" and wf: "entry_wf e"
    and new: "\<And>j. j < MAX_FILES \<Longrightarrow> j \<noteq> i \<Longrightarrow> fe_used e \<Longrightarrow> fe_used (fs ! j) \<Longrightarrow> name_str (fs ! j) \<noteq> name_str e"
  shows "fs_inv (fs[i := e])"
proof -
  have len: "length fs = MAX_FILES" and all: "\<forall>e \<in> set fs. entry_wf e"
    and old: "\<And>a b. a < MAX_FILES \<Longrightarrow> b < MAX_FILES \<Longrightarrow> fe_used (fs ! a) \<Longrightarrow> fe_used (fs ! b) \<Longrightarrow>
      name_str (fs ! a) = name_str (fs ! b) \<Longrightarrow> a = b"
    using inv unfolding fs_inv_def by blast+
  have "a = b" if "a < MAX_FILES" "b < MAX_FILES" "fe_used (fs[i := e] ! a)" "fe_used (fs[i := e] ! b)"
    "name_str (fs[i := e] ! a) = name_str (fs[i := e] ! b)" for a b
    using that old [of a b] new [of a] new [of b] len i by (cases "a = i"; cases "b = i") auto
  moreover have "\<forall>x \<in> set (fs[i := e]). entry_wf x" using all wf set_update_subset_insert [of fs i e] by blast
  ultimately show ?thesis unfolding fs_inv_def using len by simp
qed

lemma option_eqI: "(\<And>x. a = Some x \<longleftrightarrow> b = Some x) \<Longrightarrow> a = b"
  by (metis option.exhaust)

lemma files_of_update:
  assumes inv: "fs_inv fs" and i: "i < MAX_FILES" and inv': "fs_inv (fs[i := e])"
    and same: "fe_used (fs ! i) \<Longrightarrow> name_str (fs ! i) = name_str e"
    and new: "\<not> fe_used (fs ! i) \<Longrightarrow> find_entry fs (name_str e) = None"
  shows "files_of (fs[i := e]) = (files_of fs)(name_str e := (if fe_used e then Some (node_of e) else None))"
proof
  fix q
  have len: "length fs = MAX_FILES" using inv by (simp add: fs_inv_def)
  have iff: "find_entry (fs[i := e]) q = Some j \<longleftrightarrow>
      (if q = name_str e then fe_used e \<and> j = i else find_entry fs q = Some j)" for j
  proof (cases "j = i")
    case True
    then show ?thesis using find_entry_iff [OF inv', of q j] find_entry_iff [OF inv, of q j] i same len by auto
  next
    case False
    have "\<not> (fe_used (fs ! j) \<and> name_str (fs ! j) = name_str e)" if "j < MAX_FILES"
      using that False i same new entry_unique [OF inv i that] by (cases "fe_used (fs ! i)") (auto simp: find_entry_None)
    then show ?thesis using False find_entry_iff [OF inv', of q j] find_entry_iff [OF inv, of q j] by auto
  qed
  have "find_entry (fs[i := e]) q = (if q = name_str e then if fe_used e then Some i else None else find_entry fs q)"
    by (rule option_eqI) (auto simp: iff)
  moreover have "j \<noteq> i" if "find_entry fs q = Some j" "q \<noteq> name_str e" for j
    using that find_entry_iff [OF inv] same by auto
  ultimately show "files_of (fs[i := e]) q = ((files_of fs)(name_str e := (if fe_used e then Some (node_of e) else None))) q"
    using i len by (cases "find_entry fs q") (auto simp: files_of_def)
qed

text \<open>The table is full when 64 paths are in use.\<close>

lemma files_dom: "dom (files_of fs) = (\<lambda>i. name_str (fs ! i)) ` {i. i < MAX_FILES \<and> fe_used (fs ! i)}"
proof (rule set_eqI)
  fix p
  have "p \<in> dom (files_of fs) \<longleftrightarrow> \<not> find_entry fs p = None" by (simp add: domIff files_of_def)
  then show "p \<in> dom (files_of fs) \<longleftrightarrow> p \<in> (\<lambda>i. name_str (fs ! i)) ` {i. i < MAX_FILES \<and> fe_used (fs ! i)}"
    unfolding find_entry_None by auto
qed

lemma files_full:
  assumes "fs_inv fs"
  shows "find_free fs = None \<longleftrightarrow> card (dom (files_of fs)) \<ge> MAX_FILES"
proof -
  let ?U = "{i. i < MAX_FILES \<and> fe_used (fs ! i)}"
  have "inj_on (\<lambda>i. name_str (fs ! i)) ?U" using entry_unique [OF assms] by (auto intro: inj_onI)
  then have card: "card (dom (files_of fs)) = card ?U" by (simp add: files_dom card_image)
  have sub: "?U \<subseteq> {..<MAX_FILES}" by auto
  have "?U = {..<MAX_FILES}" if "card ?U \<ge> MAX_FILES"
    by (rule card_subset_eq [OF _ sub]) (use that card_mono [OF _ sub] in \<open>simp_all add: order_antisym\<close>)
  moreover have "card ?U = MAX_FILES" if "?U = {..<MAX_FILES}" unfolding that by simp
  moreover have "?U = {..<MAX_FILES} \<longleftrightarrow> (\<forall>i < MAX_FILES. fe_used (fs ! i))" by blast
  ultimately have "card ?U \<ge> MAX_FILES \<longleftrightarrow> (\<forall>i < MAX_FILES. fe_used (fs ! i))" by (metis order_refl)
  then show ?thesis unfolding find_free_iff(1) card by simp
qed

section \<open>The specification\<close>

type_synonym file_map = "u8 list \<Rightarrow> node option"

definition map_mkdir :: "u8 list \<Rightarrow> file_map \<Rightarrow> unit fs_result \<times> file_map" where
  "map_mkdir p m =
    (if m p \<noteq> None then (Err FsAlreadyExists, m)
     else if card (dom m) \<ge> MAX_FILES then (Err FsNoSpace, m)
     else (Ok (), m(p \<mapsto> Directory)))"

definition map_write :: "u8 list \<Rightarrow> u8 list \<Rightarrow> file_map \<Rightarrow> unit fs_result \<times> file_map" where
  "map_write p c m =
    (if length c > MAX_FILE_SIZE then (Err FsFileTooLarge, m)
     else if m p = Some Directory then (Err FsIsDirectory, m)
     else if m p = None \<and> card (dom m) \<ge> MAX_FILES then (Err FsNoSpace, m)
     else (Ok (), m(p \<mapsto> Regular c)))"

definition map_read :: "u8 list \<Rightarrow> file_map \<Rightarrow> u8 list fs_result" where
  "map_read p m =
    (case m p of None \<Rightarrow> Err FsNotFound | Some Directory \<Rightarrow> Err FsIsDirectory | Some (Regular c) \<Rightarrow> Ok c)"

definition below :: "u8 list \<Rightarrow> u8 list \<Rightarrow> bool" where
  "below dir p \<longleftrightarrow> (\<exists>r. r \<noteq> [] \<and> p = dir @ slash # r)"

definition map_remove :: "u8 list \<Rightarrow> file_map \<Rightarrow> unit fs_result \<times> file_map" where
  "map_remove p m =
    (if p = [slash] then (Err FsNotEmpty, m)
     else if m p = None then (Err FsNotFound, m)
     else if m p = Some Directory \<and> (\<exists>q \<in> dom m. below p q) then (Err FsNotEmpty, m)
     else (Ok (), m(p := None)))"

lemma below_iff: "below dir n \<longleftrightarrow> length n > length dir + 1 \<and> take (length dir) n = dir \<and> n ! length dir = slash"
proof
  assume r: "length n > length dir + 1 \<and> take (length dir) n = dir \<and> n ! length dir = slash"
  then have "n = take (length dir) n @ n ! length dir # drop (Suc (length dir)) n" by (intro id_take_nth_drop) simp
  with r have "n = dir @ slash # drop (Suc (length dir)) n" by simp
  moreover have "drop (Suc (length dir)) n \<noteq> []" using r by simp
  ultimately show "below dir n" unfolding below_def by blast
qed (auto simp: below_def)

lemma has_children_iff:
  assumes "fs_inv fs" "find_entry fs p = Some idx"
  shows "has_children fs idx p \<longleftrightarrow> (\<exists>q \<in> dom (files_of fs). below p q)"
proof -
  have "\<not> below p (name_str (fs ! idx))" using find_entry_SomeD [OF assms(2)] by (auto simp: below_iff)
  then show ?thesis
    unfolding has_children_def files_dom by (auto simp: find_None_iff Let_def below_iff)
qed

text \<open>A new entry in a free slot, and a changed entry in its own.\<close>

lemma files_add:
  assumes inv: "fs_inv fs" and free: "find_free fs = Some i" and none: "find_entry fs (name_str e) = None"
    and e: "entry_wf e" "fe_used e"
  shows "fs_inv (fs[i := e]) \<and> files_of (fs[i := e]) = (files_of fs)(name_str e \<mapsto> node_of e)"
proof -
  have i: "i < MAX_FILES" "\<not> fe_used (fs ! i)" using find_free_iff(2) [OF free] by auto
  have inv': "fs_inv (fs[i := e])" using none by (intro fs_inv_update [OF inv i(1) e(1)]) (auto simp: find_entry_None)
  show ?thesis using files_of_update [OF inv i(1) inv'] i(2) none e(2) inv' by simp
qed

lemma files_change:
  assumes inv: "fs_inv fs" and at: "find_entry fs p = Some i" and e: "entry_wf e" "name_str e = p"
  shows "fs_inv (fs[i := e]) \<and> files_of (fs[i := e]) = (files_of fs)(p := (if fe_used e then Some (node_of e) else None))"
proof -
  have i: "i < MAX_FILES" "fe_used (fs ! i)" "name_str (fs ! i) = p" using find_entry_SomeD [OF at] by auto
  have inv': "fs_inv (fs[i := e])"
  proof (rule fs_inv_update [OF inv i(1) e(1)])
    fix j
    assume "j < MAX_FILES" "j \<noteq> i" "fe_used (fs ! j)"
    then show "name_str (fs ! j) \<noteq> name_str e" using entry_unique [OF inv, of j i] i e(2) by auto
  qed
  show ?thesis using files_of_update [OF inv i(1) inv'] i e(2) inv' by simp
qed

lemma files_at: "find_entry fs p = Some i \<Longrightarrow> files_of fs p = Some (node_of (fs ! i))" "find_entry fs p = None \<Longrightarrow> files_of fs p = None"
  by (simp_all add: files_of_def)

lemma entry_wf_at: "fs_inv fs \<Longrightarrow> find_entry fs p = Some i \<Longrightarrow> entry_wf (fs ! i)"
  using find_entry_SomeD by (fastforce simp: fs_inv_def)

lemma mkdir_refines:
  assumes inv: "fs_inv fs" and nul: "0 \<notin> set path"
  shows "case ramfs_mkdir path fs of (r, fs') \<Rightarrow> fs_inv fs' \<and> (r, files_of fs') = map_mkdir (normalize_path path) (files_of fs)"
proof -
  let ?p = "normalize_path path" and ?e = "(set_file_name (normalize_path path) file_entry_empty)\<lparr>fe_used := True, fe_is_dir := True\<rparr>"
  note p = normalize_path_bound [of path] normalize_path_no_nul [OF nul]
  have e: "name_str ?e = ?p" "entry_wf ?e" "fe_used ?e" "node_of ?e = Directory"
    using p by (auto intro!: entry_wf_intros simp: node_of_def)
  show ?thesis
  proof (cases "find_entry fs ?p")
    case None
    show ?thesis
    proof (cases "find_free fs")
      case None
      then show ?thesis
        using p inv files_full [OF inv] files_at(2) [OF \<open>find_entry fs ?p = None\<close>] \<open>find_entry fs ?p = None\<close>
        by (simp add: ramfs_mkdir_def map_mkdir_def Let_def)
    next
      case (Some i)
      then show ?thesis
        using p files_full [OF inv] files_at(2) [OF None] None files_add [OF inv Some _ e(2,3)] e(1,4)
        by (simp add: ramfs_mkdir_def map_mkdir_def Let_def)
    qed
  next
    case (Some i)
    then show ?thesis using p inv files_at(1) [OF Some] by (simp add: ramfs_mkdir_def map_mkdir_def Let_def)
  qed
qed

lemma write_refines:
  assumes inv: "fs_inv fs" and nul: "0 \<notin> set path"
  shows "case ramfs_write path c fs of (r, fs') \<Rightarrow> fs_inv fs' \<and> (r, files_of fs') = map_write (normalize_path path) c (files_of fs)"
proof (cases "length c > MAX_FILE_SIZE")
  case True
  then show ?thesis using inv normalize_path_bound [of path] by (simp add: ramfs_write_def map_write_def Let_def)
next
  case False
  let ?p = "normalize_path path"
    and ?e = "(set_content c (set_file_name (normalize_path path) file_entry_empty))\<lparr>fe_used := True, fe_is_dir := False\<rparr>"
  note p = normalize_path_bound [of path] normalize_path_no_nul [OF nul]
  have e: "name_str ?e = ?p" "entry_wf ?e" "fe_used ?e" using p False by (auto intro!: entry_wf_intros)
  have c: "node_of ?e = Regular c" using False by (simp add: node_of_def set_content_def)
  show ?thesis
  proof (cases "find_entry fs ?p")
    case None
    show ?thesis
    proof (cases "find_free fs")
      case None
      then show ?thesis
        using p False inv files_full [OF inv] files_at(2) [OF \<open>find_entry fs ?p = None\<close>] \<open>find_entry fs ?p = None\<close>
        by (simp add: ramfs_write_def map_write_def Let_def)
    next
      case (Some i)
      then show ?thesis
        using p False files_full [OF inv] files_at(2) [OF None] None files_add [OF inv Some _ e(2,3)] e(1) c
        by (simp add: ramfs_write_def map_write_def Let_def)
    qed
  next
    case (Some i)
    show ?thesis
    proof (cases "fe_is_dir (fs ! i)")
      case True
      then show ?thesis
        using p False inv files_at(1) [OF Some] Some by (simp add: ramfs_write_def map_write_def Let_def node_of_def)
    next
      case reg: False
      let ?c = "set_content c (fs ! i)"
      have "entry_wf ?c" "name_str ?c = ?p" "fe_used ?c"
        using entry_wf_at [OF inv Some] find_entry_SomeD [OF Some] False reg by (auto intro: entry_wf_intros)
      moreover have "files_of fs ?p \<noteq> Some Directory" "files_of fs ?p \<noteq> None"
        using files_at(1) [OF Some] reg by (simp_all add: node_of_def)
      ultimately show ?thesis
        using p False reg files_change [OF inv Some, of ?c] content_node [of c "fs ! i"] Some
        by (simp add: ramfs_write_def map_write_def Let_def)
    qed
  qed
qed

lemma remove_refines:
  assumes inv: "fs_inv fs"
  shows "case ramfs_remove path fs of (r, fs') \<Rightarrow> fs_inv fs' \<and> (r, files_of fs') = map_remove (normalize_path path) (files_of fs)"
proof (cases "find_entry fs (normalize_path path)")
  case None
  then show ?thesis using inv files_at(2) [OF None] by (simp add: ramfs_remove_def map_remove_def Let_def)
next
  case (Some i)
  let ?e = "(fs ! i)\<lparr>fe_used := False\<rparr>"
  have "entry_wf ?e" "name_str ?e = normalize_path path"
    using entry_wf_at [OF inv Some] find_entry_SomeD [OF Some] by (auto intro: entry_wf_intros)
  then show ?thesis
    using inv Some files_at(1) [OF Some] has_children_iff [OF inv Some] files_change [OF inv Some, of ?e]
    by (auto simp: ramfs_remove_def map_remove_def Let_def node_of_def)
qed

lemma read_refines: "ramfs_read path fs = map_read (normalize_path path) (files_of fs)"
  by (cases "find_entry fs (normalize_path path)") (simp_all add: ramfs_read_def map_read_def files_of_def node_of_def)

lemma ramfs_start: "fs_inv (ramfs_init ramfs_table)" "files_of (ramfs_init ramfs_table) = [[slash] \<mapsto> Directory]"
proof -
  let ?e = "(set_file_name [slash] file_entry_empty)\<lparr>fe_used := True, fe_is_dir := True\<rparr>"
  have unused: "\<not> fe_used (ramfs_table ! i)" if "i < MAX_FILES" for i
    using that by (simp add: ramfs_table_def file_entry_empty_def)
  have inv: "fs_inv ramfs_table" using unused by (auto simp: fs_inv_def) (auto simp: ramfs_table_def intro: entry_wf_intros)
  have none: "files_of ramfs_table = Map.empty" using unused by (auto simp: files_of_def find_entry_None)
  have "ramfs_init ramfs_table = ramfs_table[0 := ?e]" by (simp add: ramfs_init_def ramfs_table_def MAX_FILES_def)
  moreover have "find_free ramfs_table = Some 0" using unused by (simp add: find_free_def MAX_FILES_def upt_rec)
  moreover have "name_str ?e = [slash]" "entry_wf ?e" "node_of ?e = Directory"
    by (auto simp: MAX_NAME_LEN_def node_of_def intro!: entry_wf_intros)
  moreover have "find_entry ramfs_table p = None" for p using unused by (simp add: find_entry_None)
  ultimately have "fs_inv (ramfs_init ramfs_table) \<and> files_of (ramfs_init ramfs_table) = (files_of ramfs_table)([slash] \<mapsto> Directory)"
    using files_add [OF inv, of 0 ?e] by simp
  then show "fs_inv (ramfs_init ramfs_table)" "files_of (ramfs_init ramfs_table) = [[slash] \<mapsto> Directory]" using none by auto
qed

lemma normalize_samples:
  "normalize_path [slash, 0x61] = [slash, 0x61]" "normalize_path [slash] = [slash]"
  "normalize_path [0x20, 0x61, slash] = [slash, 0x61]"
  by code_simp+

text \<open>
  Property C17: the table implements a finite map from normalised paths to directories and file
  contents.  For every path without a zero byte, creating a directory, writing, removing
  and reading return exactly the result that the map operation returns, error cases
  included, and change the map in the same way; the table stays well formed.
\<close>

theorem ramfs_refines_map:
  assumes inv: "fs_inv fs" and nul: "0 \<notin> set path"
  shows "(case ramfs_mkdir path fs of (r, fs') \<Rightarrow> fs_inv fs' \<and> (r, files_of fs') = map_mkdir (normalize_path path) (files_of fs)) \<and>
    (case ramfs_write path content fs of (r, fs') \<Rightarrow> fs_inv fs' \<and> (r, files_of fs') = map_write (normalize_path path) content (files_of fs)) \<and>
    (case ramfs_remove path fs of (r, fs') \<Rightarrow> fs_inv fs' \<and> (r, files_of fs') = map_remove (normalize_path path) (files_of fs)) \<and>
    ramfs_read path fs = map_read (normalize_path path) (files_of fs)"
  by (intro conjI mkdir_refines [OF assms] write_refines [OF assms] remove_refines [OF inv] read_refines)

theorem ramfs_refines_map_witness:
  "ramfs_read [0x20, 0x61, slash] (snd (ramfs_write [slash, 0x61] [1, 2, 3] (ramfs_init ramfs_table))) = Ok [1, 2, 3]"
proof -
  obtain r fs where w: "ramfs_write [slash, 0x61] [1, 2, 3] (ramfs_init ramfs_table) = (r, fs)" by fastforce
  have "fs_inv fs" "files_of fs [slash, 0x61] = Some (Regular [1, 2, 3])"
    using ramfs_refines_map [OF ramfs_start(1), of "[slash, 0x61]" "[1, 2, 3]"] w
    by (simp_all add: normalize_samples ramfs_start(2) map_write_def MAX_FILE_SIZE_def MAX_FILES_def)
  then show ?thesis
    using ramfs_refines_map [of fs "[0x20, 0x61, slash]"] w by (simp add: normalize_samples map_read_def)
qed

section \<open>Listing\<close>

definition child_path :: "u8 list \<Rightarrow> u8 list \<Rightarrow> u8 list" where
  "child_path dir b = (if dir = [slash] then slash # b else dir @ slash # b)"

definition listing_of :: "u8 list \<Rightarrow> node \<Rightarrow> u8 list \<times> bool \<times> nat" where
  "listing_of b n = (case n of Directory \<Rightarrow> (b, True, 0) | Regular c \<Rightarrow> (b, False, length c))"

lemma is_child_iff: "is_child dir name \<longleftrightarrow> (\<exists>b. name = child_path dir b \<and> slash \<notin> set b)"
proof (cases "dir = [slash]")
  case True
  then show ?thesis by (cases name) (auto simp: is_child_def child_path_def)
next
  case False
  have "name = dir @ slash # drop (Suc (length dir)) name"
    if "take (length dir) name = dir" "length dir < length name" "name ! length dir = slash"
    using id_take_nth_drop [OF that(2)] that by simp
  then show ?thesis using False by (auto simp: is_child_def child_path_def)
qed

lemma basename_child:
  assumes "slash \<notin> set b"
  shows "basename (child_path dir b) = b"
proof -
  have "takeWhile (\<lambda>b. b \<noteq> slash) (rev b @ slash # r) = rev b" for r
    using assms by (subst takeWhile_tail) (auto simp: takeWhile_eq_all_conv)
  then show ?thesis by (simp add: basename_def child_path_def)
qed

lemma listing_entry:
  "entry_wf e \<Longrightarrow> (b, fe_is_dir e, fe_len e) = listing_of b (node_of e)"
  by (auto simp: listing_of_def node_of_def entry_wf_def)

text \<open>
  Property C30: listing a directory shows exactly its direct children, each with its last name, its
  kind and its size; a path that is no directory or does not exist is refused.
\<close>

theorem listing_shows_children:
  assumes inv: "fs_inv fs"
  shows "case ramfs_list path fs of
      Ok es \<Rightarrow> files_of fs (normalize_path path) = Some Directory \<and>
        set es = {listing_of b n | b n. slash \<notin> set b \<and> child_path (normalize_path path) b \<noteq> normalize_path path \<and>
          files_of fs (child_path (normalize_path path) b) = Some n}
    | Err e \<Rightarrow> (files_of fs (normalize_path path) = None \<and> e = FsNotFound) \<or>
        (\<exists>c. files_of fs (normalize_path path) = Some (Regular c) \<and> e = FsNotDirectory)
    | Panic \<Rightarrow> False"
proof (cases "find_entry fs (normalize_path path)")
  case None
  then show ?thesis using files_at(2) [OF None] by (simp add: ramfs_list_def Let_def)
next
  case (Some idx)
  let ?d = "normalize_path path"
  have at: "files_of fs q = Some n \<longleftrightarrow> (\<exists>i < MAX_FILES. fe_used (fs ! i) \<and> name_str (fs ! i) = q \<and> node_of (fs ! i) = n)" for q n
    using find_entry_iff [OF inv, of q] by (auto simp: files_of_def)
  have wf: "entry_wf (fs ! i)" if "i < MAX_FILES" for i using inv that by (simp add: fs_inv_def)
  have "(\<lambda>i. (basename (name_str (fs ! i)), fe_is_dir (fs ! i), fe_len (fs ! i))) `
      {i. i < MAX_FILES \<and> fe_used (fs ! i) \<and> name_str (fs ! i) \<noteq> ?d \<and> is_child ?d (name_str (fs ! i))} =
    {listing_of b n | b n. slash \<notin> set b \<and> child_path ?d b \<noteq> ?d \<and> files_of fs (child_path ?d b) = Some n}"
    unfolding at is_child_iff by (force simp: basename_child listing_entry [OF wf])
  then show ?thesis
    using Some files_at(1) [OF Some] by (auto simp: ramfs_list_def Let_def node_of_def)
qed

theorem listing_shows_children_witness:
  "\<exists>es. ramfs_list [slash] (snd (ramfs_mkdir [0x20, 0x61, slash] (ramfs_init ramfs_table))) = Ok es \<and> set es = {([0x61], True, 0)}"
proof -
  obtain r fs where w: "ramfs_mkdir [0x20, 0x61, slash] (ramfs_init ramfs_table) = (r, fs)" by fastforce
  have inv: "fs_inv fs" and files: "files_of fs = [[slash] \<mapsto> Directory, [slash, 0x61] \<mapsto> Directory]"
    using mkdir_refines [OF ramfs_start(1), of "[0x20, 0x61, slash]"] w
    by (simp_all add: normalize_samples ramfs_start(2) map_mkdir_def MAX_FILES_def)
  have "{listing_of b n | b n. slash \<notin> set b \<and> child_path [slash] b \<noteq> [slash] \<and> files_of fs (child_path [slash] b) = Some n}
      = {([0x61], True, 0)}"
    by (auto simp: files child_path_def listing_of_def split: if_splits)
  then show ?thesis
    using listing_shows_children [OF inv, of "[slash]"] w files by (auto simp: normalize_samples split: outcome.splits)
qed

end
