(* ===== verification/Tar_Archive.thy ===== *)
theory Tar_Archive
  imports Ram_Files
begin

text \<open>
  The reader of tar archives, \<open>os/fs/src/tarfs.rs\<close>, with which the file system service reads
  the disk.  The archive is the list of its bytes; a position is a natural number, which
  cannot overflow because a size field has at most 36 bits.  Each of the four loops over
  the archive is compared with one pass that lists the entries, and the reader with the ustar format,
  which says what an archive of some files is.
\<close>

section \<open>Headers\<close>

definition HEADER_SIZE :: nat where "HEADER_SIZE = 512"

fun octal_digits :: "nat \<Rightarrow> u8 list \<Rightarrow> nat" where
  "octal_digits r [] = r"
| "octal_digits r (b # bs) =
    (if b = 0 \<or> b = 0x20 then r
     else if 0x30 \<le> b \<and> b \<le> 0x37 then octal_digits (r * 8 + unat (b - 0x30)) bs
     else octal_digits r bs)"

definition parse_octal :: "u8 list \<Rightarrow> nat" where
  "parse_octal bs = octal_digits 0 bs"

definition round_up_512 :: "nat \<Rightarrow> nat" where
  "round_up_512 n = (n + 511) div 512 * 512"

definition tar_name :: "u8 list \<Rightarrow> u8 list" where
  "tar_name h = (case from_utf8 (takeWhile (\<lambda>b. b \<noteq> 0) (take 100 h)) of None \<Rightarrow> [] | Some s \<Rightarrow> s)"

definition tar_size :: "u8 list \<Rightarrow> nat" where
  "tar_size h = parse_octal (take 12 (drop 124 h))"

definition tar_is_file :: "u8 list \<Rightarrow> bool" where
  "tar_is_file h \<longleftrightarrow> h ! 156 = 0x30 \<or> h ! 156 = 0"

definition tar_is_dir :: "u8 list \<Rightarrow> bool" where
  "tar_is_dir h \<longleftrightarrow> h ! 156 = 0x35"

definition tar_is_valid :: "u8 list \<Rightarrow> bool" where
  "tar_is_valid h \<longleftrightarrow> h ! 0 \<noteq> 0"

definition strip_first :: "u8 list \<Rightarrow> u8 list" where
  "strip_first s = (if take 1 s = [slash] then drop 1 s else s)"

definition strip_last :: "u8 list \<Rightarrow> u8 list" where
  "strip_last s = (if s \<noteq> [] \<and> last s = slash then butlast s else s)"

section \<open>Operations\<close>

function tar_find_from :: "u8 list \<Rightarrow> u8 list \<Rightarrow> nat \<Rightarrow> u8 list option" where
  "tar_find_from data path offset =
    (if offset + HEADER_SIZE \<le> length data then
       let h = take HEADER_SIZE (drop offset data); size = tar_size h; data_offset = offset + HEADER_SIZE in
       if \<not> tar_is_valid h then None
       else if strip_last (tar_name h) = strip_last path \<and> tar_is_file h \<and> data_offset + size \<le> length data
       then Some (take size (drop data_offset data))
       else tar_find_from data path (data_offset + round_up_512 size)
     else None)"
  by pat_completeness auto

termination
  by (relation "measure (\<lambda>(data, path, offset). length data - offset)") (auto simp: HEADER_SIZE_def)

definition tar_find :: "u8 list \<Rightarrow> u8 list \<Rightarrow> u8 list option" where
  "tar_find data path = tar_find_from data (strip_first path) 0"

text \<open>What \<open>list\<close> makes of one entry: the name relative to the directory, when it is a direct child.\<close>

definition relative_name :: "u8 list \<Rightarrow> u8 list \<Rightarrow> u8 list option" where
  "relative_name dir name =
    (if dir = [] then Some name
     else if take (length dir) name = dir then
       (let rest = strip_first (drop (length dir) name) in if rest = [] then None else Some rest)
     else None)"

definition tar_listing :: "u8 list \<Rightarrow> u8 list \<Rightarrow> (u8 list \<times> bool \<times> nat) list" where
  "tar_listing dir h =
    (case relative_name dir (tar_name h) of
       None \<Rightarrow> []
     | Some rel \<Rightarrow> let clean = strip_last rel in if slash \<in> set clean then [] else [(clean, tar_is_dir h, tar_size h)])"

function tar_list_from :: "u8 list \<Rightarrow> u8 list \<Rightarrow> nat \<Rightarrow> (u8 list \<times> bool \<times> nat) list" where
  "tar_list_from data dir offset =
    (if offset + HEADER_SIZE \<le> length data then
       let h = take HEADER_SIZE (drop offset data) in
       if \<not> tar_is_valid h then []
       else tar_listing dir h @ tar_list_from data dir (offset + HEADER_SIZE + round_up_512 (tar_size h))
     else [])"
  by pat_completeness auto

termination
  by (relation "measure (\<lambda>(data, path, offset). length data - offset)") (auto simp: HEADER_SIZE_def)

definition tar_list :: "u8 list \<Rightarrow> u8 list \<Rightarrow> (u8 list \<times> bool \<times> nat) list" where
  "tar_list data dir = tar_list_from data (strip_first dir) 0"

definition shows_dir :: "u8 list \<Rightarrow> u8 list \<Rightarrow> bool" where
  "shows_dir dir h =
    (let name = strip_first (tar_name h) in
     strip_last name = dir \<and> tar_is_dir h \<or>
     take (length dir) name = dir \<and> length dir < length name \<and> name ! length dir = slash)"

function tar_has_dir_from :: "u8 list \<Rightarrow> u8 list \<Rightarrow> nat \<Rightarrow> bool" where
  "tar_has_dir_from data dir offset =
    (if offset + HEADER_SIZE \<le> length data then
       let h = take HEADER_SIZE (drop offset data) in
       if \<not> tar_is_valid h then False
       else if shows_dir dir h then True
       else tar_has_dir_from data dir (offset + HEADER_SIZE + round_up_512 (tar_size h))
     else False)"
  by pat_completeness auto

termination
  by (relation "measure (\<lambda>(data, path, offset). length data - offset)") (auto simp: HEADER_SIZE_def)

definition tar_has_dir :: "u8 list \<Rightarrow> u8 list \<Rightarrow> bool" where
  "tar_has_dir data dir =
    (let dir = strip_last (strip_first dir) in if dir = [] then True else tar_has_dir_from data dir 0)"

function tar_count_from :: "u8 list \<Rightarrow> nat \<Rightarrow> nat" where
  "tar_count_from data offset =
    (if offset + HEADER_SIZE \<le> length data then
       let h = take HEADER_SIZE (drop offset data) in
       if \<not> tar_is_valid h then 0
       else Suc (tar_count_from data (offset + HEADER_SIZE + round_up_512 (tar_size h)))
     else 0)"
  by pat_completeness auto

termination
  by (relation "measure (\<lambda>(data, offset). length data - offset)") (auto simp: HEADER_SIZE_def)

definition tar_count :: "u8 list \<Rightarrow> nat" where
  "tar_count data = tar_count_from data 0"

declare tar_find_from.simps [simp del] tar_list_from.simps [simp del] tar_has_dir_from.simps [simp del]
  tar_count_from.simps [simp del]

section \<open>One pass over the archive\<close>

text \<open>The entries of an archive: each header with the bytes that follow it.\<close>

function tar_entries :: "u8 list \<Rightarrow> (u8 list \<times> u8 list) list" where
  "tar_entries data =
    (if HEADER_SIZE \<le> length data \<and> tar_is_valid data then
       (take HEADER_SIZE data, drop HEADER_SIZE data) #
         tar_entries (drop (HEADER_SIZE + round_up_512 (tar_size (take HEADER_SIZE data))) data)
     else [])"
  by pat_completeness auto

termination
  by (relation "measure length") (auto simp: HEADER_SIZE_def)

declare tar_entries.simps [simp del]

definition entry_content :: "u8 list \<times> u8 list \<Rightarrow> u8 list option" where
  "entry_content e =
    (case e of (h, rest) \<Rightarrow> if tar_is_file h \<and> tar_size h \<le> length rest then Some (take (tar_size h) rest) else None)"

lemma tar_is_valid_take: "HEADER_SIZE \<le> length data \<Longrightarrow> tar_is_valid (take HEADER_SIZE data) = tar_is_valid data"
  by (simp add: tar_is_valid_def HEADER_SIZE_def)

text \<open>Each loop, at a position, is a function of the entries from there on.\<close>

lemma tar_entries_at:
  "tar_entries (drop offset data) =
    (if offset + HEADER_SIZE \<le> length data \<and> tar_is_valid (take HEADER_SIZE (drop offset data)) then
       (take HEADER_SIZE (drop offset data), drop (offset + HEADER_SIZE) data) #
         tar_entries (drop (offset + HEADER_SIZE + round_up_512 (tar_size (take HEADER_SIZE (drop offset data)))) data)
     else [])"
proof -
  have "HEADER_SIZE > 0" by (simp add: HEADER_SIZE_def)
  then show ?thesis by (subst tar_entries.simps) (auto simp: tar_is_valid_take ac_simps)
qed

fun tar_lookup :: "u8 list \<Rightarrow> (u8 list \<times> u8 list) list \<Rightarrow> u8 list option" where
  "tar_lookup path [] = None"
| "tar_lookup path (e # es) =
    (if strip_last (tar_name (fst e)) = strip_last path \<and> entry_content e \<noteq> None then entry_content e
     else tar_lookup path es)"

lemma tar_find_entries: "tar_find_from data path offset = tar_lookup path (tar_entries (drop offset data))"
proof (induction data path offset rule: tar_find_from.induct)
  case (1 data path offset)
  then show ?case
    by (subst tar_find_from.simps, subst tar_entries_at) (auto simp: Let_def entry_content_def split: if_splits)
qed

lemma tar_list_entries: "tar_list_from data dir offset = concat (map (\<lambda>e. tar_listing dir (fst e)) (tar_entries (drop offset data)))"
proof (induction data dir offset rule: tar_list_from.induct)
  case (1 data dir offset)
  then show ?case by (subst tar_list_from.simps, subst tar_entries_at) (auto simp: Let_def)
qed

lemma tar_has_dir_entries: "tar_has_dir_from data dir offset = list_ex (\<lambda>e. shows_dir dir (fst e)) (tar_entries (drop offset data))"
proof (induction data dir offset rule: tar_has_dir_from.induct)
  case (1 data dir offset)
  then show ?case by (subst tar_has_dir_from.simps, subst tar_entries_at) (auto simp: Let_def)
qed

lemma tar_count_entries: "tar_count_from data offset = length (tar_entries (drop offset data))"
proof (induction data offset rule: tar_count_from.induct)
  case (1 data offset)
  then show ?case by (subst tar_count_from.simps, subst tar_entries_at) (auto simp: Let_def)
qed

text \<open>
  Property C29: the four loops over a tar archive, which find a file, list a directory, test for a
  directory and count the entries, each with its own walk over the bytes, agree
  with one pass that lists the entries: on every sequence of bytes, well formed or not.
\<close>

theorem tar_operations_agree:
  "tar_find data path = tar_lookup (strip_first path) (tar_entries data) \<and>
   tar_list data path = concat (map (\<lambda>e. tar_listing (strip_first path) (fst e)) (tar_entries data)) \<and>
   tar_has_dir data path = (strip_last (strip_first path) = [] \<or>
     list_ex (\<lambda>e. shows_dir (strip_last (strip_first path)) (fst e)) (tar_entries data)) \<and>
   tar_count data = length (tar_entries data)"
  using tar_find_entries [of data _ 0] tar_list_entries [of data _ 0] tar_has_dir_entries [of data _ 0]
    tar_count_entries [of data 0]
  by (simp add: tar_find_def tar_list_def tar_has_dir_def tar_count_def Let_def)

section \<open>Archives in the ustar format\<close>

text \<open>
  The format the archive is read in, after POSIX \<open>pax\<close>: a header block has the name at offset 0,
  padded with zero bytes, the size in eleven octal digits and a zero byte at 124, the
  checksum at 148, the type flag at 156, the magic at 257 and, for long paths, a prefix of
  the name at 345.  The mode, owner, time, link and device fields can be anything.  The
  contents follow, padded to whole blocks, and two blocks of zero bytes end the archive.
\<close>

record tar_file =
  tf_name :: "u8 list"
  tf_type :: u8
  tf_content :: "u8 list"

fun octal_of :: "nat \<Rightarrow> nat \<Rightarrow> u8 list" where
  "octal_of 0 n = []"
| "octal_of (Suc w) n = octal_of w (n div 8) @ [of_nat (48 + n mod 8)]"

definition pad_to :: "nat \<Rightarrow> u8 list \<Rightarrow> u8 list" where
  "pad_to n bs = bs @ replicate (n - length bs) 0"

text \<open>The sum of the bytes of the header, with blanks in place of the checksum.\<close>

definition ustar_checksum :: "u8 list \<Rightarrow> nat" where
  "ustar_checksum h = sum_list (map unat (take 148 h @ replicate 8 0x20 @ drop 156 h))"

definition ustar_header :: "tar_file \<Rightarrow> u8 list \<Rightarrow> bool" where
  "ustar_header f h \<longleftrightarrow> length h = HEADER_SIZE \<and>
    take 100 h = pad_to 100 (tf_name f) \<and>
    take 12 (drop 124 h) = octal_of 11 (length (tf_content f)) @ [0] \<and> length (tf_content f) < 8 ^ 11 \<and>
    parse_octal (take 8 (drop 148 h)) = ustar_checksum h \<and>
    h ! 156 = tf_type f \<and>
    take 5 (drop 257 h) = [0x75, 0x73, 0x74, 0x61, 0x72] \<and>
    take 155 (drop 345 h) = replicate 155 0"

text \<open>Names in UTF-8 that fit the name field, so that the prefix is empty.\<close>

definition tar_file_wf :: "tar_file \<Rightarrow> bool" where
  "tar_file_wf f \<longleftrightarrow> tf_name f \<noteq> [] \<and> length (tf_name f) \<le> 100 \<and> 0 \<notin> set (tf_name f) \<and> utf8_valid (tf_name f)"

fun ustar_archive :: "tar_file list \<Rightarrow> u8 list \<Rightarrow> bool" where
  "ustar_archive [] data \<longleftrightarrow> length data \<ge> 2 * HEADER_SIZE \<and> (\<forall>b \<in> set data. b = 0)"
| "ustar_archive (f # fs) data \<longleftrightarrow>
    ustar_header f (take HEADER_SIZE data) \<and>
    take (length (tf_content f)) (drop HEADER_SIZE data) = tf_content f \<and>
    ustar_archive fs (drop (HEADER_SIZE + round_up_512 (length (tf_content f))) data)"

lemma octal_of_length [simp]: "length (octal_of w n) = w"
  by (induction w arbitrary: n) simp_all

lemma octal_digit:
  assumes "d < 8"
  shows "octal_digits r ((of_nat (48 + d) :: u8) # bs) = octal_digits (r * 8 + d) bs"
proof -
  have "d = 0 \<or> d = 1 \<or> d = 2 \<or> d = 3 \<or> d = 4 \<or> d = 5 \<or> d = 6 \<or> d = 7" using assms by arith
  then show ?thesis by (elim disjE) simp_all
qed

lemma octal_of_parse: "n < 8 ^ w \<Longrightarrow> octal_digits r (octal_of w n @ bs) = octal_digits (r * 8 ^ w + n) bs"
proof (induction w arbitrary: n bs)
  case (Suc w)
  have "n div 8 < 8 ^ w" using Suc.prems by (simp add: div_less_iff_less_mult mult.commute)
  then have "octal_digits r (octal_of (Suc w) n @ bs) = octal_digits ((r * 8 ^ w + n div 8) * 8 + n mod 8) bs"
    using Suc.IH [of "n div 8" "of_nat (48 + n mod 8) # bs"] octal_digit [of "n mod 8"] by simp
  moreover have "(r * 8 ^ w + n div 8) * 8 + n mod 8 = r * 8 ^ Suc w + n" by (simp add: algebra_simps)
  ultimately show ?case by (simp only:)
qed simp

lemma ustar_header_fields:
  assumes h: "ustar_header f h" and wf: "tar_file_wf f"
  shows "tar_is_valid h" "tar_name h = tf_name f" "tar_size h = length (tf_content f)" "h ! 156 = tf_type f"
proof -
  have name: "length (tf_name f) \<le> 100" "0 \<notin> set (tf_name f)" "tf_name f \<noteq> []" using wf by (auto simp: tar_file_wf_def)
  have field: "take 100 h = tf_name f @ replicate (100 - length (tf_name f)) 0" using h by (simp add: ustar_header_def pad_to_def)
  have "h ! 0 = take 100 h ! 0" by simp
  also have "\<dots> = tf_name f ! 0" using name(3) by (simp add: field nth_append)
  finally show "tar_is_valid h" using name(2,3) by (cases "tf_name f") (auto simp: tar_is_valid_def)
  have "takeWhile (\<lambda>b. b \<noteq> 0) (tf_name f @ replicate m 0) = tf_name f" for m
    using name(2) by (cases m) (auto simp: takeWhile_tail takeWhile_eq_all_conv)
  then show "tar_name h = tf_name f" using wf by (simp add: tar_name_def field from_utf8_def tar_file_wf_def)
  show "tar_size h = length (tf_content f)"
    using octal_of_parse [of "length (tf_content f)" 11 0 "[0]"] h by (simp add: tar_size_def parse_octal_def ustar_header_def)
  show "h ! 156 = tf_type f" using h by (simp add: ustar_header_def)
qed

lemma tar_lookup_archive:
  "ustar_archive fs data \<Longrightarrow> list_all tar_file_wf fs \<Longrightarrow> tar_lookup path (tar_entries data) =
    map_option tf_content (find (\<lambda>f. strip_last (tf_name f) = strip_last path \<and> (tf_type f = 0x30 \<or> tf_type f = 0)) fs)"
proof (induction fs data rule: ustar_archive.induct)
  case (1 data)
  then have "\<not> tar_is_valid data" by (cases data) (auto simp: tar_is_valid_def HEADER_SIZE_def)
  then show ?case by (subst tar_entries.simps) simp
next
  case (2 f fs data)
  let ?h = "take HEADER_SIZE data" and ?r = "drop HEADER_SIZE data"
  have h: "ustar_header f ?h" "tar_file_wf f" and c: "take (length (tf_content f)) ?r = tf_content f" using 2 by simp_all
  note fields = ustar_header_fields [OF h]
  have "length ?h = HEADER_SIZE" using h(1) unfolding ustar_header_def by blast
  then have len: "HEADER_SIZE \<le> length data" by simp
  have "length (tf_content f) \<le> length ?r" using c by (metis length_take min.bounded_iff order_refl)
  then have "entry_content (?h, ?r) = (if tf_type f = 0x30 \<or> tf_type f = 0 then Some (tf_content f) else None)"
    using c fields(3,4) by (simp add: entry_content_def tar_is_file_def)
  moreover have "tar_entries data = (?h, ?r) # tar_entries (drop (HEADER_SIZE + round_up_512 (length (tf_content f))) data)"
    using len fields(1,3) tar_is_valid_take [OF len] by (subst tar_entries.simps) simp
  ultimately show ?case using 2 fields(2) by simp
qed

text \<open>
  Property C18: the files of a ustar archive are found.  For every sequence of bytes that is an archive
  of the given files, with correct checksums and any owner, mode and time, whose names
  are in UTF-8 and fit the name field (longer paths, of which ustar keeps a part in the prefix
  field, are not covered, as the reader ignores that field), looking up a path returns the
  contents of the first regular file of that name, and nothing when there is none, up to
  a leading slash of the path and a trailing slash of either.
\<close>

theorem tar_round_trip:
  assumes "ustar_archive fs data" "list_all tar_file_wf fs"
  shows "tar_find data path =
    map_option tf_content
      (find (\<lambda>f. strip_last (tf_name f) = strip_last (strip_first path) \<and> (tf_type f = 0x30 \<or> tf_type f = 0)) fs)"
  using tar_find_entries [of data _ 0] tar_lookup_archive [OF assms] by (simp add: tar_find_def)

text \<open>An archive of a directory and a file in it.\<close>

definition sample_start :: "u8 list \<Rightarrow> nat \<Rightarrow> u8 list" where
  "sample_start name n =
    pad_to 100 name @ (octal_of 7 420 @ [0]) @ (octal_of 7 1000 @ [0]) @ (octal_of 7 1000 @ [0]) @ (octal_of 11 n @ [0]) @
    (octal_of 11 1700000000 @ [0])"

definition sample_end :: "u8 \<Rightarrow> u8 list" where
  "sample_end typ = [typ] @ replicate 100 0 @ [0x75, 0x73, 0x74, 0x61, 0x72, 0, 0x30, 0x30] @ replicate 247 0"

definition sample_header :: "u8 list \<Rightarrow> nat \<Rightarrow> u8 \<Rightarrow> u8 list" where
  "sample_header name n typ =
    (let chk = sum_list (map unat (sample_start name n @ replicate 8 0x20 @ sample_end typ)) in
     sample_start name n @ (octal_of 6 chk @ [0, 0x20]) @ sample_end typ)"

definition sample_files :: "tar_file list" where
  "sample_files = [\<lparr>tf_name = [0x61, slash], tf_type = 0x35, tf_content = []\<rparr>,
    \<lparr>tf_name = [0x61, slash, 0x62], tf_type = 0x30, tf_content = [1, 2, 3]\<rparr>]"

definition sample_archive :: "u8 list" where
  "sample_archive = sample_header [0x61, slash] 0 0x35 @ sample_header [0x61, slash, 0x62] 3 0x30 @ [1, 2, 3] @ replicate 509 0 @ replicate 1024 0"

lemma sum_unat_bound: "sum_list (map unat (bs :: u8 list)) \<le> 255 * length bs"
proof (induction bs)
  case (Cons b bs)
  then show ?case using unat_bound [of b] by simp
qed simp

lemma sample_header_ustar:
  assumes name: "length (tf_name f) \<le> 100" and n: "length (tf_content f) = n" "n < 8 ^ 11"
  shows "ustar_header f (sample_header (tf_name f) n (tf_type f))"
proof -
  let ?h = "sample_header (tf_name f) n (tf_type f)"
  define c where "c = sum_list (map unat (sample_start (tf_name f) n @ replicate 8 0x20 @ sample_end (tf_type f)))"
  have start: "length (sample_start (tf_name f) n) = 148" using name by (simp add: sample_start_def pad_to_def)
  have len: "length (sample_end (tf_type f)) = 356" by (simp add: sample_end_def)
  have h: "?h = sample_start (tf_name f) n @ (octal_of 6 c @ [0, 0x20]) @ sample_end (tf_type f)"
    by (simp add: sample_header_def Let_def c_def)
  have "c < 8 ^ 6"
    using sum_unat_bound [of "sample_start (tf_name f) n @ replicate 8 0x20 @ sample_end (tf_type f)"] start len unfolding c_def by simp
  then have "parse_octal (take 8 (drop 148 ?h)) = c" using octal_of_parse [of c 6 0 "[0, 0x20]"] start by (simp add: h parse_octal_def)
  moreover have "ustar_checksum ?h = c" using start by (simp add: ustar_checksum_def h c_def)
  moreover have "take 100 ?h = pad_to 100 (tf_name f)" "take 12 (drop 124 ?h) = octal_of 11 n @ [0]"
    using name by (simp_all add: h sample_start_def pad_to_def)
  moreover have "length ?h = HEADER_SIZE" "?h ! 156 = tf_type f" "take 5 (drop 257 ?h) = [0x75, 0x73, 0x74, 0x61, 0x72]"
    "take 155 (drop 345 ?h) = replicate 155 0"
    using start len by (simp_all add: h HEADER_SIZE_def nth_append) (simp_all add: sample_end_def)
  ultimately show ?thesis using n unfolding ustar_header_def by simp
qed

lemma sample_ustar: "ustar_archive sample_files sample_archive"
proof -
  have len: "length (sample_header name n t) = HEADER_SIZE" if "length name \<le> 100" for name n t
    using that by (simp add: sample_header_def sample_start_def sample_end_def pad_to_def HEADER_SIZE_def Let_def)
  have "ustar_header \<lparr>tf_name = [0x61, slash], tf_type = 0x35, tf_content = []\<rparr> (sample_header [0x61, slash] 0 0x35)"
    "ustar_header \<lparr>tf_name = [0x61, slash, 0x62], tf_type = 0x30, tf_content = [1, 2, 3]\<rparr> (sample_header [0x61, slash, 0x62] 3 0x30)"
    using sample_header_ustar [of "\<lparr>tf_name = [0x61, slash], tf_type = 0x35, tf_content = []\<rparr>" 0]
      sample_header_ustar [of "\<lparr>tf_name = [0x61, slash, 0x62], tf_type = 0x30, tf_content = [1, 2, 3]\<rparr>" 3] by simp_all
  then show ?thesis by (simp add: sample_files_def sample_archive_def len round_up_512_def) (simp add: HEADER_SIZE_def)
qed

theorem tar_round_trip_witness: "tar_find sample_archive [slash, 0x61, slash, 0x62] = Some [1, 2, 3]"
proof -
  have "list_all tar_file_wf sample_files" by (simp add: sample_files_def tar_file_wf_def utf8_valid_ascii)
  from tar_round_trip [OF sample_ustar this, of "[slash, 0x61, slash, 0x62]"] show ?thesis
    by (simp add: sample_files_def strip_first_def strip_last_def)
qed

end
