(* ===== verification/File_Service.thy ===== *)
theory File_Service
  imports Tar_Archive Result_Codec
begin

text \<open>
  The file system service, \<open>os/fs/src/main.rs\<close>, with the packing of paths of
  \<open>api/fs/src/lib.rs\<close>: the requests in registers and in lent buffers on the RAM file system
  and the read-only disk.  What the service prints on the UART is part of its state.
\<close>

section \<open>The interface\<close>

definition MAX_PATH_LEN :: nat where "MAX_PATH_LEN = 32"
definition BUF_STATUS_OFFSET :: nat where "BUF_STATUS_OFFSET = MAX_PATH_LEN"
definition BUF_TEXT_OFFSET :: nat where "BUF_TEXT_OFFSET = MAX_PATH_LEN + 1"

datatype fs_op = OpCat | OpLs | OpMkdir | OpRemove | OpWriteShort | OpStats | OpIsDir | OpLsBuf | OpCatBuf

fun fs_op_code :: "fs_op \<Rightarrow> usize" where
  "fs_op_code OpCat = 0"
| "fs_op_code OpLs = 1"
| "fs_op_code OpMkdir = 2"
| "fs_op_code OpRemove = 3"
| "fs_op_code OpWriteShort = 4"
| "fs_op_code OpStats = 5"
| "fs_op_code OpIsDir = 6"
| "fs_op_code OpLsBuf = 7"
| "fs_op_code OpCatBuf = 8"

datatype fs_status =
    StOk | StNotFound | StAlreadyExists | StIsDirectory | StNotDirectory | StNotEmpty | StNoSpace | StReadOnly
  | StInvalidPath

fun fs_status_code :: "fs_status \<Rightarrow> nat" where
  "fs_status_code StOk = 0"
| "fs_status_code StNotFound = 1"
| "fs_status_code StAlreadyExists = 2"
| "fs_status_code StIsDirectory = 3"
| "fs_status_code StNotDirectory = 4"
| "fs_status_code StNotEmpty = 5"
| "fs_status_code StNoSpace = 6"
| "fs_status_code StReadOnly = 7"
| "fs_status_code StInvalidPath = 8"

definition word_le_bytes :: "usize \<Rightarrow> u8 list" where
  "word_le_bytes w = map (\<lambda>i. ucast (drop_bit (8 * i) w)) [0 ..< 8]"

definition word_from_le :: "u8 list \<Rightarrow> usize" where
  "word_from_le bs = foldr (\<lambda>b w. ucast b OR push_bit 8 w) bs 0"

definition pack_path :: "u8 list \<Rightarrow> usize list" where
  "pack_path path = map (\<lambda>i. word_from_le (take 8 (drop (8 * i) path))) [0 ..< 4]"

definition str_or_empty :: "u8 list \<Rightarrow> u8 list" where
  "str_or_empty bs = (case from_utf8 bs of None \<Rightarrow> [] | Some s \<Rightarrow> s)"

definition until_nul :: "u8 list \<Rightarrow> u8 list" where
  "until_nul bs = takeWhile (\<lambda>b. b \<noteq> 0) bs"

definition unpack_path :: "usize list \<Rightarrow> u8 list" where
  "unpack_path args = str_or_empty (until_nul (concat (map word_le_bytes args)))"

text \<open>The path in the first 32 bytes of a buffer; an empty buffer underflows its length.\<close>

definition write_path_to_buf :: "u8 list \<Rightarrow> u8 list \<Rightarrow> nat option \<times> u8 list" where
  "write_path_to_buf buf path =
    (if buf = [] then (None, buf)
     else let len = min (min (length path) (MAX_PATH_LEN - 1)) (length buf - 1) in
       (Some (len + 1), take len path @ 0 # drop (len + 1) buf))"

definition read_path_from_buf :: "u8 list \<Rightarrow> u8 list" where
  "read_path_from_buf buf = str_or_empty (until_nul (take MAX_PATH_LEN buf))"

section \<open>The service\<close>

record fs_service =
  fsv_files :: file_table
  fsv_disk_base :: usize
  fsv_disk :: "u8 list"
  fsv_uart_base :: usize
  fsv_output :: "u8 list"

text \<open>A literal, in ASCII.\<close>

definition ascii :: "string \<Rightarrow> u8 list" where
  "ascii s = map of_char s"

abbreviation newline :: u8 where "newline \<equiv> 0x0A"

definition fs_puts :: "u8 list \<Rightarrow> fs_service \<Rightarrow> fs_service" where
  "fs_puts bs s =
    (if fsv_uart_base s = 0 then s
     else s\<lparr>fsv_output := fsv_output s @ concat (map (\<lambda>c. if c = newline then [0x0D, newline] else [c]) bs)\<rparr>)"

definition get_disk_archive :: "fs_service \<Rightarrow> u8 list option" where
  "get_disk_archive s = (if fsv_disk s = [] \<or> fsv_disk_base s = 0 then None else Some (fsv_disk s))"

definition is_disk_path :: "u8 list \<Rightarrow> bool" where
  "is_disk_path path =
    (let p = strip_first path in p = ascii ''disk'' \<or> take 5 p = ascii ''disk/'')"

definition disk_subpath :: "u8 list \<Rightarrow> u8 list" where
  "disk_subpath path =
    (let p = strip_first path in
     if take 5 p = ascii ''disk/'' then drop 5 p else if take 4 p = ascii ''disk'' then drop 4 p else p)"

function decimal :: "nat \<Rightarrow> u8 list" where
  "decimal n = (if n < 10 then [of_nat (48 + n)] else decimal (n div 10) @ [of_nat (48 + n mod 10)])"
  by pat_completeness auto

termination
  by (relation "measure id") auto

declare decimal.simps [simp del]

definition file_text :: "u8 list \<Rightarrow> u8 list" where
  "file_text d =
    (case from_utf8 d of
       Some t \<Rightarrow> if t \<noteq> [] \<and> last t = newline then t else t @ [newline]
     | None \<Rightarrow> ascii ''<binary: '' @ decimal (length d) @ ascii '' bytes>'' @ [newline])"

definition file_at :: "u8 list \<Rightarrow> fs_service \<Rightarrow> (fs_status, u8 list) outcome" where
  "file_at path s =
    (if is_disk_path path then
       (case get_disk_archive s of
          None \<Rightarrow> Err StNotFound
        | Some archive \<Rightarrow> ok_or (tar_find archive (disk_subpath path)) StNotFound)
     else
       (case ramfs_read path (fsv_files s) of
          Ok d \<Rightarrow> Ok d
        | Err FsNotFound \<Rightarrow> Err StNotFound
        | Err FsIsDirectory \<Rightarrow> Err StIsDirectory
        | Err _ \<Rightarrow> Err StInvalidPath
        | Panic \<Rightarrow> Panic))"

definition do_cat :: "u8 list \<Rightarrow> fs_service \<Rightarrow> fs_status \<times> fs_service" where
  "do_cat path s =
    (case file_at path s of Ok d \<Rightarrow> (StOk, fs_puts (file_text d) s) | Err e \<Rightarrow> (e, s) | Panic \<Rightarrow> (StInvalidPath, s))"

definition do_is_dir :: "u8 list \<Rightarrow> fs_service \<Rightarrow> fs_status" where
  "do_is_dir path s =
    (if is_disk_path path then
       (case get_disk_archive s of
          None \<Rightarrow> StNotFound
        | Some archive \<Rightarrow>
            let sub = disk_subpath path in if sub = [] \<or> tar_has_dir archive sub then StOk else StNotFound)
     else
       (case ramfs_list path (fsv_files s) of
          Ok _ \<Rightarrow> StOk
        | Err FsNotFound \<Rightarrow> StNotFound
        | Err FsNotDirectory \<Rightarrow> StNotDirectory
        | _ \<Rightarrow> StInvalidPath))"

definition listing_line :: "u8 list \<times> bool \<times> nat \<Rightarrow> u8 list" where
  "listing_line e =
    (case e of (name, dir, sz) \<Rightarrow>
       if dir then ascii ''  '' @ name @ ascii ''/'' @ [newline]
       else ascii ''  '' @ name @ ascii '' ('' @ decimal sz @ ascii '' bytes)'' @ [newline])"

text \<open>The text of a directory listing; the line for the disk is written before the path is looked up.\<close>

definition listing_text :: "u8 list \<Rightarrow> fs_service \<Rightarrow> fs_status \<times> u8 list" where
  "listing_text path s =
    (let root = (if strip_first path = [] \<and> get_disk_archive s \<noteq> None
                 then ascii ''  disk/  (block device)'' @ [newline] else []) in
     if is_disk_path path then
       (case get_disk_archive s of
          None \<Rightarrow> (StNotFound, root)
        | Some archive \<Rightarrow> (StOk, root @ concat (map listing_line (tar_list archive (disk_subpath path)))))
     else
       (case ramfs_list path (fsv_files s) of
          Ok es \<Rightarrow> (StOk, root @ concat (map listing_line es))
        | Err FsNotFound \<Rightarrow> (StNotFound, root)
        | Err FsNotDirectory \<Rightarrow> (StNotDirectory, root)
        | _ \<Rightarrow> (StInvalidPath, root)))"

definition do_ls :: "u8 list \<Rightarrow> fs_service \<Rightarrow> fs_status \<times> fs_service" where
  "do_ls path s = (case listing_text path s of (st, text) \<Rightarrow> (st, fs_puts text s))"

definition do_mkdir :: "u8 list \<Rightarrow> fs_service \<Rightarrow> fs_status \<times> fs_service" where
  "do_mkdir path s =
    (if is_disk_path path then (StReadOnly, s)
     else case ramfs_mkdir path (fsv_files s) of (r, fs) \<Rightarrow>
       (case r of Ok _ \<Rightarrow> StOk | Err FsAlreadyExists \<Rightarrow> StAlreadyExists | Err FsNotFound \<Rightarrow> StNotFound | _ \<Rightarrow> StNoSpace,
        s\<lparr>fsv_files := fs\<rparr>))"

definition do_remove :: "u8 list \<Rightarrow> fs_service \<Rightarrow> fs_status \<times> fs_service" where
  "do_remove path s =
    (if is_disk_path path then (StReadOnly, s)
     else case ramfs_remove path (fsv_files s) of (r, fs) \<Rightarrow>
       (case r of Ok _ \<Rightarrow> StOk | Err FsNotFound \<Rightarrow> StNotFound | Err FsNotEmpty \<Rightarrow> StNotEmpty | _ \<Rightarrow> StInvalidPath,
        s\<lparr>fsv_files := fs\<rparr>))"

definition do_write :: "u8 list \<Rightarrow> u8 list \<Rightarrow> fs_service \<Rightarrow> fs_status \<times> fs_service" where
  "do_write path content s =
    (if is_disk_path path then (StReadOnly, s)
     else case ramfs_write path content (fsv_files s) of (r, fs) \<Rightarrow>
       let s = s\<lparr>fsv_files := fs\<rparr> in
       (case r of
          Ok _ \<Rightarrow>
            (StOk, fs_puts (ascii ''wrote '' @ decimal (length content) @ ascii '' bytes to '' @ path @ [newline]) s)
        | Err FsIsDirectory \<Rightarrow> (StIsDirectory, s)
        | _ \<Rightarrow> (StNoSpace, s)))"

section \<open>Requests in registers\<close>

definition status_reply :: "fs_status \<times> fs_service \<Rightarrow> xous_result \<times> fs_service" where
  "status_reply r = (Scalar1 (of_nat (fs_status_code (fst r))), snd r)"

definition handle_blocking_scalar :: "scalar_message \<Rightarrow> fs_service \<Rightarrow> xous_result \<times> fs_service" where
  "handle_blocking_scalar m s =
    (let path = unpack_path [sm_arg1 m, sm_arg2 m, sm_arg3 m, sm_arg4 m]; op = sm_id m in
     if op = fs_op_code OpCat then status_reply (do_cat path s)
     else if op = fs_op_code OpLs then status_reply (do_ls path s)
     else if op = fs_op_code OpMkdir then status_reply (do_mkdir path s)
     else if op = fs_op_code OpRemove then status_reply (do_remove path s)
     else if op = fs_op_code OpWriteShort then
       status_reply (do_write (unpack_path [sm_arg1 m, sm_arg2 m, 0, 0])
         (until_nul (word_le_bytes (sm_arg3 m) @ word_le_bytes (sm_arg4 m))) s)
     else if op = fs_op_code OpStats then
       (case ramfs_stats (fsv_files s) of (used, slots, bytes) \<Rightarrow>
          (Scalar5 (of_nat used) (of_nat slots) (of_nat bytes) (of_nat (length (fsv_disk s)))
             (of_nat (case get_disk_archive s of None \<Rightarrow> 0 | Some a \<Rightarrow> tar_count a)), s))
     else if op = fs_op_code OpIsDir then status_reply (do_is_dir path s, s)
     else status_reply (StInvalidPath, s))"

section \<open>Requests in buffers\<close>

fun buf_put :: "u8 list \<times> nat \<Rightarrow> u8 list \<Rightarrow> u8 list \<times> nat" where
  "buf_put (buf, pos) [] = (buf, pos)"
| "buf_put (buf, pos) (b # bs) =
    (if pos + 1 < length buf then buf_put (buf[pos := b], pos + 1) bs else buf_put (buf, pos) bs)"

definition do_ls_buf :: "u8 list \<Rightarrow> u8 list \<Rightarrow> fs_service \<Rightarrow> fs_status \<times> u8 list" where
  "do_ls_buf path out s = (case listing_text path s of (st, text) \<Rightarrow> (st, fst (buf_put (out, 0) text)))"

definition do_cat_buf :: "u8 list \<Rightarrow> u8 list \<Rightarrow> fs_service \<Rightarrow> fs_status \<times> u8 list" where
  "do_cat_buf path out s =
    (case file_at path s of
       Ok d \<Rightarrow> (StOk, fst (buf_put (out, 0) (file_text d))) | Err e \<Rightarrow> (e, out) | Panic \<Rightarrow> (StInvalidPath, out))"

text \<open>
  The answer is written into the lent buffer.  A buffer that has no room for the status byte
  would be written beyond its end, which the model shows as \<open>None\<close>; the kernel lends whole
  pages.
\<close>

definition handle_mutable_borrow :: "usize \<Rightarrow> u8 list \<Rightarrow> fs_service \<Rightarrow> u8 list option" where
  "handle_mutable_borrow op buf s =
    (if length buf \<le> BUF_STATUS_OFFSET then None
     else
       let path = str_or_empty (until_nul (take 32 buf));
           out = replicate (length buf - BUF_TEXT_OFFSET) 0;
           (st, text) =
             (if length buf > BUF_TEXT_OFFSET then
                if op = fs_op_code OpLsBuf then do_ls_buf path out s
                else if op = fs_op_code OpCatBuf then do_cat_buf path out s
                else (StInvalidPath, out)
              else (StInvalidPath, out))
       in Some (take BUF_STATUS_OFFSET buf @ of_nat (fs_status_code st) # text))"

section \<open>Start\<close>

definition fs_start :: "usize \<Rightarrow> usize \<Rightarrow> u8 list \<Rightarrow> fs_service" where
  "fs_start uart base disk =
    (let fs = ramfs_init ramfs_table;
         fs = snd (ramfs_mkdir (ascii ''/tmp'') fs);
         fs = snd (ramfs_mkdir (ascii ''/etc'') fs);
         fs = snd (ramfs_write (ascii ''/etc/motd'') (ascii ''Welcome to BeetOS!'' @ [newline]) fs)
     in fs_puts (ascii ''[fs] started, disk='' @ decimal (length disk) @ ascii '' bytes'' @ [newline])
          \<lparr>fsv_files = fs, fsv_disk_base = base, fsv_disk = disk, fsv_uart_base = uart, fsv_output = []\<rparr>)"

section \<open>Paths in registers\<close>

lemma until_nul_no_nul: "0 \<notin> set (until_nul bs)"
  by (auto simp: until_nul_def dest: set_takeWhileD)

lemma str_or_empty_subset: "set (str_or_empty bs) \<subseteq> set bs"
  by (auto simp: str_or_empty_def from_utf8_def split: if_splits)

lemma unpack_path_no_nul: "0 \<notin> set (unpack_path args)"
  using until_nul_no_nul str_or_empty_subset unfolding unpack_path_def by blast

lemma bit_word_from_le:
  "bit (word_from_le bs) k \<longleftrightarrow> k < 64 \<and> k div 8 < length bs \<and> bit (bs ! (k div 8)) (k mod 8)"
proof (induction bs arbitrary: k)
  case (Cons b bs)
  show ?case
  proof (cases "k < 8")
    case True
    then show ?thesis by (auto simp: word_from_le_def bit_simps)
  next
    case False
    then have "k div 8 = Suc ((k - 8) div 8)" "k mod 8 = (k - 8) mod 8" by (simp_all add: le_div_geq le_mod_geq)
    then show ?thesis using False Cons.IH [of "k - 8"] by (auto simp: word_from_le_def bit_simps)
  qed
qed (simp add: word_from_le_def)

lemma word_bytes_round_trip:
  assumes "length bs \<le> 8"
  shows "word_le_bytes (word_from_le bs) = bs @ replicate (8 - length bs) 0"
proof (rule nth_equalityI)
  fix i
  assume "i < length (word_le_bytes (word_from_le bs))"
  then have i: "i < 8" by (simp add: word_le_bytes_def)
  have "(ucast (drop_bit (8 * i) (word_from_le bs)) :: u8) = (if i < length bs then bs ! i else 0)"
  proof (rule bit_word_eqI)
    fix n
    assume "n < LENGTH(8)"
    then have n: "n < 8" by simp
    then have "(8 * i + n) div 8 = i" "(8 * i + n) mod 8 = n" "8 * i + n < 64" using i by auto
    then show "bit (ucast (drop_bit (8 * i) (word_from_le bs)) :: u8) n = bit (if i < length bs then bs ! i else 0) n"
      using n by (simp add: bit_simps bit_word_from_le)
  qed
  then show "word_le_bytes (word_from_le bs) ! i = (bs @ replicate (8 - length bs) 0) ! i"
    using i by (simp add: word_le_bytes_def nth_append)
qed (use assms in \<open>simp add: word_le_bytes_def\<close>)

lemma until_nul_zeros: "0 \<notin> set bs \<Longrightarrow> until_nul (bs @ replicate n 0) = bs"
  by (cases n) (auto simp: until_nul_def takeWhile_tail takeWhile_eq_all_conv)

text \<open>The words that carry a string, eight bytes each, followed by zero bytes.\<close>

lemma packed_bytes:
  assumes "length bs \<le> 8 * n"
  shows "concat (map (\<lambda>i. word_le_bytes (word_from_le (take 8 (drop (8 * i) bs)))) [0 ..< n]) = bs @ replicate (8 * n - length bs) 0"
  using assms
proof (induction n arbitrary: bs)
  case (Suc n)
  have "[0 ..< Suc n] = 0 # map Suc [0 ..< n]" by (simp add: map_Suc_upt upt_conv_Cons del: upt_Suc)
  moreover have "drop (8 * Suc i) bs = drop (8 * i) (drop 8 bs)" for i by (simp add: add.commute)
  moreover have "length (drop 8 bs) \<le> 8 * n" using Suc.prems by simp
  note Suc.IH [OF this]
  ultimately have "concat (map (\<lambda>i. word_le_bytes (word_from_le (take 8 (drop (8 * i) bs)))) [0 ..< Suc n]) =
      word_le_bytes (word_from_le (take 8 bs)) @ drop 8 bs @ replicate (8 * n - length (drop 8 bs)) 0"
    by (simp only: list.map map_map comp_def concat.simps mult_0_right drop_0)
  also have "\<dots> = bs @ replicate (8 * Suc n - length bs) 0"
  proof (cases "length bs < 8")
    case True
    have "8 - length bs + 8 * n = 8 * Suc n - length bs" using True by simp
    then show ?thesis using True by (simp add: word_bytes_round_trip replicate_add [symmetric])
  next
    case False
    then show ?thesis by (simp add: word_bytes_round_trip add.commute flip: append_assoc)
  qed
  finally show ?case .
qed simp

lemma unpack_packed:
  assumes "length p \<le> 8 * n" "0 \<notin> set p" "utf8_valid p"
  shows "unpack_path (map (\<lambda>i. word_from_le (take 8 (drop (8 * i) p))) [0 ..< n] @ replicate m 0) = p"
proof -
  have z: "word_le_bytes 0 = replicate 8 0" by (simp add: word_le_bytes_def map_replicate_const)
  have "concat (map word_le_bytes (replicate m 0)) = replicate (8 * m) 0" by (induction m) (simp_all add: z replicate_add)
  then have "concat (map word_le_bytes (map (\<lambda>i. word_from_le (take 8 (drop (8 * i) p))) [0 ..< n] @ replicate m 0)) =
      p @ replicate (8 * n - length p + 8 * m) 0"
    using packed_bytes [OF assms(1)] by (simp add: comp_def replicate_add)
  then show ?thesis
    using assms(3) by (simp only: unpack_path_def until_nul_zeros [OF assms(2)] str_or_empty_def from_utf8_def if_True option.case)
qed

section \<open>The text area\<close>

lemma buf_put_zeros:
  "buf_put (done @ replicate m 0, length done) bs =
    (done @ take (m - 1) bs @ replicate (m - min (m - 1) (length bs)) 0, length done + min (m - 1) (length bs))"
proof (induction bs arbitrary: "done" m)
  case (Cons b bs)
  show ?case
  proof (cases "m > 1")
    case True
    then obtain k where m: "m = Suc (Suc k)" by (metis One_nat_def less_natE add_Suc)
    have "(done @ replicate m 0)[length done := b] = (done @ [b]) @ replicate (Suc k) 0" by (simp add: m list_update_append)
    then show ?thesis using Cons.IH [of "done @ [b]" "Suc k"] by (simp add: m)
  qed (use Cons in simp)
qed simp

lemma buf_put_area: "fst (buf_put (replicate m 0, 0) bs) = take (m - 1) bs @ replicate (m - min (m - 1) (length bs)) 0"
  using buf_put_zeros [of "[]" m bs] by simp

section \<open>Every sequence of requests\<close>

text \<open>The messages the loop of the service receives; it ignores all but two kinds.\<close>

datatype fs_request = Registers scalar_message | Buffer usize "u8 list" | OtherMessage

fun fs_step :: "fs_request \<Rightarrow> fs_service \<Rightarrow> fs_service" where
  "fs_step (Registers m) s = snd (handle_blocking_scalar m s)"
| "fs_step (Buffer op buf) s = s"
| "fs_step OtherMessage s = s"

definition service_inv :: "fs_service \<Rightarrow> bool" where
  "service_inv s \<longleftrightarrow> fs_inv (fsv_files s) \<and> files_of (fsv_files s) [slash] = Some Directory"

lemma fs_puts_fields [simp]:
  "fsv_files (fs_puts bs s) = fsv_files s" "fsv_disk (fs_puts bs s) = fsv_disk s"
  "fsv_disk_base (fs_puts bs s) = fsv_disk_base s"
  by (simp_all add: fs_puts_def)

text \<open>No operation on the table touches the root directory.\<close>

lemma root_stays:
  assumes "fs_inv fs" "files_of fs [slash] = Some Directory" "0 \<notin> set path"
  shows "fs_inv (snd (ramfs_mkdir path fs)) \<and> files_of (snd (ramfs_mkdir path fs)) [slash] = Some Directory"
    "fs_inv (snd (ramfs_write path c fs)) \<and> files_of (snd (ramfs_write path c fs)) [slash] = Some Directory"
    "fs_inv (snd (ramfs_remove path fs)) \<and> files_of (snd (ramfs_remove path fs)) [slash] = Some Directory"
  using mkdir_refines [OF assms(1,3)] write_refines [OF assms(1,3), of c] remove_refines [OF assms(1), of path] assms(2)
  by (auto simp: map_mkdir_def map_write_def map_remove_def split: prod.splits if_splits)

lemma handle_keeps_service:
  assumes "service_inv s"
  shows "service_inv (snd (handle_blocking_scalar m s)) \<and> fsv_disk (snd (handle_blocking_scalar m s)) = fsv_disk s"
proof -
  note root = root_stays [OF _ _ unpack_path_no_nul]
  have inv: "fs_inv (fsv_files s)" "files_of (fsv_files s) [slash] = Some Directory" using assms by (simp_all add: service_inv_def)
  have "service_inv (snd (do_mkdir (unpack_path as) s)) \<and> fsv_disk (snd (do_mkdir (unpack_path as) s)) = fsv_disk s"
    "service_inv (snd (do_remove (unpack_path as) s)) \<and> fsv_disk (snd (do_remove (unpack_path as) s)) = fsv_disk s"
    "service_inv (snd (do_write (unpack_path as) c s)) \<and> fsv_disk (snd (do_write (unpack_path as) c s)) = fsv_disk s" for as c
    using assms root(1,3) [OF inv, of as] root(2) [OF inv, of as c]
    by (auto simp: do_mkdir_def do_remove_def do_write_def service_inv_def Let_def split: prod.splits outcome.splits fs_error.splits)
  moreover have "service_inv (snd (do_cat p s)) \<and> fsv_disk (snd (do_cat p s)) = fsv_disk s"
    "service_inv (snd (do_ls p s)) \<and> fsv_disk (snd (do_ls p s)) = fsv_disk s" for p
    using assms by (auto simp: do_cat_def do_ls_def service_inv_def split: outcome.split prod.split)
  ultimately show ?thesis
    using assms by (simp add: handle_blocking_scalar_def Let_def status_reply_def split: prod.split)
qed

lemma start_files: "service_inv (fs_start uart base disk)"
proof -
  have nul: "0 \<notin> set (ascii ''/tmp'')" "0 \<notin> set (ascii ''/etc'')" "0 \<notin> set (ascii ''/etc/motd'')" by (simp_all add: ascii_def)
  have "fs_inv (ramfs_init ramfs_table)" "files_of (ramfs_init ramfs_table) [slash] = Some Directory"
    by (simp_all add: ramfs_start)
  from root_stays(1) [OF this nul(1)] have "fs_inv (snd (ramfs_mkdir (ascii ''/tmp'') (ramfs_init ramfs_table)))"
    "files_of (snd (ramfs_mkdir (ascii ''/tmp'') (ramfs_init ramfs_table))) [slash] = Some Directory" by auto
  from root_stays(1) [OF this nul(2)] root_stays(2) [OF _ _ nul(3)] show ?thesis
    by (simp add: fs_start_def service_inv_def Let_def)
qed

text \<open>
  Property C15: whatever requests the file system service has answered since its start, its table is well
  formed (64 entries of full size, no two in use with the same name), the root is a
  directory, and the disk holds what it held at the start.
\<close>

theorem file_service_invariant:
  "let s = foldl (\<lambda>s r. fs_step r s) (fs_start uart base disk) requests in
   fs_inv (fsv_files s) \<and> files_of (fsv_files s) [slash] = Some Directory \<and> fsv_disk s = disk"
proof -
  have "service_inv (foldl (\<lambda>s r. fs_step r s) s requests) \<and> fsv_disk (foldl (\<lambda>s r. fs_step r s) s requests) = fsv_disk s"
    if "service_inv s" for s
    using that
  proof (induction requests arbitrary: s)
    case (Cons r rs)
    then have "service_inv (fs_step r s) \<and> fsv_disk (fs_step r s) = fsv_disk s"
      using handle_keeps_service [of s] by (cases r) auto
    then show ?case using Cons.IH [of "fs_step r s"] by simp
  qed simp
  from this [OF start_files] show ?thesis by (simp add: Let_def service_inv_def) (simp add: fs_start_def Let_def)
qed

section \<open>What the client sees\<close>

definition text_area :: "usize \<Rightarrow> u8 list \<Rightarrow> u8 list \<Rightarrow> fs_service \<Rightarrow> fs_status \<times> u8 list" where
  "text_area op path out s =
    (if out = [] then (StInvalidPath, out)
     else if op = fs_op_code OpLsBuf then do_ls_buf path out s
     else if op = fs_op_code OpCatBuf then do_cat_buf path out s
     else (StInvalidPath, out))"

lemma handle_by_area:
  "handle_mutable_borrow op buf s =
    (if length buf \<le> BUF_STATUS_OFFSET then None
     else let r = text_area op (read_path_from_buf buf) (replicate (length buf - BUF_TEXT_OFFSET) 0) s
       in Some (take BUF_STATUS_OFFSET buf @ of_nat (fs_status_code (fst r)) # snd r))"
  by (auto simp: handle_mutable_borrow_def text_area_def read_path_from_buf_def MAX_PATH_LEN_def Let_def BUF_TEXT_OFFSET_def
      split: prod.split)

lemma text_area_shape:
  "length (snd (text_area op path (replicate m 0) s)) = m" "m > 0 \<Longrightarrow> last (snd (text_area op path (replicate m 0) s)) = 0"
  by (auto simp: text_area_def do_ls_buf_def do_cat_buf_def buf_put_area min_def last_append split: prod.split outcome.split)

text \<open>
  Property C31: the answer to a request in a lent buffer stays within that buffer.  The length is
  kept and so are the 32 bytes of the path, the byte after them is a status code, and a
  text area ends with a zero byte, so that what the client reads as a string is terminated
  inside the buffer.
\<close>

theorem reply_buffer_bounds:
  assumes "handle_mutable_borrow op buf s = Some buf'"
  shows "length buf' = length buf \<and> take BUF_STATUS_OFFSET buf' = take BUF_STATUS_OFFSET buf \<and>
    (\<exists>st. buf' ! BUF_STATUS_OFFSET = of_nat (fs_status_code st)) \<and>
    (length buf > BUF_TEXT_OFFSET \<longrightarrow> last buf' = 0)"
proof -
  let ?m = "length buf - BUF_TEXT_OFFSET"
  let ?r = "text_area op (read_path_from_buf buf) (replicate ?m 0) s"
  have "length buf > BUF_STATUS_OFFSET" and b: "buf' = take BUF_STATUS_OFFSET buf @ of_nat (fs_status_code (fst ?r)) # snd ?r"
    using assms by (auto simp: handle_by_area Let_def split: if_splits)
  then have len: "length (take BUF_STATUS_OFFSET buf) = BUF_STATUS_OFFSET" "BUF_STATUS_OFFSET + (1 + ?m) = length buf"
    by (simp_all add: BUF_TEXT_OFFSET_def BUF_STATUS_OFFSET_def)
  have "last buf' = 0" if "length buf > BUF_TEXT_OFFSET"
  proof -
    have "?m > 0" using that by simp
    then have "last (snd ?r) = 0" by (rule text_area_shape)
    moreover have "snd ?r \<noteq> []" using \<open>?m > 0\<close> text_area_shape(1) by (metis length_0_conv less_irrefl)
    ultimately show ?thesis by (simp add: b)
  qed
  moreover have "buf' ! BUF_STATUS_OFFSET = of_nat (fs_status_code (fst ?r))" using len(1) by (simp add: b nth_append)
  moreover have "length buf' = length buf" "take BUF_STATUS_OFFSET buf' = take BUF_STATUS_OFFSET buf"
    using len text_area_shape(1) by (simp_all add: b)
  ultimately show ?thesis by blast
qed

theorem reply_buffer_bounds_witness:
  "\<exists>buf'. handle_mutable_borrow (fs_op_code OpCatBuf) (ascii ''/disk'' @ replicate 50 0) (fs_start 0 0 []) = Some buf' \<and>
    length buf' = 55 \<and> take BUF_STATUS_OFFSET buf' = ascii ''/disk'' @ replicate 27 0 \<and> last buf' = 0"
proof -
  let ?b = "ascii ''/disk'' @ replicate 50 0"
  have len: "length ?b = 55" "take BUF_STATUS_OFFSET ?b = ascii ''/disk'' @ replicate 27 0"
    by (simp_all add: ascii_def BUF_STATUS_OFFSET_def MAX_PATH_LEN_def)
  obtain buf' where b: "handle_mutable_borrow (fs_op_code OpCatBuf) ?b (fs_start 0 0 []) = Some buf'"
    using len by (fastforce simp: handle_mutable_borrow_def BUF_STATUS_OFFSET_def MAX_PATH_LEN_def Let_def split: prod.split)
  from reply_buffer_bounds [OF this] len have "length buf' = 55 \<and> take BUF_STATUS_OFFSET buf' = ascii ''/disk'' @ replicate 27 0 \<and> last buf' = 0"
    by (simp add: BUF_TEXT_OFFSET_def MAX_PATH_LEN_def)
  then show ?thesis using b by blast
qed

text \<open>The client's request to write a short file, and its buffer for reading one.\<close>

definition write_short :: "u8 list \<Rightarrow> u8 list \<Rightarrow> scalar_message" where
  "write_short path content =
    \<lparr>sm_id = fs_op_code OpWriteShort, sm_arg1 = pack_path path ! 0, sm_arg2 = pack_path path ! 1,
     sm_arg3 = pack_path content ! 0, sm_arg4 = pack_path content ! 1\<rparr>"

lemma write_short_request:
  assumes "length path \<le> 16" "0 \<notin> set path" "utf8_valid path" "length content \<le> 16" "0 \<notin> set content"
  shows "handle_blocking_scalar (write_short path content) s = status_reply (do_write path content s)"
proof -
  have "unpack_path [pack_path path ! 0, pack_path path ! 1, 0, 0] = path"
    using unpack_packed [of path 2 2] assms(1-3) by (simp add: numeral_2_eq_2 pack_path_def upt_rec)
  moreover have "word_le_bytes (pack_path content ! 0) @ word_le_bytes (pack_path content ! 1) = content @ replicate (16 - length content) 0"
    using packed_bytes [of content 2] assms(4) by (simp add: numeral_2_eq_2 pack_path_def upt_rec)
  ultimately show ?thesis
    using until_nul_zeros [OF assms(5)] by (simp add: handle_blocking_scalar_def write_short_def)
qed

lemma path_in_buf:
  assumes "length path < MAX_PATH_LEN" "length buf > MAX_PATH_LEN" "0 \<notin> set path" "utf8_valid path"
  shows "read_path_from_buf (snd (write_path_to_buf buf path)) = path" "length (snd (write_path_to_buf buf path)) = length buf"
proof -
  have w: "snd (write_path_to_buf buf path) = path @ 0 # drop (length path + 1) buf"
    using assms(1,2) by (auto simp: write_path_to_buf_def Let_def min_def)
  obtain k where "MAX_PATH_LEN - length path = Suc k" using assms(1) by (metis Suc_diff_Suc)
  then have "take MAX_PATH_LEN (snd (write_path_to_buf buf path)) = path @ 0 # take k (drop (length path + 1) buf)"
    using assms(1) by (simp add: w)
  moreover have "takeWhile (\<lambda>b. b \<noteq> 0) path = path" using assms(3) by (auto simp: takeWhile_eq_all_conv)
  ultimately show "read_path_from_buf (snd (write_path_to_buf buf path)) = path"
    using assms(3,4) by (simp add: read_path_from_buf_def until_nul_def takeWhile_tail str_or_empty_def from_utf8_def)
  show "length (snd (write_path_to_buf buf path)) = length buf" using assms(1,2) by (simp add: w)
qed

lemma written_is_read:
  assumes "service_inv s" "0 \<notin> set path" "do_write path content s = (StOk, s')"
  shows "file_at path s' = Ok content"
  using write_refines [OF _ assms(2), of "fsv_files s" content] assms(1,3)
  by (auto simp: do_write_def Let_def service_inv_def file_at_def read_refines map_write_def map_read_def
      split: if_splits prod.splits outcome.splits fs_error.splits)

text \<open>
  Property C16: a file that was written is read back.  The client packs a path and a content of up to
  16 bytes into the registers of one request; when the service acknowledges it with status
  0, a request to show that path, sent in any lent buffer, is answered with status 0 and
  the content of the file as text, cut to the size of the buffer.
\<close>

theorem written_file_is_read_back:
  assumes "service_inv s" "length path \<le> 16" "0 \<notin> set path" "utf8_valid path" "length content \<le> 16" "0 \<notin> set content"
    and w: "handle_blocking_scalar (write_short path content) s = (Scalar1 0, s')"
    and len: "length buf > MAX_PATH_LEN + 1"
  shows "\<exists>buf'. handle_mutable_borrow (fs_op_code OpCatBuf) (snd (write_path_to_buf buf path)) s' = Some buf' \<and>
    buf' ! BUF_STATUS_OFFSET = 0 \<and>
    until_nul (drop BUF_TEXT_OFFSET buf') = take (length buf - BUF_TEXT_OFFSET - 1) (until_nul (file_text content))"
proof -
  let ?b = "snd (write_path_to_buf buf path)" and ?m = "length buf - BUF_TEXT_OFFSET"
  have p: "read_path_from_buf ?b = path" "length ?b = length buf" using path_in_buf [of path buf] assms by (simp_all add: MAX_PATH_LEN_def)
  have "status_reply (do_write path content s) = (Scalar1 0, s')" using w write_short_request assms(2-6) by simp
  then have "do_write path content s = (StOk, s')"
    by (cases "do_write path content s", cases "fst (do_write path content s)") (auto simp: status_reply_def)
  then have "file_at path s' = Ok content" using written_is_read assms(1,3) by blast
  then have "handle_mutable_borrow (fs_op_code OpCatBuf) ?b s' =
      Some (take BUF_STATUS_OFFSET ?b @ 0 # take (?m - 1) (file_text content) @ replicate (?m - min (?m - 1) (length (file_text content))) 0)"
    using p len by (simp add: handle_mutable_borrow_def do_cat_buf_def buf_put_area read_path_from_buf_def BUF_TEXT_OFFSET_def
        BUF_STATUS_OFFSET_def MAX_PATH_LEN_def)
  moreover have "until_nul (take n t @ replicate k 0) = take n (until_nul t)" for n k t
    by (induction t arbitrary: n) (auto simp: until_nul_def takeWhile_tail take_Cons' takeWhile_eq_all_conv)
  ultimately show ?thesis using len p(2) by (simp add: nth_append BUF_TEXT_OFFSET_def BUF_STATUS_OFFSET_def MAX_PATH_LEN_def)
qed

lemma start_normalized:
  "normalize_path (ascii ''/tmp'') = ascii ''/tmp''" "normalize_path (ascii ''/etc'') = ascii ''/etc''"
  "normalize_path (ascii ''/etc/motd'') = ascii ''/etc/motd''" "normalize_path (ascii ''/note'') = ascii ''/note''"
  by code_simp+

lemmas start_names = start_normalized [simplified ascii_def, simplified]

lemma refined_files:
  assumes "fs_inv fs" "0 \<notin> set path"
  shows "fs_inv (snd (ramfs_mkdir path fs))" "files_of (snd (ramfs_mkdir path fs)) = snd (map_mkdir (normalize_path path) (files_of fs))"
    "files_of (snd (ramfs_write path c fs)) = snd (map_write (normalize_path path) c (files_of fs))"
    "fst (ramfs_write path c fs) = fst (map_write (normalize_path path) c (files_of fs))"
  using mkdir_refines [OF assms] write_refines [OF assms, of c] by (auto split: prod.splits simp: prod_eq_iff)

lemma start_map:
  "files_of (fsv_files (fs_start uart base disk)) =
    [[slash] \<mapsto> Directory, ascii ''/tmp'' \<mapsto> Directory, ascii ''/etc'' \<mapsto> Directory,
     ascii ''/etc/motd'' \<mapsto> Regular (ascii ''Welcome to BeetOS!'' @ [newline])]"
proof -
  have nul: "0 \<notin> set (ascii ''/tmp'')" "0 \<notin> set (ascii ''/etc'')" "0 \<notin> set (ascii ''/etc/motd'')" by (simp_all add: ascii_def)
  have "snd (map_mkdir (ascii ''/tmp'') [[slash] \<mapsto> Directory]) = [[slash] \<mapsto> Directory, ascii ''/tmp'' \<mapsto> Directory]"
    by (simp add: map_mkdir_def MAX_FILES_def ascii_def)
  moreover have "snd (map_mkdir (ascii ''/etc'') [[slash] \<mapsto> Directory, ascii ''/tmp'' \<mapsto> Directory]) =
      [[slash] \<mapsto> Directory, ascii ''/tmp'' \<mapsto> Directory, ascii ''/etc'' \<mapsto> Directory]"
    by (simp add: map_mkdir_def MAX_FILES_def ascii_def card_insert_if)
  moreover have "snd (map_write (ascii ''/etc/motd'') c [[slash] \<mapsto> Directory, ascii ''/tmp'' \<mapsto> Directory, ascii ''/etc'' \<mapsto> Directory]) =
      [[slash] \<mapsto> Directory, ascii ''/tmp'' \<mapsto> Directory, ascii ''/etc'' \<mapsto> Directory, ascii ''/etc/motd'' \<mapsto> Regular c]"
    if "length c \<le> MAX_FILE_SIZE" for c
    using that by (simp add: map_write_def MAX_FILES_def ascii_def card_insert_if)
  moreover have "length (ascii ''Welcome to BeetOS!'' @ [newline]) \<le> MAX_FILE_SIZE" by (simp add: MAX_FILE_SIZE_def ascii_def)
  ultimately show ?thesis
    by (simp only: fs_start_def Let_def fs_puts_fields fs_service.select_convs refined_files ramfs_start nul start_normalized
        not_False_eq_True)
qed

theorem written_file_is_read_back_witness:
  "\<exists>s' buf'. handle_blocking_scalar (write_short (ascii ''/note'') (ascii ''hi'')) (fs_start 0 0 []) = (Scalar1 0, s') \<and>
    handle_mutable_borrow (fs_op_code OpCatBuf) (snd (write_path_to_buf (replicate 64 0) (ascii ''/note''))) s' = Some buf' \<and>
    buf' ! BUF_STATUS_OFFSET = 0 \<and> until_nul (drop BUF_TEXT_OFFSET buf') = ascii ''hi'' @ [newline]"
proof -
  let ?p = "ascii ''/note''" and ?c = "ascii ''hi''" and ?s = "fs_start 0 0 []"
  have p: "length ?p \<le> 16" "0 \<notin> set ?p" "length ?c \<le> 16" "0 \<notin> set ?c" by (simp_all add: ascii_def)
  have u: "utf8_valid ?p" "until_nul (file_text ?c) = ?c @ [newline]" "\<not> is_disk_path ?p" by code_simp+
  have "map_write (normalize_path ?p) ?c (files_of (fsv_files ?s)) = (Ok (), (files_of (fsv_files ?s))(?p \<mapsto> Regular ?c))"
    by (simp add: start_map start_names map_write_def MAX_FILES_def MAX_FILE_SIZE_def ascii_def card_insert_if)
  then have "fst (ramfs_write ?p ?c (fsv_files ?s)) = Ok ()"
    using refined_files(4) [OF _ p(2), of "fsv_files ?s" ?c] start_files [of 0 0 "[]"] by (simp add: service_inv_def)
  then have "fst (do_write ?p ?c ?s) = StOk" using u(3) by (auto simp: do_write_def Let_def split: prod.split)
  then obtain s' where w: "handle_blocking_scalar (write_short ?p ?c) ?s = (Scalar1 0, s')"
    using write_short_request [OF p(1,2) u(1) p(3,4), of ?s] by (simp add: status_reply_def)
  have cut: "take (length (replicate 64 (0 :: u8)) - BUF_TEXT_OFFSET - 1) (?c @ [newline]) = ?c @ [newline]"
    "length (replicate 64 (0 :: u8)) > MAX_PATH_LEN + 1"
    by (simp_all add: MAX_PATH_LEN_def BUF_TEXT_OFFSET_def ascii_def)
  from written_file_is_read_back [OF start_files p(1,2) u(1) p(3,4) w cut(2)] w show ?thesis
    unfolding u(2) cut(1) by blast
qed

end
