(* ===== verification/Spec2Isabelle.thy ===== *)
theory Spec2Isabelle
  imports Kernel_Guarantees File_Service
begin

text \<open>
  Verification of the BeetOS kernel core and of its file system service.

  \<^bold>\<open>The program.\<close>  BeetOS is a microkernel system for AArch64, derived from Xous.  The kernel
  (\<open>xous/kernel/src\<close>) keeps up to 64 processes with 32 threads each, gives every process an address
  space of 16 KiB pages, schedules threads by sixteen priorities, and passes messages between
  processes and servers.  A user program enters the kernel with eight registers, which the
  library \<open>xous/xous-rs/src\<close> encodes and the kernel decodes.  The kernel then works on its
  global state (process and server tables, scheduler, page tracker, page tables, saved contexts,
  interrupt and display tables), chooses a thread and returns to it.  The file system service
  (\<open>os/fs/src\<close>) is a server on top of it.  The configuration is the hardware kernel
  (\<open>cfg(beetos)\<close>) on the QEMU \<open>virt\<close> platform.

  \<^bold>\<open>Conventions.\<close>  A fallible Rust function returns a value of \<open>outcome\<close>: \<open>Ok\<close>, \<open>Err\<close>
  or \<open>Panic\<close>.  A panic halts the machine, and so does the call \<open>Shutdown\<close>, which is also
  \<open>Panic\<close>.  A function that changes state returns the outcome and the new state, and
  \<open>sbind\<close> sequences such calls as \<open>?\<close> does.  Machine integers are words of their width;
  indices that the code compares with a length are natural numbers.  Overflow of plain
  arithmetic panics, as in a build with overflow checks, and wraps where the code says
  \<open>wrapping\<close>.

  \<^bold>\<open>Interface of the kernel\<close> (\<open>xous/xous-rs/src\<close>).
  \<^item> \<open>Kernel_Prelude\<close>, \<open>Platform_Config\<close>: machine types, outcomes, the constants of
    \<open>beetos/src/lib.rs\<close>; the locale \<open>codec\<close>.
  \<^item> \<open>Xous_Defs\<close>, \<open>Messages\<close>, \<open>Result_Codec\<close>, \<open>Syscall_Codec\<close>: \<open>definitions.rs\<close>, the
    messages, the replies and \<open>syscall.rs\<close> with their register encodings.  The lemmas are
    round trips, and say exactly which register contents make the decoder panic.

  \<^bold>\<open>Components of the kernel\<close> (\<open>xous/kernel/src\<close>).
  \<^item> \<open>Message_Permissions\<close>, \<open>Server_Queue\<close> (\<open>server.rs\<close>): the message filter and the message queue of
    a server.  The queue implements the contract \<open>Fifo_Contract.fifo_queue\<close>: messages arrive in
    order, and replies find the blocked sender.
  \<^item> \<open>Ready_Queues\<close> (\<open>scheduler.rs\<close>): circular lists threaded through a table refine sixteen
    lists, and implement the contract \<open>Round_Robin.rotating_queues\<close>.
  \<^item> \<open>Page_Allocator\<close>, \<open>Allocator_States\<close> (\<open>mem.rs\<close>): the page tracker and the free bitmaps, the
    states any interleaving of its calls reaches (\<open>mm_reachable\<close>), the contract
    \<open>Page_Pool.page_pool\<close>, ownership, and the requests that panic.
  \<^item> \<open>Page_Tables\<close>, \<open>Address_Spaces\<close> (\<open>arch/aarch64/mem.rs\<close>): three-level tables in memory.
    Each call changes one translation of one address space.  \<open>vm_reachable\<close> are the states that
    the page table calls reach, in any order with calls of the allocator, exits of processes, the
    page zeroer and stores to memory.  Its steps carry a proviso: a page that holds a table is not
    written, released, claimed or moved except by the page table code.  The kernel does not
    check this for a page that is lent: its owner can unmap it, which frees it while the borrower
    still has a mapping, and it can become a table.  \<open>vm_reachable\<close> is a relation on memory alone,
    and the states of the whole kernel (\<open>kernel_reachable\<close>) are not shown to satisfy it.
  \<^item> \<open>Thread_Contexts\<close> (\<open>arch/aarch64/process.rs\<close>), \<open>Processes\<close> (\<open>process.rs\<close>), \<open>Interrupts\<close>
    (\<open>irq.rs\<close>), \<open>Display_State\<close> (\<open>services.rs\<close>): saved registers, the process record, the
    interrupt table, and the display with its ring buffers.
  \<^item> \<open>Kernel_State\<close>, \<open>Delivery\<close>, \<open>Memory_Mapping\<close>, \<open>Ipc\<close>, \<open>Elf_Loader\<close>, \<open>Display_Control\<close>,
    \<open>Process_Lifecycle\<close>, \<open>Syscall_Handler\<close>, \<open>Exceptions\<close>, \<open>Boot\<close>: the record \<open>kernel\<close> of all
    globals and the code that works on it, from \<open>services.rs\<close>, \<open>mem.rs\<close>, \<open>kfuture.rs\<close>,
    \<open>syscall.rs\<close>, \<open>arch/aarch64/elf.rs\<close>, \<open>irq.rs\<close> and \<open>boot.rs\<close>.
  \<^item> \<open>Kernel_Threads\<close>, \<open>Kernel_Invariants\<close>: the rules for \<open>holds I m\<close> (the call \<open>m\<close> panics or
    ends in \<open>I\<close>) and the locales \<open>kernel_events\<close> and \<open>kernel_invariant\<close>, in which it is proved once
    that every operation up to the exception entries keeps a predicate that the elementary
    updates keep.
  \<^item> \<open>Kernel_Properties\<close>, \<open>Kernel_Guarantees\<close>: the states that booting and any sequence of
    system calls, faults and interrupts reach (\<open>kernel_reachable\<close>), the invariants of these
    states as interpretations, and what the kernel guarantees to its processes.  Among
    these are calls and faults that stop the kernel, and a client that is left waiting.

  \<^bold>\<open>File system service\<close> (\<open>os/fs/src\<close>).  \<open>Ram_Files\<close> (\<open>ramfs.rs\<close>) refines a finite map from
  normalised paths.  \<open>Tar_Archive\<close> (\<open>tarfs.rs\<close>) compares the four loops of the reader with one
  pass over the archive, and shows that the reader finds the files of every archive that has the
  ustar layout with names in the name field.  \<open>File_Service\<close> (\<open>main.rs\<close>, and the packing of
  \<open>api/fs/src/lib.rs\<close>) models the requests in registers and in lent buffers.

  \<^bold>\<open>Loops and bounds.\<close>  Most loops are structural or have a termination proof.  The choice of
  the next thread has \<open>activate_fuel\<close> turns, one more than the number of threads of all
  processes; it is proved that every turn that goes on parks a ready thread and that more turns change
  nothing.  \<open>wake_parked\<close> has 65 turns, as each clears one of 64 bits.  The search for a parked
  thread returns an option whose \<open>None\<close> would be a loop without end.

  \<^bold>\<open>Parameters.\<close>  The bitmaps of the \<open>bitvec\<close> crate are the argument \<open>B\<close>, with its documented
  behaviour as \<open>bitvec_laws\<close> and functions on bits (\<open>fun_bits\<close>) as an instance.  Random numbers, embedded
  programs, network addresses, the text of the debug commands, the interrupts that arrive and
  the contents of the disk are inputs.

  \<^bold>\<open>Simplifications.\<close>  The events sent when memory runs low are sent at the end of the call of the
  allocator or of the page tables, and once for the call.  TLB and cache maintenance, the CPU usage log and the
  preemption timer have no effect on the modelled state and are left out.  A bad access by the kernel itself is a panic.

  \<^bold>\<open>Not modelled.\<close>  The assembly of vectors and context switches; device drivers and
  the network stack, which exchange data with hardware; the hosted architecture, which
  simulates the kernel on sockets and host threads; the boot loader; the initialisation from loader
  arguments; the other servers, applications and client libraries, which are message loops
  and wrappers around system calls; the build tool.
\<close>

end
